theory Spec2Isabelle
  imports Main "HOL-Library.AList" "HOL-Library.Char_ord" "HOL-Library.List_Lexorder"
begin

chapter \<open>The request pipeline of the assistant orchestrator\<close>

text \<open>
  A shallow embedding of the Go sources: the manifest registry and route matcher, the
  manifest validator, the provider client and context builder, the HTTP provider and HTTP
  tool template resolvers, the tool parameter resolver, the agent loop and the two memory
  backends. Go strings are byte sequences, so \<open>string\<close> (a list of 8-bit characters) is
  the model of \<open>string\<close>; a Go \<open>map[string]T\<close> that the code iterates is an
  association list with distinct keys, read in the order the runtime happens to pick; a
  Go \<open>error\<close> is a value of the datatype \<open>error\<close>, and \<open>(T, error)\<close> is
  \<open>error + T\<close>. What the standard library or another external collaborator computes
  (regular expressions, JSON, the SQL driver, HTTP, the clock, the language model) is a
  parameter of the function that uses it.
\<close>

section \<open>Errors\<close>

datatype error =
    ManifestNotLoaded
  | RouteNotFound string
  | RouteCompileFailed string error
  | InvalidPattern string error
  | ValidationError string
  | MissingVersion
  | MissingRoutes
  | MissingRouteName string
  | MissingRoutePattern string
  | DuplicateRouteName string
  | MissingProviderType string
  | MissingProviderName
  | MissingProviderURL string string
  | MultipleValidationErrors "error list"
  | ProviderFailed string error
  | ProviderNotFound string
  | ProviderTimeout string
  | MultipleProvidersFailed "string list" "error list"
  | BuildFailed error
  | InvalidRouteMatch
  | MissingRouteConfig
  | ProviderLoadFailed string error
  | UnsupportedProviderType string
  | InvalidProviderConfig string string
  | InvalidTool string
  | ToolExecutionFailed string error
  | MissingParameter string string
  | ParameterResolution string string error
  | ToolTimeout string
  | Errorf string "error option"
  | External string
  | IndexOutOfRange
  | NilDereference
  | PathSegmentNotFound string nat
  | CannotTraverseNonMap string

text \<open>
  \<open>Errorf msg cause\<close> is \<open>fmt.Errorf\<close> (with the wrapped cause of a \<open>%w\<close> verb),
  \<open>External\<close> an error value produced by an external collaborator;
  \<open>IndexOutOfRange\<close> and \<open>NilDereference\<close> are the run-time panics of an
  out-of-range slice index and of a method call through a nil pointer;
  \<open>PathSegmentNotFound\<close> and \<open>CannotTraverseNonMap\<close> are the two formatted errors of
  extractFromContext, with the segment (and the level) they name.
\<close>

section \<open>Messages\<close>

text \<open>
  Modelled from the spec: the type declarations of package \<open>llm\<close> (Message, ToolCall),
  which the sources use and do not contain. A message has a role, a text content, an array
  of tool calls (id, function name, JSON-string arguments) and a tool-call id.
\<close>

record FunctionCall =
  Name :: string
  Arguments :: string

record ToolCall =
  ID :: string
  Function :: FunctionCall

record Message =
  Role :: string
  Content :: string
  ToolCalls :: "ToolCall list"
  ToolCallID :: string

definition NewSystemMessage :: "string \<Rightarrow> Message" where
  "NewSystemMessage c = \<lparr>Role = ''system'', Content = c, ToolCalls = [], ToolCallID = ''''\<rparr>"

definition NewUserMessage :: "string \<Rightarrow> Message" where
  "NewUserMessage c = \<lparr>Role = ''user'', Content = c, ToolCalls = [], ToolCallID = ''''\<rparr>"

section \<open>Dynamic values\<close>

text \<open>
  A Go value of type \<open>any\<close> as the code meets it: what the JSON and YAML decoders
  produce (\<open>AMap\<close> is a \<open>map[string]any\<close>), and the \<open>map[string]string\<close> of
  route and query parameters (\<open>AStringMap\<close>). A \<open>float64\<close> is carried by its
  \<open>%v\<close> rendering, the only thing the code reads of it.
\<close>

datatype any =
    ANil
  | ABool bool
  | AInt int
  | AFloat string
  | AString string
  | AList "any list"
  | AMap "(string \<times> any) list"
  | AStringMap "(string \<times> string) list"

type_synonym params = "(string \<times> any) list"

section \<open>Strings\<close>

text \<open>
  The functions of package \<open>strings\<close> the code calls, on byte strings. The substring a
  caller searches for or replaces is never empty here (a placeholder has its braces);
  ReplaceAll leaves the string as it is for an empty one.
\<close>

definition HasPrefix :: "string \<Rightarrow> string \<Rightarrow> bool" where
  "HasPrefix s p = (take (length p) s = p)"

definition HasSuffix :: "string \<Rightarrow> string \<Rightarrow> bool" where
  "HasSuffix s p = (length p \<le> length s \<and> drop (length s - length p) s = p)"

definition TrimPrefix :: "string \<Rightarrow> string \<Rightarrow> string" where
  "TrimPrefix s p = (if HasPrefix s p then drop (length p) s else s)"

definition TrimSuffix :: "string \<Rightarrow> string \<Rightarrow> string" where
  "TrimSuffix s p = (if HasSuffix s p then take (length s - length p) s else s)"

fun Index :: "string \<Rightarrow> string \<Rightarrow> nat option" where
  "Index [] sub = (if sub = [] then Some 0 else None)"
| "Index (c # cs) sub =
     (if HasPrefix (c # cs) sub then Some 0 else map_option Suc (Index cs sub))"

definition Contains :: "string \<Rightarrow> string \<Rightarrow> bool" where
  "Contains s sub = (Index s sub \<noteq> None)"

function ReplaceAll :: "string \<Rightarrow> string \<Rightarrow> string \<Rightarrow> string" where
  "ReplaceAll [] old new = []"
| "ReplaceAll (c # cs) old new =
     (if old \<noteq> [] \<and> HasPrefix (c # cs) old
      then new @ ReplaceAll (drop (length old) (c # cs)) old new
      else c # ReplaceAll cs old new)"
  by pat_completeness auto
termination
  by (relation "measure (\<lambda>(s, old, new). length s)") (auto simp: Suc_le_eq)

text \<open>\<open>strings.Split\<close> with a separator of one byte.\<close>

fun Split :: "string \<Rightarrow> char \<Rightarrow> string list" where
  "Split [] sep = [[]]"
| "Split (c # cs) sep =
     (if c = sep then [] # Split cs sep
      else (case Split cs sep of [] \<Rightarrow> [[c]] | h # t \<Rightarrow> (c # h) # t))"

text \<open>
  \<open>strings.TrimSpace\<close> removes leading and trailing white space as Unicode defines it.
  The UTF-8 encodings of the white-space code points (U+0009 to U+000D, U+0020, U+0085,
  U+00A0, U+1680, U+2000 to U+200A, U+2028, U+2029, U+202F, U+205F, U+3000):
\<close>

definition space_sequences :: "string list" where
  "space_sequences =
     [[CHR 0x09], [CHR 0x0A], [CHR 0x0B], [CHR 0x0C], [CHR 0x0D], [CHR 0x20],
      [CHR 0xC2, CHR 0x85], [CHR 0xC2, CHR 0xA0], [CHR 0xE1, CHR 0x9A, CHR 0x80],
      [CHR 0xE2, CHR 0x80, CHR 0x80], [CHR 0xE2, CHR 0x80, CHR 0x81],
      [CHR 0xE2, CHR 0x80, CHR 0x82], [CHR 0xE2, CHR 0x80, CHR 0x83],
      [CHR 0xE2, CHR 0x80, CHR 0x84], [CHR 0xE2, CHR 0x80, CHR 0x85],
      [CHR 0xE2, CHR 0x80, CHR 0x86], [CHR 0xE2, CHR 0x80, CHR 0x87],
      [CHR 0xE2, CHR 0x80, CHR 0x88], [CHR 0xE2, CHR 0x80, CHR 0x89],
      [CHR 0xE2, CHR 0x80, CHR 0x8A], [CHR 0xE2, CHR 0x80, CHR 0xA8],
      [CHR 0xE2, CHR 0x80, CHR 0xA9], [CHR 0xE2, CHR 0x80, CHR 0xAF],
      [CHR 0xE2, CHR 0x81, CHR 0x9F], [CHR 0xE3, CHR 0x80, CHR 0x80]]"

function TrimLeftSequences :: "string list \<Rightarrow> string \<Rightarrow> string" where
  "TrimLeftSequences seqs s =
     (case List.find (\<lambda>q. q \<noteq> [] \<and> HasPrefix s q) seqs of
        None \<Rightarrow> s
      | Some q \<Rightarrow> TrimLeftSequences seqs (drop (length q) s))"
  by pat_completeness auto
termination
proof (relation "measure (\<lambda>(seqs, s). length s)")
  show "wf (measure (\<lambda>(seqs, s). length s))" by simp
next
  fix seqs :: "string list" and s q :: string
  assume "List.find (\<lambda>q. q \<noteq> [] \<and> HasPrefix s q) seqs = Some q"
  then have "q \<noteq> []" and "HasPrefix s q" by (auto simp: find_Some_iff)
  then have "s \<noteq> []" by (auto simp: HasPrefix_def)
  with \<open>q \<noteq> []\<close> show "((seqs, drop (length q) s), (seqs, s)) \<in> measure (\<lambda>(seqs, s). length s)"
    by simp
qed

declare TrimLeftSequences.simps [simp del]

definition TrimSpace :: "string \<Rightarrow> string" where
  "TrimSpace s =
     rev (TrimLeftSequences (map rev space_sequences) (rev (TrimLeftSequences space_sequences s)))"

section \<open>String form of a value\<close>

text \<open>
  \<open>fmt.Sprintf("%v", value)\<close> and \<open>fmt.Sprint(value)\<close>: a string as it is, a map with its
  keys in sorted order.
\<close>

function nat_digits :: "nat \<Rightarrow> string" where
  "nat_digits n =
     (if n < 10 then [''0123456789'' ! n] else nat_digits (n div 10) @ [''0123456789'' ! (n mod 10)])"
  by pat_completeness auto
termination
  by (relation "measure id") auto

declare nat_digits.simps [simp del]

definition Itoa :: "int \<Rightarrow> string" where
  "Itoa i = (if i < 0 then ''-'' @ nat_digits (nat (- i)) else nat_digits (nat i))"

fun join :: "string list \<Rightarrow> string \<Rightarrow> string" where
  "join [] sep = []"
| "join [x] sep = x"
| "join (x # y # ys) sep = x @ sep @ join (y # ys) sep"

fun Sprint :: "any \<Rightarrow> string" where
  "Sprint ANil = ''<nil>''"
| "Sprint (ABool b) = (if b then ''true'' else ''false'')"
| "Sprint (AInt i) = Itoa i"
| "Sprint (AFloat rendering) = rendering"
| "Sprint (AString s) = s"
| "Sprint (AList xs) = ''['' @ join (map Sprint xs) '' '' @ '']''"
| "Sprint (AMap kvs) =
     ''map['' @ join (map (\<lambda>(k, s). k @ '':'' @ s)
                       (sort_key fst (map (\<lambda>(k, v). (k, Sprint v)) kvs))) '' '' @ '']''"
| "Sprint (AStringMap kvs) =
     ''map['' @ join (map (\<lambda>(k, s). k @ '':'' @ s) (sort_key fst kvs)) '' '' @ '']''"


section \<open>Context of a request\<close>

text \<open>The structs of context.go; a pointer that may be nil is an option.\<close>

record User =
  ID :: string
  Email :: string
  Name :: string
  Permissions :: "string list"
  Metadata :: params
  Token :: string

record InteractiveElement =
  Type :: string
  Label :: string
  Value :: string
  ID :: string

record Heading =
  Level :: int
  Text :: string

record AccessibilityContext =
  Title :: string
  InteractiveElements :: "InteractiveElement list"
  Headings :: "Heading list"

record ViewportInfo =
  Width :: int
  Height :: int

record FrontendContext =
  AnonymousID :: string
  Accessibility :: "AccessibilityContext option"
  Viewport :: "ViewportInfo option"
  CustomData :: params

record RouteInfo =
  Path :: string
  Name :: string
  Params :: "(string \<times> string) list"
  Query :: "(string \<times> string) list"

record FullContext =
  Route :: RouteInfo
  User :: "User option"
  Frontend :: "FrontendContext option"
  Backend :: params
  Instructions :: string
  AvailableTools :: "string list"

definition IsAuthenticated :: "User option \<Rightarrow> bool" where
  "IsAuthenticated u = (case u of None \<Rightarrow> False | Some usr \<Rightarrow> User.ID usr \<noteq> [])"

section \<open>HTTP exchange\<close>

text \<open>
  What an HTTP provider hands to the network and what comes back. A request carries its
  method, its URL, its header (one value per canonical key) and its body, if any. The
  exchange fails with an error (and the flag says whether the deadline of the context
  was exceeded), or gives a response: a status code, the bytes of the body that could be
  read, and the error that ended the reading, if any. Durations are in nanoseconds.
\<close>

record HTTPRequest =
  Method :: string
  URL :: string
  Header :: "(string \<times> string) list"
  Body :: "string option"

record HTTPResponse =
  StatusCode :: int
  Body :: string
  ReadError :: "error option"

datatype HTTPOutcome = Failed error bool | Responded HTTPResponse

text \<open>
  The collaborators outside the repository, as parameters: the environment
  (\<open>os.Getenv\<close>), \<open>json.Marshal\<close> and \<open>json.Unmarshal\<close>, \<open>time.ParseDuration\<close>, the
  checks of \<open>http.NewRequestWithContext\<close> on method and URL, the canonical form of a
  header key, and the exchange itself (\<open>client.Do\<close> of a client with the given timeout).
\<close>

record Externals =
  Getenv :: "string \<Rightarrow> string"
  Marshal :: "any \<Rightarrow> error + string"
  Unmarshal :: "string \<Rightarrow> error + any"
  ParseDuration :: "string \<Rightarrow> error + int"
  NewRequestWithContext :: "string \<Rightarrow> string \<Rightarrow> error option"
  CanonicalHeaderKey :: "string \<Rightarrow> string"
  Do :: "int \<Rightarrow> HTTPRequest \<Rightarrow> HTTPOutcome"

section \<open>Manifest\<close>

text \<open>
  The structs of manifest.go. A \<open>float64\<close> field is carried by its rendering, a
  \<open>nil\<close> body or default is \<open>ANil\<close>, a pointer that may be nil is an option.
\<close>

record Provider =
  Type :: string
  Name :: string
  URL :: string
  Method :: string
  Headers :: "(string \<times> string) list"
  Body :: any
  Timeout :: string
  Params :: params
  Condition :: string
  Optional :: bool

record Context =
  Providers :: "Provider list"

record ToolConfig =
  Method :: string
  URL :: string
  Headers :: "(string \<times> string) list"
  Body :: any
  Timeout :: string
  ResponsePath :: string
  Operation :: string

record ToolParameter =
  Name :: string
  Type :: string
  Description :: string
  Required :: bool
  Source :: string
  ContextPath :: string
  Enum :: "string list"
  Default :: any

record Tool =
  Name :: string
  Description :: string
  Type :: string
  Config :: ToolConfig
  Parameters :: "ToolParameter list"

record Safety =
  RequireConfirmation :: "string list"
  MaxCostPerQuery :: string
  PIIProtection :: bool
  RateLimitPerUser :: int

record Route =
  Pattern :: string
  Name :: string
  Description :: string
  Context :: Context
  Tools :: "Tool list"
  AgentInstructions :: string
  Safety :: Safety

record Manifest =
  Version :: string
  Routes :: "Route list"
  Fallback :: "Route option"

section \<open>Manifest validation\<close>

definition validateProvider :: "Provider \<Rightarrow> error option" where
  "validateProvider provider =
     (if Provider.Type provider = '''' then Some (MissingProviderType (Provider.Name provider))
      else if Provider.Name provider = '''' then Some MissingProviderName
      else if Provider.Type provider = ''http'' \<and> Provider.URL provider = ''''
           then Some (MissingProviderURL (Provider.Name provider) (Provider.Type provider))
      else None)"

fun validateProviders :: "Provider list \<Rightarrow> error option" where
  "validateProviders [] = None"
| "validateProviders (provider # rest) =
     (case validateProvider provider of
        Some err \<Rightarrow> Some err
      | None \<Rightarrow> validateProviders rest)"

definition validateRoute :: "Route \<Rightarrow> error option" where
  "validateRoute route =
     (if Route.Pattern route = '''' then Some (MissingRoutePattern (Route.Name route))
      else if Route.Name route = '''' then Some (MissingRouteName (Route.Pattern route))
      else validateProviders (Providers (Route.Context route)))"

definition compileRoutePattern :: "Route \<Rightarrow> error + string" where
  "compileRoutePattern route =
     (let pattern = Route.Pattern route
      in if \<not> HasPrefix pattern ''/'' \<and> pattern \<noteq> ''''
         then Inl (InvalidPattern pattern (ValidationError ''pattern must start with /''))
         else Inr pattern)"

text \<open>
  The loop of ValidateManifest over the routes, with its two accumulators: the set of
  names seen (a \<open>map[string]bool\<close>, read as false where it has no entry) and the list
  of errors.
\<close>

fun ValidateManifest_routes ::
  "Route list \<Rightarrow> (string \<times> bool) list \<Rightarrow> error list \<Rightarrow> error list" where
  "ValidateManifest_routes [] routeNames validationErrors = validationErrors"
| "ValidateManifest_routes (route # rest) routeNames validationErrors =
     (let errs1 = (case validateRoute route of
                     Some err \<Rightarrow> validationErrors @ [err]
                   | None \<Rightarrow> validationErrors);
          errs2 = (if (case map_of routeNames (Route.Name route) of Some b \<Rightarrow> b | None \<Rightarrow> False)
                   then errs1 @ [DuplicateRouteName (Route.Name route)]
                   else errs1);
          routeNames' = AList.update (Route.Name route) True routeNames;
          errs3 = (case compileRoutePattern route of
                     Inl err \<Rightarrow> errs2 @ [err]
                   | Inr _ \<Rightarrow> errs2)
      in ValidateManifest_routes rest routeNames' errs3)"

definition ValidateManifest :: "Manifest \<Rightarrow> error option" where
  "ValidateManifest manifest =
     (if Version manifest = '''' then Some MissingVersion
      else if length (Routes manifest) = 0 then Some MissingRoutes
      else
        (let errs = ValidateManifest_routes (Routes manifest) [] [];
             errs' = (case Fallback manifest of
                        Some fallback \<Rightarrow>
                          (case validateRoute fallback of
                             Some err \<Rightarrow> errs @ [err]
                           | None \<Rightarrow> errs)
                      | None \<Rightarrow> errs)
         in if length errs' > 0 then Some (MultipleValidationErrors errs') else None))"

section \<open>Registry and route matcher\<close>

text \<open>
  Package \<open>regexp\<close> of the standard library is a parameter: \<open>Compile\<close> returns
  an error or a compiled expression, \<open>FindStringSubmatch\<close> returns nothing (\<open>nil\<close>)
  or the text of the whole match followed by the text of every capture group. The single
  fixed expression of the code, \<open>:(\w+)\<close>, is written out: a colon followed by the
  longest non-empty run of word characters (\<open>[0-9A-Za-z_]\<close>), found leftmost first
  and without overlap.
\<close>

record 'rx Regexp =
  Compile :: "string \<Rightarrow> error + 'rx"
  FindStringSubmatch :: "'rx \<Rightarrow> string \<Rightarrow> string list option"

record 'rx routeEntry =
  route :: Route
  pattern :: 'rx
  params :: "string list"

record 'rx Registry =
  manifest :: "Manifest option"
  routes :: "'rx routeEntry list"
  fallback :: "Route option"

record RouteMatch =
  Route :: "Route option"
  Params :: "(string \<times> string) list"
  Query :: "(string \<times> string) list"

definition NewRegistry :: "'rx Registry" where
  "NewRegistry = \<lparr>manifest = None, routes = [], fallback = None\<rparr>"

definition is_word_char :: "char \<Rightarrow> bool" where
  "is_word_char c =
     (c \<in> set ''0123456789ABCDEFGHIJKLMNOPQRSTUVWXYZabcdefghijklmnopqrstuvwxyz_'')"

text \<open>\<open>paramRegex.FindAllStringSubmatch(pattern, -1)\<close>, keeping group 1 of every match.\<close>

function paramNames :: "string \<Rightarrow> string list" where
  "paramNames [] = []"
| "paramNames (c # cs) =
     (if c = CHR '':'' \<and> takeWhile is_word_char cs \<noteq> []
      then takeWhile is_word_char cs # paramNames (dropWhile is_word_char cs)
      else paramNames cs)"
  by pat_completeness auto
termination
  by (relation "measure length") (auto simp: length_dropWhile_le less_Suc_eq_le)

text \<open>\<open>paramRegex.ReplaceAllString(pattern, `([^/]+)`)\<close>.\<close>

function replaceParams :: "string \<Rightarrow> string" where
  "replaceParams [] = []"
| "replaceParams (c # cs) =
     (if c = CHR '':'' \<and> takeWhile is_word_char cs \<noteq> []
      then ''([^/]+)'' @ replaceParams (dropWhile is_word_char cs)
      else c # replaceParams cs)"
  by pat_completeness auto
termination
  by (relation "measure length") (auto simp: length_dropWhile_le less_Suc_eq_le)

definition compileRoute :: "'rx Regexp \<Rightarrow> Route \<Rightarrow> error + 'rx routeEntry" where
  "compileRoute re rt =
     (let pat = Route.Pattern rt;
          names = paramNames pat;
          regexPattern = ''^'' @ replaceParams pat @ ''$''
      in case Compile re regexPattern of
           Inl err \<Rightarrow> Inl (Errorf ''invalid pattern'' (Some err))
         | Inr compiled \<Rightarrow> Inr \<lparr>route = rt, pattern = compiled, params = names\<rparr>)"

text \<open>
  Load writes the registry as it goes: the manifest and an empty route list first, then
  one entry per route; a route that does not compile ends it with the entries made so far
  in place and the fallback untouched.
\<close>

fun Load_routes :: "'rx Regexp \<Rightarrow> Route list \<Rightarrow> 'rx Registry \<Rightarrow> error option \<times> 'rx Registry" where
  "Load_routes re [] r = (None, r)"
| "Load_routes re (rt # rest) r =
     (case compileRoute re rt of
        Inl err \<Rightarrow> (Some (Errorf (''error compiling route '' @ Route.Pattern rt) (Some err)), r)
      | Inr entry \<Rightarrow> Load_routes re rest (r\<lparr>routes := routes r @ [entry]\<rparr>))"

definition Load :: "'rx Regexp \<Rightarrow> Manifest \<Rightarrow> 'rx Registry \<Rightarrow> error option \<times> 'rx Registry" where
  "Load re m r =
     (case Load_routes re (Routes m) (r\<lparr>manifest := Some m, routes := []\<rparr>) of
        (Some err, r') \<Rightarrow> (Some err, r')
      | (None, r') \<Rightarrow> (None, r'\<lparr>fallback := Fallback m\<rparr>))"

text \<open>
  The inner loop of Match, \<open>params[param] = match[i+1]\<close>; an index beyond the slice
  is the run-time panic.
\<close>

fun bindParams ::
  "string list \<Rightarrow> nat \<Rightarrow> string list \<Rightarrow> (string \<times> string) list \<Rightarrow> error + (string \<times> string) list" where
  "bindParams [] i match ps = Inr ps"
| "bindParams (param # rest) i match ps =
     (if i + 1 < length match
      then bindParams rest (i + 1) match (AList.update param (match ! (i + 1)) ps)
      else Inl IndexOutOfRange)"

fun Match_routes :: "'rx Regexp \<Rightarrow> 'rx routeEntry list \<Rightarrow> string \<Rightarrow> (error + RouteMatch) option" where
  "Match_routes re [] path = None"
| "Match_routes re (entry # rest) path =
     (case FindStringSubmatch re (pattern entry) path of
        Some match \<Rightarrow>
          Some (case bindParams (params entry) 0 match [] of
                  Inl e \<Rightarrow> Inl e
                | Inr ps \<Rightarrow> Inr \<lparr>Route = Some (route entry), Params = ps, Query = []\<rparr>)
      | None \<Rightarrow> Match_routes re rest path)"

definition Match :: "'rx Regexp \<Rightarrow> 'rx Registry \<Rightarrow> string \<Rightarrow> error + RouteMatch" where
  "Match re r path =
     (if manifest r = None then Inl ManifestNotLoaded
      else case Match_routes re (routes r) path of
             Some result \<Rightarrow> result
           | None \<Rightarrow>
               (case fallback r of
                  Some f \<Rightarrow> Inr \<lparr>Route = Some f, Params = [], Query = []\<rparr>
                | None \<Rightarrow> Inl (RouteNotFound path)))"


section \<open>A fragment of package regexp\<close>

text \<open>
  An instance of the regular-expression parameter, for evaluating the registry on
  concrete manifests. It implements the syntax and the leftmost-first matching of package
  \<open>regexp\<close> for a fragment of its expressions: \<open>^\<close> at the start and \<open>$\<close> at the end;
  literal ASCII characters; \<open>.\<close>; a backslash before an ASCII character that is no letter
  and no digit; \<open>\Q...\E\<close>; a character class \<open>[...]\<close> or \<open>[^...]\<close> of plain ASCII members; the
  greedy operators \<open>*\<close>, \<open>+\<close> and \<open>?\<close> after a single character, \<open>.\<close> or a class; and
  capturing groups \<open>(...)\<close>, numbered by their opening parenthesis. On an expression of
  the fragment with an unclosed group it returns the error of package \<open>regexp\<close>. On every
  other expression it returns the error \<open>not_modelled\<close>, whatever package \<open>regexp\<close> does
  with it (alternation, counted repetition, non-greedy operators, flags, named and
  non-capturing groups, operators after a group, ranges and escapes in a class, the other
  escapes, non-ASCII characters in the expression are outside the fragment). The text
  that is matched may hold any bytes; it is read rune by rune as \<open>utf8.DecodeRune\<close> reads.
\<close>

datatype rx_atom = RxLit char | RxAny | RxClass bool "char list"

datatype rx_node =
    RxOne rx_atom | RxStar rx_atom | RxPlus rx_atom | RxQuest rx_atom | RxGroup nat "rx_node list"

datatype rx_mode =
    InNormal | InEscape | InQuote | InQuoteEscape | InClassOpen | InClass bool "char list"

datatype rx_failure = MissingParen | NotModelled

type_synonym compiled_rx = "rx_node list \<times> nat"

definition is_ascii :: "char \<Rightarrow> bool" where
  "is_ascii c = ((of_char c :: nat) < 128)"

definition is_continuation :: "char \<Rightarrow> bool" where
  "is_continuation c = (128 \<le> (of_char c :: nat) \<and> (of_char c :: nat) \<le> 191)"

text \<open>
  The number of bytes of the first rune of a text, as \<open>utf8.DecodeRuneInString\<close> gives
  it: an encoding that is not valid UTF-8 counts as one byte.
\<close>

fun rune_width :: "string \<Rightarrow> nat" where
  "rune_width [] = 0"
| "rune_width (b0 # rest) =
     (let x = (of_char b0 :: nat)
      in if 194 \<le> x \<and> x \<le> 223
         then (case rest of
                 b1 # _ \<Rightarrow> if is_continuation b1 then 2 else 1
               | _ \<Rightarrow> 1)
         else if 224 \<le> x \<and> x \<le> 239
         then (case rest of
                 b1 # b2 # _ \<Rightarrow>
                   if (if x = 224 then 160 else 128) \<le> (of_char b1 :: nat)
                      \<and> (of_char b1 :: nat) \<le> (if x = 237 then 159 else 191)
                      \<and> is_continuation b2
                   then 3 else 1
               | _ \<Rightarrow> 1)
         else if 240 \<le> x \<and> x \<le> 244
         then (case rest of
                 b1 # b2 # b3 # _ \<Rightarrow>
                   if (if x = 240 then 144 else 128) \<le> (of_char b1 :: nat)
                      \<and> (of_char b1 :: nat) \<le> (if x = 244 then 143 else 191)
                      \<and> is_continuation b2 \<and> is_continuation b3
                   then 4 else 1
               | _ \<Rightarrow> 1)
         else 1)"

text \<open>Whether an atom matches a rune, given by its bytes.\<close>

fun atom_matches :: "rx_atom \<Rightarrow> string \<Rightarrow> bool" where
  "atom_matches (RxLit c) rune = (rune = [c])"
| "atom_matches RxAny rune = (rune \<noteq> [CHR 0x0A])"
| "atom_matches (RxClass negated members) rune =
     ((\<exists>c \<in> set members. rune = [c]) \<noteq> negated)"

text \<open>
  The texts left after an atom has matched no rune, one rune, two runes and so on, as
  far as it matches.
\<close>

function spans :: "rx_atom \<Rightarrow> string \<Rightarrow> string list" where
  "spans a s =
     (if s \<noteq> [] \<and> atom_matches a (take (rune_width s) s)
      then s # spans a (drop (rune_width s) s)
      else [s])"
  by pat_completeness auto
termination
proof (relation "measure (\<lambda>(a, s). length s)")
  show "wf (measure (\<lambda>(a, s). length s))" by simp
next
  fix a :: rx_atom and s :: string
  assume "s \<noteq> [] \<and> atom_matches a (take (rune_width s) s)"
  then obtain b0 rest where s: "s = b0 # rest" by (cases s) auto
  have "0 < rune_width (b0 # rest)"
    by (simp add: Let_def split: list.splits)
  with s show "((a, drop (rune_width s) s), (a, s)) \<in> measure (\<lambda>(a, s). length s)"
    by simp
qed

declare spans.simps [simp del]

text \<open>
  Matching by backtracking: the ways a node, or a sequence of nodes, matches at the start
  of a text, each with the text left and the captures made, in the order of preference
  (a greedy operator prefers more). A group records the text it matched under its number.
\<close>

fun match_node :: "rx_node \<Rightarrow> string \<Rightarrow> (nat \<times> string) list \<Rightarrow> (string \<times> (nat \<times> string) list) list"
  and match_seq :: "rx_node list \<Rightarrow> string \<Rightarrow> (nat \<times> string) list \<Rightarrow> (string \<times> (nat \<times> string) list) list"
where
  "match_node (RxOne a) s caps =
     (if s \<noteq> [] \<and> atom_matches a (take (rune_width s) s)
      then [(drop (rune_width s) s, caps)] else [])"
| "match_node (RxStar a) s caps = map (\<lambda>rest. (rest, caps)) (rev (spans a s))"
| "match_node (RxPlus a) s caps = map (\<lambda>rest. (rest, caps)) (rev (tl (spans a s)))"
| "match_node (RxQuest a) s caps =
     (if s \<noteq> [] \<and> atom_matches a (take (rune_width s) s)
      then [(drop (rune_width s) s, caps), (s, caps)] else [(s, caps)])"
| "match_node (RxGroup i ns) s caps =
     map (\<lambda>(rest, caps'). (rest, AList.update i (take (length s - length rest) s) caps'))
       (match_seq ns s caps)"
| "match_seq [] s caps = [(s, caps)]"
| "match_seq (n # ns) s caps =
     concat (map (\<lambda>(rest, caps'). match_seq ns rest caps') (match_node n s caps))"

text \<open>
  The parser reads the expression after its \<open>^\<close>, character by character: the mode, the
  number of the next group, the stack of the groups that are open (each with its number
  and the nodes before it, latest first) and the nodes of the innermost open group, latest
  first. It ends at the \<open>$\<close> that closes the expression.
\<close>

fun parse_rx ::
  "string \<Rightarrow> rx_mode \<Rightarrow> nat \<Rightarrow> (nat \<times> rx_node list) list \<Rightarrow> rx_node list
   \<Rightarrow> rx_failure + compiled_rx" where
  "parse_rx [] mode next stack cur = Inl NotModelled"
| "parse_rx (c # cs) InNormal next stack cur =
     (if \<not> is_ascii c then Inl NotModelled
      else if c = CHR 0x5C then parse_rx cs InEscape next stack cur
      else if c = CHR ''.'' then parse_rx cs InNormal next stack (RxOne RxAny # cur)
      else if c = CHR ''['' then parse_rx cs InClassOpen next stack cur
      else if c = CHR ''('' then parse_rx cs InNormal (Suc next) ((next, cur) # stack) []
      else if c = CHR '')''
      then (case stack of
              [] \<Rightarrow> Inl NotModelled
            | (i, outer) # stack' \<Rightarrow>
                parse_rx cs InNormal next stack' (RxGroup i (rev cur) # outer))
      else if c = CHR ''*''
      then (case cur of
              RxOne a # before \<Rightarrow> parse_rx cs InNormal next stack (RxStar a # before)
            | _ \<Rightarrow> Inl NotModelled)
      else if c = CHR ''+''
      then (case cur of
              RxOne a # before \<Rightarrow> parse_rx cs InNormal next stack (RxPlus a # before)
            | _ \<Rightarrow> Inl NotModelled)
      else if c = CHR ''?''
      then (case cur of
              RxOne a # before \<Rightarrow> parse_rx cs InNormal next stack (RxQuest a # before)
            | _ \<Rightarrow> Inl NotModelled)
      else if c = CHR ''$''
      then (if cs \<noteq> [] then Inl NotModelled
            else if stack \<noteq> [] then Inl MissingParen
            else Inr (rev cur, next - 1))
      else if c \<in> set ''|{}]^'' then Inl NotModelled
      else parse_rx cs InNormal next stack (RxOne (RxLit c) # cur))"
| "parse_rx (c # cs) InEscape next stack cur =
     (if c = CHR ''Q'' then parse_rx cs InQuote next stack cur
      else if is_ascii c \<and> (c = CHR ''_'' \<or> \<not> is_word_char c)
      then parse_rx cs InNormal next stack (RxOne (RxLit c) # cur)
      else Inl NotModelled)"
| "parse_rx (c # cs) InQuote next stack cur =
     (if \<not> is_ascii c then Inl NotModelled
      else if c = CHR 0x5C then parse_rx cs InQuoteEscape next stack cur
      else parse_rx cs InQuote next stack (RxOne (RxLit c) # cur))"
| "parse_rx (c # cs) InQuoteEscape next stack cur =
     (if \<not> is_ascii c then Inl NotModelled
      else if c = CHR ''E'' then parse_rx cs InNormal next stack cur
      else if c = CHR 0x5C
      then parse_rx cs InQuoteEscape next stack (RxOne (RxLit (CHR 0x5C)) # cur)
      else parse_rx cs InQuote next stack (RxOne (RxLit c) # RxOne (RxLit (CHR 0x5C)) # cur))"
| "parse_rx (c # cs) InClassOpen next stack cur =
     (if c = CHR ''^'' then parse_rx cs (InClass True []) next stack cur
      else if \<not> is_ascii c \<or> c \<in> set (CHR 0x5C # ''-[]'') then Inl NotModelled
      else parse_rx cs (InClass False [c]) next stack cur)"
| "parse_rx (c # cs) (InClass negated members) next stack cur =
     (if c = CHR '']''
      then (if members = [] then Inl NotModelled
            else parse_rx cs InNormal next stack (RxOne (RxClass negated (rev members)) # cur))
      else if \<not> is_ascii c \<or> c \<in> set (CHR 0x5C # ''-[^'') then Inl NotModelled
      else parse_rx cs (InClass negated (c # members)) next stack cur)"

definition not_modelled :: error where
  "not_modelled = External ''expression outside the modelled fragment''"

definition missing_closing_paren :: "string \<Rightarrow> error" where
  "missing_closing_paren expr =
     External (''error parsing regexp: missing closing ): `'' @ expr @ ''`'')"

definition fragment_Compile :: "string \<Rightarrow> error + compiled_rx" where
  "fragment_Compile expr =
     (case expr of
        [] \<Rightarrow> Inl not_modelled
      | c # cs \<Rightarrow>
          if c \<noteq> CHR ''^'' then Inl not_modelled
          else (case parse_rx cs InNormal 1 [] [] of
                  Inl MissingParen \<Rightarrow> Inl (missing_closing_paren expr)
                | Inl NotModelled \<Rightarrow> Inl not_modelled
                | Inr rx \<Rightarrow> Inr rx))"

text \<open>
  The expression is anchored at both ends, so a match is the first way of matching that
  leaves no text; the result is the text followed by the capture of every group.
\<close>

definition fragment_FindStringSubmatch :: "compiled_rx \<Rightarrow> string \<Rightarrow> string list option" where
  "fragment_FindStringSubmatch rx s =
     (case List.find (\<lambda>(rest, caps). rest = []) (match_seq (fst rx) s []) of
        None \<Rightarrow> None
      | Some (rest, caps) \<Rightarrow>
          Some (s # map (\<lambda>i. case map_of caps i of Some t \<Rightarrow> t | None \<Rightarrow> [])
                      [1..<Suc (snd rx)]))"

definition fragment_regexp :: "compiled_rx Regexp" where
  "fragment_regexp =
     \<lparr>Compile = fragment_Compile, FindStringSubmatch = fragment_FindStringSubmatch\<rparr>"

section \<open>Provider client\<close>

text \<open>
  The Provider interface: a name and a call. The call returns an error or a value, or does
  not return (\<open>None\<close>).
\<close>

record ContextProvider =
  Name :: string
  GetContext :: "params \<Rightarrow> (error + any) option"

record ProviderClient =
  providers :: "(string \<times> ContextProvider) list"

definition NewProviderClient :: "ContextProvider list \<Rightarrow> ProviderClient" where
  "NewProviderClient ps =
     \<lparr>providers = fold (\<lambda>provider providerMap.
                         AList.update (ContextProvider.Name provider) provider providerMap) ps []\<rparr>"

definition ProviderClient_Get :: "ProviderClient \<Rightarrow> string \<Rightarrow> params \<Rightarrow> (error + any) option" where
  "ProviderClient_Get c name ps =
     (case map_of (providers c) name of
        None \<Rightarrow> Some (Inl (ProviderNotFound name))
      | Some provider \<Rightarrow> GetContext provider ps)"

text \<open>
  GetAll starts one goroutine per entry of the map and collects one result per entry; it
  returns only when every call has returned. The results are collected here in the order
  of the map (the arrival order differs from run to run; the result map does not depend
  on it, the order of the error list does).
\<close>

fun GetAll_collect ::
  "(string \<times> ContextProvider) list \<Rightarrow> params \<Rightarrow> (string \<times> any) list \<Rightarrow> error list
   \<Rightarrow> ((string \<times> any) list \<times> error list) option" where
  "GetAll_collect [] ps results errors = Some (results, errors)"
| "GetAll_collect ((name, provider) # rest) ps results errors =
     (case GetContext provider ps of
        None \<Rightarrow> None
      | Some (Inl err) \<Rightarrow> GetAll_collect rest ps results (errors @ [err])
      | Some (Inr data) \<Rightarrow> GetAll_collect rest ps (AList.update name data results) errors)"

definition getErrorNames :: "(error \<Rightarrow> string) \<Rightarrow> error list \<Rightarrow> string list" where
  "getErrorNames Error errors = map Error errors"

definition ProviderClient_GetAll ::
  "(error \<Rightarrow> string) \<Rightarrow> ProviderClient \<Rightarrow> params \<Rightarrow> ((string \<times> any) list \<times> error option) option" where
  "ProviderClient_GetAll Error c ps =
     (case GetAll_collect (providers c) ps [] [] of
        None \<Rightarrow> None
      | Some (results, errors) \<Rightarrow>
          if length errors > 0
          then Some (results, Some (MultipleProvidersFailed (getErrorNames Error errors) errors))
          else Some (results, None))"

section \<open>Template resolution\<close>

subsection \<open>HTTP provider\<close>

text \<open>
  The loop of resolveTemplate over the parameter map, in the order the map is read, and
  resolveEnvVars, whose loop looks for the next \<open>{env.\<close> in its own output and may not
  end (a variable whose value contains \<open>{env.NAME}\<close> again): it is a partial function,
  \<open>None\<close> where the loop does not end. The environment is the parameter \<open>getenv\<close>.
\<close>

fun HTTPProvider_replaceParams :: "string \<Rightarrow> params \<Rightarrow> string" where
  "HTTPProvider_replaceParams result [] = result"
| "HTTPProvider_replaceParams result ((key, value) # rest) =
     (let placeholder = ''{'' @ key @ ''}''
      in if Contains result placeholder
         then HTTPProvider_replaceParams (ReplaceAll result placeholder (Sprint value)) rest
         else HTTPProvider_replaceParams result rest)"

partial_function (option) resolveEnvVars :: "(string \<Rightarrow> string) \<Rightarrow> string \<Rightarrow> string option" where
  "resolveEnvVars getenv result =
     (case Index result ''{env.'' of
        None \<Rightarrow> Some result
      | Some start \<Rightarrow>
          (case Index (drop start result) ''}'' of
             None \<Rightarrow> Some result
           | Some end \<Rightarrow>
               resolveEnvVars getenv
                 (take start result
                  @ getenv (take (end - 5) (drop (start + 5) result))
                  @ drop (start + end + 1) result)))"

definition HTTPProvider_resolveTemplate ::
  "(string \<Rightarrow> string) \<Rightarrow> string \<Rightarrow> params \<Rightarrow> string option" where
  "HTTPProvider_resolveTemplate getenv template ps =
     resolveEnvVars getenv (HTTPProvider_replaceParams template ps)"

subsection \<open>HTTP tool\<close>

text \<open>
  \<open>re.ReplaceAllStringFunc\<close> for the expression \<open>\{env\.([^}]+)\}\<close>: every leftmost,
  non-overlapping \<open>{env.\<close> followed by a non-empty run of characters other than \<open>}\<close> and
  by \<open>}\<close> is replaced by the value of the variable; the value is not read again.
\<close>

function replaceEnvVars :: "(string \<Rightarrow> string) \<Rightarrow> string \<Rightarrow> string" where
  "replaceEnvVars getenv [] = []"
| "replaceEnvVars getenv (c # cs) =
     (if HasPrefix (c # cs) ''{env.''
         \<and> takeWhile (\<lambda>x. x \<noteq> CHR ''}'') (drop 5 (c # cs)) \<noteq> []
         \<and> dropWhile (\<lambda>x. x \<noteq> CHR ''}'') (drop 5 (c # cs)) \<noteq> []
      then getenv (takeWhile (\<lambda>x. x \<noteq> CHR ''}'') (drop 5 (c # cs)))
           @ replaceEnvVars getenv (tl (dropWhile (\<lambda>x. x \<noteq> CHR ''}'') (drop 5 (c # cs))))
      else c # replaceEnvVars getenv cs)"
  by pat_completeness auto
termination
proof (relation "measure (\<lambda>(getenv, s). length s)")
  show "wf (measure (\<lambda>(getenv, s). length s))" by simp
next
  fix getenv :: "string \<Rightarrow> string" and c :: char and cs :: string
  define d where "d = dropWhile (\<lambda>x. x \<noteq> CHR ''}'') (drop 5 (c # cs))"
  assume "HasPrefix (c # cs) ''{env.''
         \<and> takeWhile (\<lambda>x. x \<noteq> CHR ''}'') (drop 5 (c # cs)) \<noteq> []
         \<and> dropWhile (\<lambda>x. x \<noteq> CHR ''}'') (drop 5 (c # cs)) \<noteq> []"
  then have "d \<noteq> []" unfolding d_def by (elim conjE)
  then have "length (tl d) < length d" by (cases d) simp_all
  moreover have "length d \<le> length (drop 5 (c # cs))"
    unfolding d_def by (rule length_dropWhile_le)
  moreover have "length (drop 5 (c # cs)) \<le> length (c # cs)" by simp
  ultimately have "length (tl d) < length (c # cs)" by linarith
  then show "((getenv, tl (dropWhile (\<lambda>x. x \<noteq> CHR ''}'') (drop 5 (c # cs)))), (getenv, c # cs))
           \<in> measure (\<lambda>(getenv, s). length s)"
    unfolding d_def by simp
next
  fix getenv :: "string \<Rightarrow> string" and c :: char and cs :: string
  show "((getenv, cs), (getenv, c # cs)) \<in> measure (\<lambda>(getenv, s). length s)" by simp
qed

fun HTTPTool_replaceParams :: "string \<Rightarrow> params \<Rightarrow> string" where
  "HTTPTool_replaceParams result [] = result"
| "HTTPTool_replaceParams result ((key, value) # rest) =
     (let placeholder1 = ''{'' @ key @ ''}'';
          placeholder2 = ''{{'' @ key @ ''}}'';
          valueStr = Sprint value
      in if Contains result placeholder1 \<or> Contains result placeholder2
         then HTTPTool_replaceParams
                (ReplaceAll (ReplaceAll result placeholder1 valueStr) placeholder2 valueStr) rest
         else HTTPTool_replaceParams result rest)"

definition HTTPTool_resolveTemplate ::
  "(string \<Rightarrow> string) \<Rightarrow> string \<Rightarrow> string \<Rightarrow> params \<Rightarrow> string" where
  "HTTPTool_resolveTemplate getenv userToken template ps =
     (let result1 = (if Contains template ''{user.token}''
                     then ReplaceAll template ''{user.token}'' userToken
                     else template);
          result2 = replaceEnvVars getenv result1
      in HTTPTool_replaceParams result2 ps)"

subsection \<open>Context builder\<close>

fun resolveStringTemplate_keys :: "string \<Rightarrow> params \<Rightarrow> string" where
  "resolveStringTemplate_keys result [] = result"
| "resolveStringTemplate_keys result ((key, value) # rest) =
     resolveStringTemplate_keys (ReplaceAll result (''{'' @ key @ ''}'') (Sprint value)) rest"

fun resolveStringTemplate_routeParams :: "string \<Rightarrow> params \<Rightarrow> string" where
  "resolveStringTemplate_routeParams result [] = result"
| "resolveStringTemplate_routeParams result ((key, value) # rest) =
     resolveStringTemplate_routeParams
       (ReplaceAll result (''{route.params.'' @ key @ ''}'') (Sprint value)) rest"

definition resolveStringTemplate :: "string \<Rightarrow> params \<Rightarrow> string" where
  "resolveStringTemplate template ps =
     resolveStringTemplate_routeParams (resolveStringTemplate_keys template ps) ps"

definition resolveValue :: "any \<Rightarrow> params \<Rightarrow> any" where
  "resolveValue template ps =
     (case template of
        AString str \<Rightarrow> AString (resolveStringTemplate str ps)
      | _ \<Rightarrow> template)"


section \<open>HTTP tool: parameters\<close>

text \<open>
  The fields of an HTTPTool that parameter resolution and template resolution read: the
  tool of the manifest, the workflow context and the bearer token of the user.
\<close>

record HTTPTool =
  tool_definition :: Tool
  workflowContext :: params
  userToken :: string

definition NewHTTPTool :: "Tool \<Rightarrow> params \<Rightarrow> string \<Rightarrow> HTTPTool" where
  "NewHTTPTool def ctx token =
     \<lparr>tool_definition = def, workflowContext = ctx, userToken = token\<rparr>"

text \<open>
  The walk of extractFromContext over the segments of the path. Only a value of type
  \<open>map[string]any\<close> is traversed; \<open>i\<close> is the level of the segment.
\<close>

fun extractFromContext_walk :: "string list \<Rightarrow> nat \<Rightarrow> any \<Rightarrow> error + any" where
  "extractFromContext_walk [] i current = Inr current"
| "extractFromContext_walk (p # rest) i current =
     (let part = TrimSpace p
      in case current of
           AMap m \<Rightarrow>
             (case map_of m part of
                Some v \<Rightarrow> extractFromContext_walk rest (Suc i) v
              | None \<Rightarrow> Inl (PathSegmentNotFound part i))
         | _ \<Rightarrow> Inl (CannotTraverseNonMap part))"

definition extractFromContext :: "string \<Rightarrow> params \<Rightarrow> error + any" where
  "extractFromContext contextPath ctx =
     (let path1 = TrimSpace contextPath;
          path2 = TrimPrefix path1 ''{{'';
          path3 = TrimSuffix path2 ''}}'';
          path = TrimSpace path3;
          parts = Split path (CHR ''.'')
      in extractFromContext_walk parts 0 (AMap ctx))"

text \<open>
  resolveParameters: the loop over the declared parameters, in their order, with the
  result map built so far; an error ends it.
\<close>

fun resolveParameters_loop ::
  "HTTPTool \<Rightarrow> params \<Rightarrow> ToolParameter list \<Rightarrow> params \<Rightarrow> error + params" where
  "resolveParameters_loop t agentParams [] result = Inr result"
| "resolveParameters_loop t agentParams (param # rest) result =
     (if Source param = ''agent'' then
        (case map_of agentParams (ToolParameter.Name param) of
           Some val \<Rightarrow>
             resolveParameters_loop t agentParams rest
               (AList.update (ToolParameter.Name param) val result)
         | None \<Rightarrow>
             if Required param
             then Inl (MissingParameter (Tool.Name (tool_definition t)) (ToolParameter.Name param))
             else if Default param \<noteq> ANil
             then resolveParameters_loop t agentParams rest
                    (AList.update (ToolParameter.Name param) (Default param) result)
             else resolveParameters_loop t agentParams rest result)
      else if Source param = ''route'' then
        (case map_of (workflowContext t) (ToolParameter.Name param) of
           Some val \<Rightarrow>
             resolveParameters_loop t agentParams rest
               (AList.update (ToolParameter.Name param) val result)
         | None \<Rightarrow>
             if Required param
             then Inl (MissingParameter (Tool.Name (tool_definition t)) (ToolParameter.Name param))
             else resolveParameters_loop t agentParams rest result)
      else if Source param = ''context'' then
        (if ContextPath param = []
         then Inl (InvalidTool (''context_path missing for parameter: '' @ ToolParameter.Name param))
         else
           (case extractFromContext (ContextPath param) (workflowContext t) of
              Inl err \<Rightarrow>
                if Required param
                then Inl (ParameterResolution (Tool.Name (tool_definition t))
                            (ToolParameter.Name param) err)
                else resolveParameters_loop t agentParams rest result
            | Inr val \<Rightarrow>
                resolveParameters_loop t agentParams rest
                  (AList.update (ToolParameter.Name param) val result)))
      else resolveParameters_loop t agentParams rest result)"

definition resolveParameters :: "HTTPTool \<Rightarrow> params \<Rightarrow> error + params" where
  "resolveParameters t agentParams =
     resolveParameters_loop t agentParams (Parameters (tool_definition t)) []"


section \<open>HTTP provider\<close>

record HTTPConfig =
  URL :: string
  Method :: string
  Headers :: "(string \<times> string) list"
  Body :: any
  Timeout :: int

record HTTPClient =
  Timeout :: int

record HTTPProvider =
  name :: string
  config :: HTTPConfig
  client :: HTTPClient

definition Second :: int where
  "Second = 1000000000"

definition NewHTTPProvider :: "string \<Rightarrow> HTTPConfig \<Rightarrow> HTTPProvider" where
  "NewHTTPProvider nm cfg =
     (let cfg1 = (if HTTPConfig.Method cfg = [] then cfg\<lparr>HTTPConfig.Method := ''GET''\<rparr> else cfg);
          cfg2 = (if HTTPConfig.Timeout cfg1 = 0
                  then cfg1\<lparr>HTTPConfig.Timeout := 10 * Second\<rparr> else cfg1)
      in \<lparr>name = nm, config = cfg2, client = \<lparr>HTTPClient.Timeout = HTTPConfig.Timeout cfg2\<rparr>\<rparr>)"

text \<open>
  The loop of GetContext over the configured headers: every value is resolved and set
  under the canonical form of its key.
\<close>

fun HTTPProvider_setHeaders ::
  "Externals \<Rightarrow> (string \<times> string) list \<Rightarrow> params \<Rightarrow> (string \<times> string) list
   \<Rightarrow> (string \<times> string) list option" where
  "HTTPProvider_setHeaders x [] ps header = Some header"
| "HTTPProvider_setHeaders x ((key, value) # rest) ps header =
     (case HTTPProvider_resolveTemplate (Getenv x) value ps of
        None \<Rightarrow> None
      | Some resolvedValue \<Rightarrow>
          HTTPProvider_setHeaders x rest ps
            (AList.update (CanonicalHeaderKey x key) resolvedValue header))"

definition Header_Get :: "Externals \<Rightarrow> (string \<times> string) list \<Rightarrow> string \<Rightarrow> string" where
  "Header_Get x header key =
     (case map_of header (CanonicalHeaderKey x key) of None \<Rightarrow> [] | Some v \<Rightarrow> v)"

text \<open>Steps 5 to 8 of GetContext: the exchange, the status code, the body.\<close>

definition HTTPProvider_execute :: "Externals \<Rightarrow> HTTPProvider \<Rightarrow> HTTPRequest \<Rightarrow> error + any" where
  "HTTPProvider_execute x p req =
     (case Do x (HTTPClient.Timeout (client p)) req of
        Failed err deadlineExceeded \<Rightarrow>
          if deadlineExceeded then Inl (ProviderTimeout (name p))
          else Inl (ProviderFailed (name p) (Errorf ''error executing request'' (Some err)))
      | Responded resp \<Rightarrow>
          if StatusCode resp < 200 \<or> StatusCode resp \<ge> 300
          then Inl (ProviderFailed (name p)
                      (Errorf (''unexpected status code '' @ Itoa (StatusCode resp) @ '': ''
                               @ HTTPResponse.Body resp) None))
          else (case ReadError resp of
                  Some err \<Rightarrow>
                    Inl (ProviderFailed (name p) (Errorf ''error reading response'' (Some err)))
                | None \<Rightarrow>
                    (case Unmarshal x (HTTPResponse.Body resp) of
                       Inl err \<Rightarrow> Inr (AString (HTTPResponse.Body resp))
                     | Inr result \<Rightarrow> Inr result)))"

text \<open>
  Steps 3 and 4 of GetContext, for the resolved URL and the reader of the body (or none):
  the request is created, the headers are set, and a request with a body and no content
  type gets \<open>application/json\<close>.
\<close>

definition HTTPProvider_request ::
  "Externals \<Rightarrow> HTTPProvider \<Rightarrow> params \<Rightarrow> string \<Rightarrow> string option \<Rightarrow> (error + any) option" where
  "HTTPProvider_request x p ps url bodyReader =
     (case NewRequestWithContext x (HTTPConfig.Method (config p)) url of
        Some err \<Rightarrow>
          Some (Inl (ProviderFailed (name p) (Errorf ''error creating request'' (Some err))))
      | None \<Rightarrow>
          (case HTTPProvider_setHeaders x (HTTPConfig.Headers (config p)) ps [] of
             None \<Rightarrow> None
           | Some header1 \<Rightarrow>
               (let header2 =
                      (if HTTPConfig.Body (config p) \<noteq> ANil
                          \<and> Header_Get x header1 ''Content-Type'' = []
                       then AList.update (CanonicalHeaderKey x ''Content-Type'')
                              ''application/json'' header1
                       else header1)
                in Some (HTTPProvider_execute x p
                           \<lparr>HTTPRequest.Method = HTTPConfig.Method (config p),
                            URL = url, Header = header2, Body = bodyReader\<rparr>))))"

text \<open>
  GetContext. The resolution of a template may not end, and then GetContext does not
  return: the value is \<open>None\<close>.
\<close>

definition HTTPProvider_GetContext ::
  "Externals \<Rightarrow> HTTPProvider \<Rightarrow> params \<Rightarrow> (error + any) option" where
  "HTTPProvider_GetContext x p ps =
     (case HTTPProvider_resolveTemplate (Getenv x) (HTTPConfig.URL (config p)) ps of
        None \<Rightarrow> None
      | Some url \<Rightarrow>
          if HTTPConfig.Body (config p) \<noteq> ANil
          then (case Marshal x (HTTPConfig.Body (config p)) of
                  Inl err \<Rightarrow>
                    Some (Inl (ProviderFailed (name p) (Errorf ''error marshaling body'' (Some err))))
                | Inr bodyJSON \<Rightarrow>
                    (case HTTPProvider_resolveTemplate (Getenv x) bodyJSON ps of
                       None \<Rightarrow> None
                     | Some bodyStr \<Rightarrow> HTTPProvider_request x p ps url (Some bodyStr)))
          else HTTPProvider_request x p ps url None)"

definition HTTPProvider_interface :: "Externals \<Rightarrow> HTTPProvider \<Rightarrow> ContextProvider" where
  "HTTPProvider_interface x p =
     \<lparr>ContextProvider.Name = name p, GetContext = HTTPProvider_GetContext x p\<rparr>"

section \<open>Provider loader\<close>

definition createHTTPProvider :: "Externals \<Rightarrow> Provider \<Rightarrow> error + ContextProvider" where
  "createHTTPProvider x cfg =
     (if Provider.URL cfg = []
      then Inl (InvalidProviderConfig (Provider.Name cfg) ''URL is required for HTTP provider'')
      else
        (case (if Provider.Timeout cfg \<noteq> []
               then (case ParseDuration x (Provider.Timeout cfg) of
                       Inl err \<Rightarrow>
                         Inl (InvalidProviderConfig (Provider.Name cfg)
                                (''invalid timeout format: '' @ Provider.Timeout cfg))
                     | Inr d \<Rightarrow> Inr d)
               else Inr (10 * Second)) of
           Inl err \<Rightarrow> Inl err
         | Inr timeout \<Rightarrow>
             (let method = (if Provider.Method cfg = [] then ''GET'' else Provider.Method cfg);
                  httpConfig = \<lparr>HTTPConfig.URL = Provider.URL cfg, Method = method,
                                Headers = Provider.Headers cfg, Body = Provider.Body cfg,
                                Timeout = timeout\<rparr>
              in Inr (HTTPProvider_interface x (NewHTTPProvider (Provider.Name cfg) httpConfig)))))"

definition createProvider :: "Externals \<Rightarrow> Provider \<Rightarrow> error + ContextProvider" where
  "createProvider x cfg =
     (if Provider.Type cfg = ''http'' then createHTTPProvider x cfg
      else Inl (UnsupportedProviderType (Provider.Type cfg)))"

fun LoadFromRouteConfig_loop ::
  "Externals \<Rightarrow> Provider list \<Rightarrow> ContextProvider list \<Rightarrow> error + ContextProvider list" where
  "LoadFromRouteConfig_loop x [] ps = Inr ps"
| "LoadFromRouteConfig_loop x (providerConfig # rest) ps =
     (case createProvider x providerConfig of
        Inl err \<Rightarrow>
          if Optional providerConfig then LoadFromRouteConfig_loop x rest ps
          else Inl (ProviderLoadFailed (Provider.Name providerConfig) err)
      | Inr provider \<Rightarrow> LoadFromRouteConfig_loop x rest (ps @ [provider]))"

definition LoadFromRouteConfig :: "Externals \<Rightarrow> Route option \<Rightarrow> error + ProviderClient" where
  "LoadFromRouteConfig x rt =
     (case rt of
        None \<Rightarrow> Inl MissingRouteConfig
      | Some r \<Rightarrow>
          (case LoadFromRouteConfig_loop x (Providers (Route.Context r)) [] of
             Inl err \<Rightarrow> Inl err
           | Inr ps \<Rightarrow> Inr (NewProviderClient ps)))"

section \<open>Context builder\<close>

definition buildProviderParams :: "RouteMatch \<Rightarrow> User option \<Rightarrow> params" where
  "buildProviderParams match user =
     (let params1 = fold (\<lambda>(key, value) ps. AList.update key (AString value) ps)
                      (RouteMatch.Params match) [];
          params2 = fold (\<lambda>(key, value) ps. AList.update key (AString value) ps)
                      (RouteMatch.Query match) params1
      in case user of
           Some u \<Rightarrow>
             (let params3 = AList.update ''user_id'' (AString (User.ID u)) params2;
                  params4 = (if User.Email u \<noteq> []
                             then AList.update ''user_email'' (AString (User.Email u)) params3
                             else params3);
                  params5 = (if User.Name u \<noteq> []
                             then AList.update ''user_name'' (AString (User.Name u)) params4
                             else params4)
              in AList.update ''user_authenticated'' (ABool (IsAuthenticated user)) params5)
         | None \<Rightarrow> AList.update ''user_authenticated'' (ABool False) params2)"

definition evaluateCondition :: "string \<Rightarrow> params \<Rightarrow> bool" where
  "evaluateCondition condition ps =
     (if condition = ''user.authenticated''
      then (case map_of ps ''user_authenticated'' of Some (ABool auth) \<Rightarrow> auth | _ \<Rightarrow> False)
      else if condition = ''user.guest''
      then (case map_of ps ''user_authenticated'' of Some (ABool auth) \<Rightarrow> \<not> auth | _ \<Rightarrow> True)
      else True)"

text \<open>The parameters one provider is called with: the base parameters and its own, resolved.\<close>

definition providerParams :: "Provider \<Rightarrow> params \<Rightarrow> params" where
  "providerParams cfg baseParams =
     fold (\<lambda>(k, v) ps. AList.update k (resolveValue v baseParams) ps) (Provider.Params cfg)
       baseParams"

text \<open>
  executeProviders starts one goroutine per provider whose condition holds and waits for
  all of them; a call that does not return keeps it waiting (\<open>None\<close>). The goroutines
  write the results and the two failure lists under one lock. They are taken here in the
  order of the configuration: which providers fail, and hence whether an error is
  returned, does not depend on the order, the order of the two lists does.
\<close>

fun executeProviders_run ::
  "ProviderClient \<Rightarrow> Provider list \<Rightarrow> params \<Rightarrow> params \<Rightarrow> string list \<Rightarrow> error list
   \<Rightarrow> (params \<times> string list \<times> error list) option" where
  "executeProviders_run c [] baseParams results failedProviders providerErrors =
     Some (results, failedProviders, providerErrors)"
| "executeProviders_run c (cfg # rest) baseParams results failedProviders providerErrors =
     (if Condition cfg \<noteq> [] \<and> \<not> evaluateCondition (Condition cfg) baseParams
      then executeProviders_run c rest baseParams results failedProviders providerErrors
      else
        (case ProviderClient_Get c (Provider.Name cfg) (providerParams cfg baseParams) of
           None \<Rightarrow> None
         | Some (Inl err) \<Rightarrow>
             if \<not> Optional cfg
             then executeProviders_run c rest baseParams results
                    (failedProviders @ [Provider.Name cfg]) (providerErrors @ [err])
             else executeProviders_run c rest baseParams results failedProviders providerErrors
         | Some (Inr data) \<Rightarrow>
             executeProviders_run c rest baseParams
               (AList.update (Provider.Name cfg) data results) failedProviders providerErrors))"

definition executeProviders ::
  "ProviderClient \<Rightarrow> Provider list \<Rightarrow> params \<Rightarrow> (params \<times> error option) option" where
  "executeProviders c providerConfigs baseParams =
     (case executeProviders_run c providerConfigs baseParams [] [] [] of
        None \<Rightarrow> None
      | Some (results, failedProviders, providerErrors) \<Rightarrow>
          if length providerErrors > 0
          then Some (results, Some (MultipleProvidersFailed failedProviders providerErrors))
          else Some (results, None))"

definition extractToolNames :: "Tool list \<Rightarrow> string list" where
  "extractToolNames tools = map Tool.Name tools"

text \<open>
  Build. The error of executeProviders is logged and dropped (``partial context is OK'');
  the map it returns becomes the backend of the context.
\<close>

definition Build ::
  "Externals \<Rightarrow> RouteMatch option \<Rightarrow> FrontendContext option \<Rightarrow> User option
   \<Rightarrow> (error + FullContext) option" where
  "Build x routeMatch frontendContext user =
     (case routeMatch of
        None \<Rightarrow> Some (Inl InvalidRouteMatch)
      | Some rm \<Rightarrow>
          (case RouteMatch.Route rm of
             None \<Rightarrow> Some (Inl MissingRouteConfig)
           | Some r \<Rightarrow>
               (let fullContext =
                      \<lparr>FullContext.Route =
                         \<lparr>Path = Route.Pattern r, Name = Route.Name r,
                          Params = RouteMatch.Params rm, Query = RouteMatch.Query rm\<rparr>,
                       User = user, Frontend = frontendContext, Backend = [],
                       Instructions = AgentInstructions r,
                       AvailableTools = extractToolNames (Tools r)\<rparr>
                in case LoadFromRouteConfig x (RouteMatch.Route rm) of
                     Inl err \<Rightarrow> Some (Inl (BuildFailed err))
                   | Inr providerClient \<Rightarrow>
                       (let ps = buildProviderParams rm user
                        in case executeProviders providerClient (Providers (Route.Context r)) ps of
                             None \<Rightarrow> None
                           | Some (backendData, err) \<Rightarrow>
                               Some (Inr (fullContext\<lparr>Backend := backendData\<rparr>))))))"

section \<open>Memory\<close>

subsection \<open>BufferMemory\<close>

record BufferMemory =
  systemMessage :: Message
  messages :: "Message list"
  maxMessages :: int

definition NewBufferMemory :: "Message \<Rightarrow> BufferMemory" where
  "NewBufferMemory sys = \<lparr>systemMessage = sys, messages = [], maxMessages = 0\<rparr>"

definition WithMaxMessages :: "int \<Rightarrow> BufferMemory \<Rightarrow> BufferMemory" where
  "WithMaxMessages mx m = m\<lparr>maxMessages := mx\<rparr>"

definition BufferMemory_Messages :: "BufferMemory \<Rightarrow> error + Message list" where
  "BufferMemory_Messages m =
     Inr ((if Message.Content (systemMessage m) \<noteq> '''' then [systemMessage m] else [])
          @ messages m)"

definition BufferMemory_Add :: "Message \<Rightarrow> BufferMemory \<Rightarrow> error option \<times> BufferMemory" where
  "BufferMemory_Add message m =
     (let ms = messages m @ [message];
          ms' = (if maxMessages m > 0 \<and> int (length ms) > maxMessages m
                 then drop (nat (int (length ms) - maxMessages m)) ms
                 else ms)
      in (None, m\<lparr>messages := ms'\<rparr>))"

definition BufferMemory_Clear :: "BufferMemory \<Rightarrow> error option \<times> BufferMemory" where
  "BufferMemory_Clear m = (None, m\<lparr>messages := []\<rparr>)"

subsection \<open>Sessions and the relational store\<close>

record Session =
  ID :: string
  UserID :: string
  Title :: string
  SystemMsg :: string
  CreatedAt :: nat
  UpdatedAt :: nat
  IsActive :: bool

record SessionMessage =
  ID :: int
  SessionID :: string
  Role :: string
  Content :: string
  ToolCalls :: string
  ToolCallID :: string
  CreatedAt :: nat

text \<open>
  The two tables of the migration, with the counter of the \<open>BIGSERIAL\<close> key. Rows are
  kept in insertion order; \<open>ORDER BY created_at ASC\<close> is a stable sort of them (SQL
  leaves the order of equal timestamps open, insertion order is one of the orders it
  allows).
\<close>

record Database =
  sessions :: "Session list"
  session_messages :: "SessionMessage list"
  next_message_id :: int

definition ToLLMMessage ::
  "(string \<Rightarrow> error + ToolCall list) \<Rightarrow> SessionMessage \<Rightarrow> error + Message" where
  "ToLLMMessage unmarshal sm =
     (let msg = \<lparr>Message.Role = SessionMessage.Role sm,
                 Message.Content = SessionMessage.Content sm,
                 Message.ToolCalls = [],
                 Message.ToolCallID = SessionMessage.ToolCallID sm\<rparr>
      in if SessionMessage.ToolCalls sm \<noteq> ''''
         then (case unmarshal (SessionMessage.ToolCalls sm) of
                 Inl e \<Rightarrow> Inl e
               | Inr tcs \<Rightarrow> Inr (msg\<lparr>Message.ToolCalls := tcs\<rparr>))
         else Inr msg)"

definition FromLLMMessage ::
  "(ToolCall list \<Rightarrow> error + string) \<Rightarrow> nat \<Rightarrow> string \<Rightarrow> Message \<Rightarrow> error + SessionMessage" where
  "FromLLMMessage marshal now sid msg =
     (let sm = \<lparr>SessionMessage.ID = 0,
                SessionMessage.SessionID = sid,
                SessionMessage.Role = Message.Role msg,
                SessionMessage.Content = Message.Content msg,
                SessionMessage.ToolCalls = '''',
                SessionMessage.ToolCallID = Message.ToolCallID msg,
                SessionMessage.CreatedAt = now\<rparr>
      in if length (Message.ToolCalls msg) > 0
         then (case marshal (Message.ToolCalls msg) of
                 Inl e \<Rightarrow> Inl e
               | Inr s \<Rightarrow> Inr (sm\<lparr>SessionMessage.ToolCalls := s\<rparr>))
         else Inr sm)"

text \<open>
  PostgresSessionRepository. The argument \<open>drv\<close> is what the SQL driver reports for the
  statement: \<open>Some e\<close> when it fails (the tables are then unchanged), \<open>None\<close> when it
  is executed.
\<close>

definition CreateSession :: "error option \<Rightarrow> Session \<Rightarrow> Database \<Rightarrow> error option \<times> Database" where
  "CreateSession drv session db =
     (case drv of
        Some e \<Rightarrow> (Some e, db)
      | None \<Rightarrow> (None, db\<lparr>sessions := sessions db @ [session]\<rparr>))"

definition AddMessage ::
  "error option \<Rightarrow> error option \<Rightarrow> SessionMessage \<Rightarrow> Database \<Rightarrow> error option \<times> Database" where
  "AddMessage drv drv_update message db =
     (case drv of
        Some e \<Rightarrow> (Some e, db)
      | None \<Rightarrow>
          (let row = message\<lparr>SessionMessage.ID := next_message_id db\<rparr>;
               db1 = db\<lparr>session_messages := session_messages db @ [row],
                        next_message_id := next_message_id db + 1\<rparr>;
               db2 = (case drv_update of
                        Some _ \<Rightarrow> db1
                      | None \<Rightarrow>
                          db1\<lparr>sessions :=
                                 map (\<lambda>s. if Session.ID s = SessionMessage.SessionID message
                                          then s\<lparr>Session.UpdatedAt := SessionMessage.CreatedAt message\<rparr>
                                          else s)
                                     (sessions db1)\<rparr>)
           in (None, db2)))"

definition GetMessages :: "error option \<Rightarrow> string \<Rightarrow> Database \<Rightarrow> error + SessionMessage list" where
  "GetMessages drv sid db =
     (case drv of
        Some e \<Rightarrow> Inl e
      | None \<Rightarrow>
          Inr (sort_key SessionMessage.CreatedAt
                 (filter (\<lambda>m. SessionMessage.SessionID m = sid) (session_messages db))))"

definition ClearMessages :: "error option \<Rightarrow> string \<Rightarrow> Database \<Rightarrow> error option \<times> Database" where
  "ClearMessages drv sid db =
     (case drv of
        Some e \<Rightarrow> (Some e, db)
      | None \<Rightarrow>
          (None, db\<lparr>session_messages :=
                       filter (\<lambda>m. \<not> (SessionMessage.SessionID m = sid
                                        \<and> SessionMessage.Role m \<noteq> ''system''))
                              (session_messages db)\<rparr>))"

subsection \<open>SessionMemory\<close>

record SessionMemory =
  sessionID :: string

fun convertMessages ::
  "(string \<Rightarrow> error + ToolCall list) \<Rightarrow> SessionMessage list \<Rightarrow> Message list" where
  "convertMessages unmarshal [] = []"
| "convertMessages unmarshal (sm # sms) =
     (case ToLLMMessage unmarshal sm of
        Inl e \<Rightarrow> convertMessages unmarshal sms
      | Inr msg \<Rightarrow> msg # convertMessages unmarshal sms)"

definition SessionMemory_Messages ::
  "(string \<Rightarrow> error + ToolCall list) \<Rightarrow> error option \<Rightarrow> SessionMemory \<Rightarrow> Database
   \<Rightarrow> error + Message list" where
  "SessionMemory_Messages unmarshal drv m db =
     (case GetMessages drv (sessionID m) db of
        Inl e \<Rightarrow> Inl e
      | Inr sessionMessages \<Rightarrow> Inr (convertMessages unmarshal sessionMessages))"

definition SessionMemory_Add ::
  "(ToolCall list \<Rightarrow> error + string) \<Rightarrow> nat \<Rightarrow> error option \<Rightarrow> error option
   \<Rightarrow> SessionMemory \<Rightarrow> Message \<Rightarrow> Database \<Rightarrow> error option \<times> Database" where
  "SessionMemory_Add marshal now drv drv_update m message db =
     (case FromLLMMessage marshal now (sessionID m) message of
        Inl e \<Rightarrow> (Some e, db)
      | Inr sessionMsg \<Rightarrow> AddMessage drv drv_update sessionMsg db)"

definition SessionMemory_Clear ::
  "error option \<Rightarrow> SessionMemory \<Rightarrow> Database \<Rightarrow> error option \<times> Database" where
  "SessionMemory_Clear drv m db = ClearMessages drv (sessionID m) db"

text \<open>
  SessionService.CreateSession: the session row, then the seed system message as the
  first row of the session. \<open>sid\<close> is the identifier \<open>NewSessionID\<close> draws from the
  clock and the random source.
\<close>

definition SessionService_CreateSession ::
  "(ToolCall list \<Rightarrow> error + string) \<Rightarrow> string \<Rightarrow> nat \<Rightarrow> error option \<Rightarrow> error option
   \<Rightarrow> error option \<Rightarrow> string \<Rightarrow> string \<Rightarrow> Message \<Rightarrow> Database
   \<Rightarrow> (error + Session) \<times> Database" where
  "SessionService_CreateSession marshal sid now drv_create drv drv_update userID title sysm db =
     (let session = \<lparr>Session.ID = sid, Session.UserID = userID, Session.Title = title,
                     Session.SystemMsg = Message.Content sysm,
                     Session.CreatedAt = now, Session.UpdatedAt = now,
                     Session.IsActive = True\<rparr>
      in case CreateSession drv_create session db of
           (Some e, db1) \<Rightarrow> (Inl e, db1)
         | (None, db1) \<Rightarrow>
             (case FromLLMMessage marshal now sid sysm of
                Inl e \<Rightarrow> (Inl e, db1)
              | Inr sysMsg \<Rightarrow>
                  (case AddMessage drv drv_update sysMsg db1 of
                     (Some e, db2) \<Rightarrow> (Inl e, db2)
                   | (None, db2) \<Rightarrow> (Inr session, db2))))"

section \<open>Agent\<close>

text \<open>
  Modelled from the spec: the declarations of package \<open>llm\<close> (Tool, Option, Response,
  Client) and of package \<open>toolx\<close> (the tool registry: its tool list and its call), which
  the sources use and do not contain. The language model and the tools are external: the
  response to a call may depend on everything passed to it and on how many calls were made
  before, and every call returns (an error or a value).
\<close>

record LLMTool =
  Type :: string
  Name :: string
  Description :: string
  Parameters :: any

datatype Option = WithTools "LLMTool list" | WithToolChoice string | WithOption string any

record ChatResponse =
  Message :: Message
  Usage :: any

record Client =
  Chat :: "nat \<Rightarrow> Message list \<Rightarrow> Option list \<Rightarrow> error + ChatResponse"

record ToolxClient =
  GetTools :: "LLMTool list"
  Call :: "nat \<Rightarrow> ToolCall \<Rightarrow> error + Message"

text \<open>The Memory interface: the methods of a store of type \<open>'m\<close>.\<close>

record 'm Memory =
  Add :: "Message \<Rightarrow> 'm \<Rightarrow> error option \<times> 'm"
  Messages :: "'m \<Rightarrow> error + Message list"
  Clear :: "'m \<Rightarrow> error option \<times> 'm"

definition BufferMemory_interface :: "BufferMemory Memory" where
  "BufferMemory_interface =
     \<lparr>Add = BufferMemory_Add, Messages = BufferMemory_Messages, Clear = BufferMemory_Clear\<rparr>"

record 'm Agent =
  client :: Client
  tools :: "ToolxClient option"
  memory :: "'m Memory"
  options :: "Option list"
  maxAutoIterations :: int
  maxTotalIterations :: int

text \<open>
  What a run changes: the contents of the memory, and the calls made so far to the
  language model (with the messages and options passed) and to the tools.
\<close>

record 'm World =
  store :: 'm
  chats :: "(Message list \<times> Option list) list"
  invocations :: "ToolCall list"

definition New :: "Client \<Rightarrow> 'm Memory \<Rightarrow> ('m Agent \<Rightarrow> 'm Agent) list \<Rightarrow> 'm Agent" where
  "New c mem opts =
     fold (\<lambda>opt agent. opt agent) opts
       \<lparr>client = c, tools = None, memory = mem, options = [],
        maxAutoIterations = 3, maxTotalIterations = 10\<rparr>"

definition WithMaxAutoIterations :: "int \<Rightarrow> 'm Agent \<Rightarrow> 'm Agent" where
  "WithMaxAutoIterations mx a = a\<lparr>maxAutoIterations := mx\<rparr>"

definition WithMaxTotalIterations :: "int \<Rightarrow> 'm Agent \<Rightarrow> 'm Agent" where
  "WithMaxTotalIterations mx a = a\<lparr>maxTotalIterations := mx\<rparr>"

definition Agent_WithTools :: "ToolxClient \<Rightarrow> 'm Agent \<Rightarrow> 'm Agent" where
  "Agent_WithTools t a = a\<lparr>tools := Some t\<rparr>"

definition Agent_WithOptions :: "Option list \<Rightarrow> 'm Agent \<Rightarrow> 'm Agent" where
  "Agent_WithOptions os a = a\<lparr>options := options a @ os\<rparr>"

definition chat ::
  "'m Agent \<Rightarrow> Message list \<Rightarrow> Option list \<Rightarrow> 'm World \<Rightarrow> (error + ChatResponse) \<times> 'm World" where
  "chat a msgs opts w =
     (Chat (client a) (length (chats w)) msgs opts, w\<lparr>chats := chats w @ [(msgs, opts)]\<rparr>)"

definition memoryAdd :: "'m Agent \<Rightarrow> Message \<Rightarrow> 'm World \<Rightarrow> error option \<times> 'm World" where
  "memoryAdd a msg w =
     (case Add (memory a) msg (store w) of (err, s) \<Rightarrow> (err, w\<lparr>store := s\<rparr>))"

text \<open>The loop of handleToolCallsWithLimit over the tool calls of one response.\<close>

fun executeToolCalls :: "'m Agent \<Rightarrow> ToolCall list \<Rightarrow> 'm World \<Rightarrow> error option \<times> 'm World" where
  "executeToolCalls a [] w = (None, w)"
| "executeToolCalls a (tc # rest) w =
     (case tools a of
        None \<Rightarrow> (Some NilDereference, w)
      | Some t \<Rightarrow>
          (let w1 = w\<lparr>invocations := invocations w @ [tc]\<rparr>
           in case Call t (length (invocations w)) tc of
                Inl err \<Rightarrow> (Some (Errorf ''tool execution error'' (Some err)), w1)
              | Inr toolResponse \<Rightarrow>
                  (case memoryAdd a toolResponse w1 of
                     (Some err, w2) \<Rightarrow> (Some (Errorf ''failed to add tool response'' (Some err)), w2)
                   | (None, w2) \<Rightarrow> executeToolCalls a rest w2)))"

text \<open>The options of the follow-up call at an iteration (``smart tool choice'').\<close>

definition followUpOptions :: "'m Agent \<Rightarrow> int \<Rightarrow> Option list" where
  "followUpOptions a iteration =
     (case tools a of
        None \<Rightarrow> options a
      | Some t \<Rightarrow>
          (let toolList = GetTools t
           in if length toolList > 0
              then (if iteration < maxAutoIterations a
                    then options a @ [WithTools toolList] @ [WithToolChoice ''auto'']
                    else options a @ [WithTools toolList] @ [WithToolChoice ''none''])
              else options a))"

function handleToolCallsWithLimit ::
  "'m Agent \<Rightarrow> ToolCall list \<Rightarrow> int \<Rightarrow> 'm World \<Rightarrow> (error + string) \<times> 'm World" where
  "handleToolCallsWithLimit a toolCalls iteration w =
     (if iteration \<ge> maxTotalIterations a
      then (Inl (Errorf ''maximum total iterations exceeded'' None), w)
      else
        (case executeToolCalls a toolCalls w of
           (Some err, w1) \<Rightarrow> (Inl err, w1)
         | (None, w1) \<Rightarrow>
             (case Messages (memory a) (store w1) of
                Inl err \<Rightarrow> (Inl (Errorf ''failed to retrieve messages'' (Some err)), w1)
              | Inr msgs \<Rightarrow>
                  (case chat a msgs (followUpOptions a iteration) w1 of
                     (Inl err, w2) \<Rightarrow> (Inl (Errorf ''LLM error'' (Some err)), w2)
                   | (Inr response, w2) \<Rightarrow>
                       (case memoryAdd a (ChatResponse.Message response) w2 of
                          (Some err, w3) \<Rightarrow>
                            (Inl (Errorf ''failed to add assistant response'' (Some err)), w3)
                        | (None, w3) \<Rightarrow>
                            if length (Message.ToolCalls (ChatResponse.Message response)) > 0
                            then handleToolCallsWithLimit a
                                   (Message.ToolCalls (ChatResponse.Message response))
                                   (iteration + 1) w3
                            else (Inr (Message.Content (ChatResponse.Message response)), w3))))))"
  by pat_completeness auto
termination
  by (relation "measure (\<lambda>(a, toolCalls, iteration, w). nat (maxTotalIterations a - iteration))") auto

declare handleToolCallsWithLimit.simps [simp del]

definition handleToolCalls :: "'m Agent \<Rightarrow> ToolCall list \<Rightarrow> 'm World \<Rightarrow> (error + string) \<times> 'm World" where
  "handleToolCalls a toolCalls w = handleToolCallsWithLimit a toolCalls 0 w"

definition Run :: "'m Agent \<Rightarrow> string \<Rightarrow> 'm World \<Rightarrow> (error + string) \<times> 'm World" where
  "Run a userInput w =
     (case memoryAdd a (NewUserMessage userInput) w of
        (Some err, w1) \<Rightarrow> (Inl (Errorf ''failed to add user message'' (Some err)), w1)
      | (None, w1) \<Rightarrow>
          (case Messages (memory a) (store w1) of
             Inl err \<Rightarrow> (Inl (Errorf ''failed to retrieve messages'' (Some err)), w1)
           | Inr msgs \<Rightarrow>
               (let opts = (case tools a of
                              None \<Rightarrow> options a
                            | Some t \<Rightarrow>
                                if length (GetTools t) > 0
                                then options a @ [WithTools (GetTools t)]
                                else options a)
                in case chat a msgs opts w1 of
                     (Inl err, w2) \<Rightarrow> (Inl (Errorf ''LLM error'' (Some err)), w2)
                   | (Inr response, w2) \<Rightarrow>
                       (case memoryAdd a (ChatResponse.Message response) w2 of
                          (Some err, w3) \<Rightarrow>
                            (Inl (Errorf ''failed to add assistant response'' (Some err)), w3)
                        | (None, w3) \<Rightarrow>
                            if length (Message.ToolCalls (ChatResponse.Message response)) > 0
                               \<and> tools a \<noteq> None
                            then handleToolCalls a
                                   (Message.ToolCalls (ChatResponse.Message response)) w3
                            else (Inr (Message.Content (ChatResponse.Message response)), w3)))))"

section \<open>Scenarios\<close>

text \<open>Concrete inputs on which the theorems below are evaluated.\<close>

definition example_memory :: SessionMemory where
  "example_memory = \<lparr>sessionID = ''s1''\<rparr>"

text \<open>
  A store reached by the operations themselves: a session is created with its seed system
  message, the orchestrator appends an updated-context system message to it, and the user
  speaks.
\<close>

definition example_store :: Database where
  "example_store =
     snd (SessionMemory_Add (\<lambda>tcs. Inr ''[]'') 12 None None example_memory (NewUserMessage ''hi'')
       (snd (SessionMemory_Add (\<lambda>tcs. Inr ''[]'') 11 None None example_memory
               (NewSystemMessage ''updated context'')
         (snd (SessionService_CreateSession (\<lambda>tcs. Inr ''[]'') ''s1'' 10 None None None
                 ''guest'' ''Chat'' (NewSystemMessage ''seed'')
                 \<lparr>sessions = [], session_messages = [], next_message_id = 1\<rparr>)))))"

definition example_providers :: "ContextProvider list" where
  "example_providers =
     [\<lparr>ContextProvider.Name = ''orders'', GetContext = (\<lambda>ps. Some (Inr (AString ''first'')))\<rparr>,
      \<lparr>ContextProvider.Name = ''orders'', GetContext = (\<lambda>ps. Some (Inr (AString ''second'')))\<rparr>]"

definition example_unnamed_route :: Route where
  "example_unnamed_route =
     \<lparr>Route.Pattern = '''', Route.Name = '''', Route.Description = '''',
      Route.Context = \<lparr>Providers = []\<rparr>, Route.Tools = [], Route.AgentInstructions = '''',
      Route.Safety = \<lparr>RequireConfirmation = [], MaxCostPerQuery = ''0'',
                       PIIProtection = False, RateLimitPerUser = 0\<rparr>\<rparr>"

definition example_route :: "string \<Rightarrow> string \<Rightarrow> Route" where
  "example_route nm pat =
     \<lparr>Route.Pattern = pat, Route.Name = nm, Route.Description = '''',
      Route.Context = \<lparr>Providers = []\<rparr>, Route.Tools = [], Route.AgentInstructions = '''',
      Route.Safety = \<lparr>RequireConfirmation = [], MaxCostPerQuery = ''0'',
                       PIIProtection = False, RateLimitPerUser = 0\<rparr>\<rparr>"




text \<open>
  Two manifests whose patterns hold regular-expression syntax of their own: a parameter
  between \<open>\Q\<close> and \<open>\E\<close>, and a group before a parameter that occurs twice.
\<close>

definition example_quoted_pattern :: string where
  "example_quoted_pattern = ''/q/'' @ CHR 0x5C # ''Q:id'' @ CHR 0x5C # ''E''"

definition example_quoted_manifest :: Manifest where
  "example_quoted_manifest =
     \<lparr>Version = ''1'', Routes = [example_route ''quoted'' example_quoted_pattern],
      Fallback = None\<rparr>"

definition example_quoted_registry :: "compiled_rx Registry" where
  "example_quoted_registry = snd (Load fragment_regexp example_quoted_manifest NewRegistry)"



text \<open>
  The fourth scenario of the spec: a tool that always succeeds, a language model that asks
  for it at every turn unless tool choice is none, two auto iterations, five in total.
\<close>

definition example_call :: ToolCall where
  "example_call = \<lparr>ToolCall.ID = ''call-1'',
                    Function = \<lparr>FunctionCall.Name = ''echo'', Arguments = ''{}''\<rparr>\<rparr>"

definition example_client :: Client where
  "example_client =
     \<lparr>Chat = (\<lambda>n msgs opts.
         if WithToolChoice ''none'' \<in> set opts
         then Inr \<lparr>ChatResponse.Message =
                     \<lparr>Message.Role = ''assistant'', Message.Content = ''done'',
                      Message.ToolCalls = [], Message.ToolCallID = ''''\<rparr>,
                   Usage = ANil\<rparr>
         else Inr \<lparr>ChatResponse.Message =
                     \<lparr>Message.Role = ''assistant'', Message.Content = '''',
                      Message.ToolCalls = [example_call], Message.ToolCallID = ''''\<rparr>,
                   Usage = ANil\<rparr>)\<rparr>"

definition example_tools :: ToolxClient where
  "example_tools =
     \<lparr>GetTools = [\<lparr>LLMTool.Type = ''function'', LLMTool.Name = ''echo'',
                   LLMTool.Description = ''echo'', LLMTool.Parameters = ANil\<rparr>],
      Call = (\<lambda>n tc. Inr \<lparr>Message.Role = ''tool'', Message.Content = ''ok'',
                           Message.ToolCalls = [], Message.ToolCallID = ToolCall.ID tc\<rparr>)\<rparr>"

definition example_agent :: "BufferMemory Agent" where
  "example_agent =
     New example_client BufferMemory_interface
       [Agent_WithTools example_tools, WithMaxAutoIterations 2, WithMaxTotalIterations 5]"

definition example_world :: "BufferMemory World" where
  "example_world =
     \<lparr>store = NewBufferMemory (NewSystemMessage ''You are a helpful assistant''),
      chats = [], invocations = []\<rparr>"


subsection \<open>A template, its parameters and an environment\<close>

definition example_getenv :: "string \<Rightarrow> string" where
  "example_getenv var = (if var = ''HOME'' then ''/srv'' else [])"

definition example_params :: params where
  "example_params = [(''id'', AString ''42'')]"


subsection \<open>A tool with agent and context parameters\<close>

definition example_parameter :: "string \<Rightarrow> string \<Rightarrow> bool \<Rightarrow> string \<Rightarrow> any \<Rightarrow> ToolParameter" where
  "example_parameter nm source required path dflt =
     \<lparr>ToolParameter.Name = nm, Type = ''string'', Description = [], Required = required,
      Source = source, ContextPath = path, Enum = [], Default = dflt\<rparr>"

definition example_tool_config :: ToolConfig where
  "example_tool_config =
     \<lparr>ToolConfig.Method = ''GET'', URL = ''https://shop.test/search?q={q}'', Headers = [],
      Body = ANil, Timeout = [], ResponsePath = [], Operation = []\<rparr>"

definition example_tool_parameters :: "ToolParameter list" where
  "example_tool_parameters =
     [example_parameter ''limit'' ''agent'' False [] (AInt 10),
      example_parameter ''org'' ''context'' False ''{{ user.org.name }}'' ANil,
      example_parameter ''q'' ''agent'' True [] ANil,
      example_parameter ''uid'' ''context'' True ''{{user.id}}'' ANil]"

definition example_http_tool :: "params \<Rightarrow> HTTPTool" where
  "example_http_tool ctx =
     NewHTTPTool
       \<lparr>Tool.Name = ''search'', Description = [], Type = ''http'', Config = example_tool_config,
        Parameters = example_tool_parameters\<rparr>
       ctx ''tok''"

definition example_context_anonymous :: params where
  "example_context_anonymous = [(''user'', AMap [(''name'', AString ''ann'')])]"

definition example_context_known :: params where
  "example_context_known = [(''user'', AMap [(''id'', AString ''u1'')])]"


subsection \<open>A route with two required providers, one of them failing\<close>

definition example_externals :: Externals where
  "example_externals =
     \<lparr>Getenv = example_getenv,
      Marshal = (\<lambda>v. Inl (External ''unsupported value'')),
      Unmarshal = (\<lambda>s. Inl (External ''invalid character'')),
      ParseDuration = (\<lambda>s. if s = ''5s'' then Inr (5 * Second)
                            else Inl (External ''invalid duration'')),
      NewRequestWithContext = (\<lambda>method url. None),
      CanonicalHeaderKey = (\<lambda>key. key),
      Do = (\<lambda>timeout req.
              if HTTPRequest.URL req = ''/p/42''
              then Responded \<lparr>StatusCode = 500, Body = ''down'', ReadError = None\<rparr>
              else Responded \<lparr>StatusCode = 200, Body = ''ok'', ReadError = None\<rparr>)\<rparr>"

definition example_provider_config :: "string \<Rightarrow> string \<Rightarrow> Provider" where
  "example_provider_config nm url =
     \<lparr>Provider.Type = ''http'', Name = nm, URL = url, Method = [], Headers = [], Body = ANil,
      Timeout = [], Params = [], Condition = [], Optional = False\<rparr>"

definition example_product_route :: Route where
  "example_product_route =
     \<lparr>Route.Pattern = ''/products/:id'', Route.Name = ''product'', Route.Description = [],
      Route.Context = \<lparr>Providers = [example_provider_config ''product'' ''/p/{id}'',
                                     example_provider_config ''reviews'' ''/r/{id}'']\<rparr>,
      Route.Tools = [], Route.AgentInstructions = ''Help with the product.'',
      Route.Safety = \<lparr>RequireConfirmation = [], MaxCostPerQuery = ''0'',
                       PIIProtection = False, RateLimitPerUser = 0\<rparr>\<rparr>"

definition example_route_match :: RouteMatch where
  "example_route_match =
     \<lparr>RouteMatch.Route = Some example_product_route, Params = [(''id'', ''42'')], Query = []\<rparr>"

definition example_product_failure :: error where
  "example_product_failure =
     ProviderFailed ''product'' (Errorf ''unexpected status code 500: down'' None)"

definition example_full_context :: FullContext where
  "example_full_context =
     \<lparr>FullContext.Route = \<lparr>Path = ''/products/:id'', Name = ''product'',
                            Params = [(''id'', ''42'')], Query = []\<rparr>,
      User = None, Frontend = None, Backend = [(''reviews'', AString ''ok'')],
      Instructions = ''Help with the product.'', AvailableTools = []\<rparr>"

definition example_http_provider :: "string \<Rightarrow> string \<Rightarrow> HTTPProvider" where
  "example_http_provider nm url =
     NewHTTPProvider nm
       \<lparr>HTTPConfig.URL = url, Method = ''GET'', Headers = [], Body = ANil,
        Timeout = 10 * Second\<rparr>"

definition example_provider_client :: ProviderClient where
  "example_provider_client =
     NewProviderClient
       [HTTPProvider_interface example_externals (example_http_provider ''product'' ''/p/{id}''),
        HTTPProvider_interface example_externals (example_http_provider ''reviews'' ''/r/{id}'')]"

chapter \<open>Properties\<close>

section \<open>Provider client: the last provider of a name wins\<close>

lemma fold_update_distinct:
  "distinct (map fst m) \<Longrightarrow>
   distinct (map fst (fold (\<lambda>p pm. AList.update (ContextProvider.Name p) p pm) ps m))"
  by (induction ps arbitrary: m) (auto simp: distinct_update)

lemma fold_update_last:
  "\<forall>q \<in> set post. ContextProvider.Name q \<noteq> n \<Longrightarrow>
   map_of (fold (\<lambda>p pm. AList.update (ContextProvider.Name p) p pm) post m) n = map_of m n"
  by (induction post arbitrary: m) (auto simp: update_conv)

lemma fold_update_app:
  "\<forall>q \<in> set post. ContextProvider.Name q \<noteq> ContextProvider.Name p \<Longrightarrow>
   map_of (fold (\<lambda>p pm. AList.update (ContextProvider.Name p) p pm) (pre @ p # post) m)
     (ContextProvider.Name p) = Some p"
  by (simp add: fold_update_last update_conv)

lemma GetAll_collect_distinct:
  "GetAll_collect es ps res errs = Some (res', errs') \<Longrightarrow> distinct (map fst res) \<Longrightarrow>
   distinct (map fst res')"
  by (induction es ps res errs rule: GetAll_collect.induct)
     (auto simp: distinct_update split: option.splits sum.splits)

lemma GetAll_collect_lookup:
  "GetAll_collect es ps res errs = Some (res', errs') \<Longrightarrow> distinct (map fst es) \<Longrightarrow>
   map_of res' n =
     (case map_of es n of
        None \<Rightarrow> map_of res n
      | Some p \<Rightarrow> (case GetContext p ps of Some (Inr d) \<Rightarrow> Some d | _ \<Rightarrow> map_of res n))"
proof (induction es ps res errs rule: GetAll_collect.induct)
  case (1 ps results errors)
  then show ?case by simp
next
  case (2 name provider rest ps results errors)
  from "2.prems" have nin: "map_of rest name = None" and d: "distinct (map fst rest)"
    by (auto simp: map_of_eq_None_iff)
  show ?case
  proof (cases "GetContext provider ps")
    case None
    with "2.prems" show ?thesis by simp
  next
    case (Some r)
    show ?thesis
    proof (cases r)
      case (Inl e)
      with Some "2.prems" "2.IH"(1) d nin show ?thesis
        by (auto split: option.splits sum.splits)
    next
      case (Inr data)
      with Some "2.prems" "2.IH"(2) d nin show ?thesis
        by (auto simp: update_conv split: option.splits sum.splits)
    qed
  qed
qed

text \<open>
  Claim C10. When several providers passed to NewProviderClient report the same name, the
  client keeps the one that comes last (no later provider in the list has that name): the
  map binds the name to it, Get for the name is its call, and the result map of GetAll
  holds under that name what its call returned (nothing when it failed). The provider map
  and the result map hold one entry per name.
\<close>

theorem NewProviderClient_last_wins:
  assumes "\<forall>q \<in> set post. ContextProvider.Name q \<noteq> ContextProvider.Name p"
  shows "map_of (providers (NewProviderClient (pre @ p # post))) (ContextProvider.Name p) = Some p
    \<and> distinct (map fst (providers (NewProviderClient (pre @ p # post))))
    \<and> ProviderClient_Get (NewProviderClient (pre @ p # post)) (ContextProvider.Name p) ps
        = GetContext p ps
    \<and> (\<forall>results err. ProviderClient_GetAll Error (NewProviderClient (pre @ p # post)) ps
            = Some (results, err) \<longrightarrow>
          distinct (map fst results)
          \<and> map_of results (ContextProvider.Name p)
              = (case GetContext p ps of Some (Inr d) \<Rightarrow> Some d | _ \<Rightarrow> None))"
proof -
  let ?c = "NewProviderClient (pre @ p # post)"
  have look: "map_of (providers ?c) (ContextProvider.Name p) = Some p"
    unfolding NewProviderClient_def using assms by (simp add: fold_update_last update_conv)
  have dist: "distinct (map fst (providers ?c))"
    unfolding NewProviderClient_def by (simp only: ProviderClient.simps) (rule fold_update_distinct, simp)
  have get: "ProviderClient_Get ?c (ContextProvider.Name p) ps = GetContext p ps"
    by (simp add: ProviderClient_Get_def look)
  have all: "distinct (map fst results)
          \<and> map_of results (ContextProvider.Name p)
              = (case GetContext p ps of Some (Inr d) \<Rightarrow> Some d | _ \<Rightarrow> None)"
    if a: "ProviderClient_GetAll Error ?c ps = Some (results, err)" for results err
  proof -
    from a obtain errs where c: "GetAll_collect (providers ?c) ps [] [] = Some (results, errs)"
      by (auto simp: ProviderClient_GetAll_def split: option.splits if_splits)
    from GetAll_collect_distinct [OF c] have "distinct (map fst results)" by simp
    moreover from GetAll_collect_lookup [OF c dist, of "ContextProvider.Name p"] look
    have "map_of results (ContextProvider.Name p)
              = (case GetContext p ps of Some (Inr d) \<Rightarrow> Some d | _ \<Rightarrow> None)"
      by (auto split: option.splits sum.splits)
    ultimately show ?thesis by simp
  qed
  from look dist get all show ?thesis by blast
qed


theorem NewProviderClient_last_wins_witness:
  "ProviderClient_Get (NewProviderClient example_providers) ''orders'' [] = Some (Inr (AString ''second''))
   \<and> ProviderClient_GetAll (\<lambda>e. ''failed'') (NewProviderClient example_providers) []
       = Some ([(''orders'', AString ''second'')], None)"
proof -
  have "ProviderClient_Get (NewProviderClient example_providers) ''orders'' [] = Some (Inr (AString ''second''))"
    using NewProviderClient_last_wins
      [of "[]" "\<lparr>ContextProvider.Name = ''orders'', GetContext = (\<lambda>ps. Some (Inr (AString ''second'')))\<rparr>"
          "[\<lparr>ContextProvider.Name = ''orders'', GetContext = (\<lambda>ps. Some (Inr (AString ''first'')))\<rparr>]"
          "[]" "\<lambda>e. ''failed''"]
    by (simp add: example_providers_def)
  moreover have "ProviderClient_GetAll (\<lambda>e. ''failed'') (NewProviderClient example_providers) []
       = Some ([(''orders'', AString ''second'')], None)"
    by (simp add: example_providers_def ProviderClient_GetAll_def NewProviderClient_def)
  ultimately show ?thesis by simp
qed

section \<open>Manifest validation: which violations are reported\<close>

lemma ValidateManifest_routes_acc:
  "(\<And>n. (case map_of names n of Some b \<Rightarrow> b | None \<Rightarrow> False) = (n \<in> Route.Name ` set seen)) \<Longrightarrow>
   ValidateManifest_routes rs names errs =
     errs @ concat (map (\<lambda>i.
         (case validateRoute (rs ! i) of Some e \<Rightarrow> [e] | None \<Rightarrow> [])
       @ (if Route.Name (rs ! i) \<in> Route.Name ` set (seen @ take i rs)
          then [DuplicateRouteName (Route.Name (rs ! i))] else [])
       @ (case compileRoutePattern (rs ! i) of Inl e \<Rightarrow> [e] | Inr p \<Rightarrow> []))
       [0..<length rs])"
proof (induction rs arbitrary: names errs seen)
  case Nil
  then show ?case by simp
next
  case (Cons r rs)
  let ?names = "AList.update (Route.Name r) True names"
  have inv: "(case map_of ?names n of Some b \<Rightarrow> b | None \<Rightarrow> False)
               = (n \<in> Route.Name ` set (seen @ [r]))" for n
    using Cons.prems [of n] by (simp add: update_conv)
  have shift: "map f [0..<length (r # rs)] = f 0 # map (\<lambda>i. f (Suc i)) [0..<length rs]"
    for f :: "nat \<Rightarrow> error list"
    by (simp add: upt_conv_Cons map_Suc_upt [symmetric] del: upt_Suc)
  show ?case
    apply (subst shift)
    apply (simp only: ValidateManifest_routes.simps Let_def)
    apply (subst Cons.IH [where seen = "seen @ [r]", OF inv])
    apply (simp add: Cons.prems split: option.splits sum.splits cong: if_cong)
    done
qed

text \<open>
  Claim C6, as stated, fails. A manifest with an empty version and no routes violates two
  rules, and ValidateManifest returns the missing-version error alone; a manifest whose
  only route has neither pattern nor name yields one error for that route, the missing
  pattern.
\<close>

theorem ValidateManifest_first_only_counterexample:
  "ValidateManifest \<lparr>Version = '''', Routes = [], Fallback = None\<rparr> = Some MissingVersion
   \<and> ValidateManifest \<lparr>Version = ''1'', Routes = [example_unnamed_route], Fallback = None\<rparr>
       = Some (MultipleValidationErrors [MissingRoutePattern ''''])"
  by code_simp

text \<open>
  Claim C6, amended. An empty version is reported alone, and so is an empty route list.
  Otherwise ValidateManifest accumulates, route by route in declaration order, the first
  violation validateRoute finds in the route (empty pattern, else empty name, else its
  first invalid provider), a duplicate-name error when an earlier route has the same name,
  and an invalid-pattern error when the pattern is not empty and does not start with a
  slash; then the first violation of the fallback route; and it returns all of them
  together in one multiple-validation error (no error when there is none).
\<close>

theorem ValidateManifest_accumulates:
  "ValidateManifest m =
     (if Version m = '''' then Some MissingVersion
      else if Routes m = [] then Some MissingRoutes
      else
        (let errs =
               concat (map (\<lambda>i.
                   (case validateRoute (Routes m ! i) of Some e \<Rightarrow> [e] | None \<Rightarrow> [])
                 @ (if Route.Name (Routes m ! i) \<in> Route.Name ` set (take i (Routes m))
                    then [DuplicateRouteName (Route.Name (Routes m ! i))] else [])
                 @ (if Route.Pattern (Routes m ! i) \<noteq> '''' \<and> hd (Route.Pattern (Routes m ! i)) \<noteq> CHR ''/''
                    then [InvalidPattern (Route.Pattern (Routes m ! i))
                            (ValidationError ''pattern must start with /'')]
                    else []))
                 [0..<length (Routes m)])
             @ (case Fallback m of
                  None \<Rightarrow> []
                | Some f \<Rightarrow> (case validateRoute f of Some e \<Rightarrow> [e] | None \<Rightarrow> []))
         in if errs = [] then None else Some (MultipleValidationErrors errs)))"
proof -
  have cp: "(case compileRoutePattern r of Inl e \<Rightarrow> [e] | Inr p \<Rightarrow> [])
      = (if Route.Pattern r \<noteq> '''' \<and> hd (Route.Pattern r) \<noteq> CHR ''/''
         then [InvalidPattern (Route.Pattern r) (ValidationError ''pattern must start with /'')]
         else [])" for r
    by (cases "Route.Pattern r") (auto simp: compileRoutePattern_def HasPrefix_def Let_def)
  have loop: "ValidateManifest_routes (Routes m) [] [] =
     concat (map (\<lambda>i.
         (case validateRoute (Routes m ! i) of Some e \<Rightarrow> [e] | None \<Rightarrow> [])
       @ (if Route.Name (Routes m ! i) \<in> Route.Name ` set (take i (Routes m))
          then [DuplicateRouteName (Route.Name (Routes m ! i))] else [])
       @ (if Route.Pattern (Routes m ! i) \<noteq> '''' \<and> hd (Route.Pattern (Routes m ! i)) \<noteq> CHR ''/''
          then [InvalidPattern (Route.Pattern (Routes m ! i))
                  (ValidationError ''pattern must start with /'')]
          else []))
       [0..<length (Routes m)])"
    using ValidateManifest_routes_acc [of "[]" "[]" "Routes m" "[]"] by (simp add: cp)
  show ?thesis
    unfolding ValidateManifest_def loop
    by (auto simp: Let_def split: option.splits)
qed

section \<open>Registry: first declared match, positional parameters\<close>

lemma bindParams_spec:
  "i + length names < length g \<Longrightarrow>
   \<exists>ps'. bindParams names i g ps = Inr ps'
     \<and> fst ` set ps' = fst ` set ps \<union> set names
     \<and> (\<forall>n. n \<notin> set names \<longrightarrow> map_of ps' n = map_of ps n)
     \<and> (\<forall>k<length names. (\<forall>k'. k < k' \<and> k' < length names \<longrightarrow> names ! k' \<noteq> names ! k) \<longrightarrow>
            map_of ps' (names ! k) = Some (g ! (i + k + 1)))"
proof (induction names arbitrary: i ps)
  case Nil
  then show ?case by simp
next
  case (Cons a rest)
  let ?ps1 = "AList.update a (g ! (i + 1)) ps"
  from Cons.prems have "(i + 1) + length rest < length g" by simp
  from Cons.IH [OF this, of ?ps1] obtain ps' where
    b: "bindParams rest (i + 1) g ?ps1 = Inr ps'"
    and d: "fst ` set ps' = fst ` set ?ps1 \<union> set rest"
    and o: "\<And>n. n \<notin> set rest \<Longrightarrow> map_of ps' n = map_of ?ps1 n"
    and l: "\<And>k. k < length rest \<Longrightarrow>
              (\<forall>k'. k < k' \<and> k' < length rest \<longrightarrow> rest ! k' \<noteq> rest ! k) \<Longrightarrow>
              map_of ps' (rest ! k) = Some (g ! (i + 1 + k + 1))"
    by blast
  have run: "bindParams (a # rest) i g ps = Inr ps'"
    using Cons.prems b by simp
  have dom: "fst ` set ps' = fst ` set ps \<union> set (a # rest)"
    using d by (auto simp: dom_update)
  have other: "map_of ps' n = map_of ps n" if "n \<notin> set (a # rest)" for n
    using that o [of n] by (simp add: update_conv)
  have last: "map_of ps' ((a # rest) ! k) = Some (g ! (i + k + 1))"
    if k: "k < length (a # rest)"
      and nolater: "\<forall>k'. k < k' \<and> k' < length (a # rest) \<longrightarrow> (a # rest) ! k' \<noteq> (a # rest) ! k"
    for k
  proof (cases k)
    case 0
    have "a \<notin> set rest"
    proof
      assume "a \<in> set rest"
      then obtain j where "j < length rest" "rest ! j = a" by (auto simp: in_set_conv_nth)
      with nolater [rule_format, of "Suc j"] 0 show False by simp
    qed
    with o [of a] 0 show ?thesis by (simp add: update_conv)
  next
    case (Suc k0)
    have "\<forall>k'. k0 < k' \<and> k' < length rest \<longrightarrow> rest ! k' \<noteq> rest ! k0"
    proof (intro allI impI)
      fix k' assume "k0 < k' \<and> k' < length rest"
      with nolater [rule_format, of "Suc k'"] Suc show "rest ! k' \<noteq> rest ! k0" by simp
    qed
    with l [of k0] k Suc show ?thesis by simp
  qed
  from run dom other last show ?case by blast
qed

lemma Load_routes_entries:
  "Load_routes re rs r = (None, r') \<Longrightarrow>
   manifest r' = manifest r \<and> fallback r' = fallback r
   \<and> (\<exists>es. routes r' = routes r @ es \<and> list_all2 (\<lambda>rt e. compileRoute re rt = Inr e) rs es)"
proof (induction rs arbitrary: r)
  case Nil
  then show ?case by simp
next
  case (Cons rt rest)
  from Cons.prems obtain entry where c: "compileRoute re rt = Inr entry"
    and l: "Load_routes re rest (r\<lparr>routes := routes r @ [entry]\<rparr>) = (None, r')"
    by (auto split: sum.splits)
  from Cons.IH [OF l] obtain es where
    "manifest r' = manifest r" "fallback r' = fallback r"
    "routes r' = (routes r @ [entry]) @ es" "list_all2 (\<lambda>rt e. compileRoute re rt = Inr e) rest es"
    by auto
  with c show ?case by (auto intro!: exI [of _ "entry # es"])
qed

lemma Load_entries:
  assumes "Load re m r0 = (None, r)"
  shows "manifest r = Some m" and "fallback r = Fallback m"
    and "list_all2 (\<lambda>rt e. compileRoute re rt = Inr e) (Routes m) (routes r)"
proof -
  from assms obtain r' where l: "Load_routes re (Routes m) (r0\<lparr>manifest := Some m, routes := []\<rparr>) = (None, r')"
    and r: "r = r'\<lparr>fallback := Fallback m\<rparr>"
    by (auto simp: Load_def split: prod.splits option.splits)
  from Load_routes_entries [OF l] r
  show "manifest r = Some m" and "fallback r = Fallback m"
    and "list_all2 (\<lambda>rt e. compileRoute re rt = Inr e) (Routes m) (routes r)"
    by auto
qed

lemma compileRoute_entry:
  "compileRoute re rt = Inr e \<Longrightarrow>
   Compile re (''^'' @ replaceParams (Route.Pattern rt) @ ''$'') = Inr (pattern e)
   \<and> route e = rt \<and> params e = paramNames (Route.Pattern rt)"
  by (auto simp: compileRoute_def Let_def split: sum.splits)

lemma Match_routes_first:
  "i < length es \<Longrightarrow> FindStringSubmatch re (pattern (es ! i)) path = Some g \<Longrightarrow>
   \<forall>j<i. FindStringSubmatch re (pattern (es ! j)) path = None \<Longrightarrow>
   Match_routes re es path =
     Some (case bindParams (params (es ! i)) 0 g [] of
             Inl e \<Rightarrow> Inl e
           | Inr ps \<Rightarrow> Inr \<lparr>Route = Some (route (es ! i)), Params = ps, Query = []\<rparr>)"
proof (induction es arbitrary: i)
  case Nil
  then show ?case by simp
next
  case (Cons e es)
  show ?case
  proof (cases i)
    case 0
    with Cons.prems show ?thesis by (simp cong: sum.case_cong)
  next
    case (Suc i0)
    with Cons.prems have "FindStringSubmatch re (pattern e) path = None" by auto
    moreover have "Match_routes re es path =
     Some (case bindParams (params (es ! i0)) 0 g [] of
             Inl e \<Rightarrow> Inl e
           | Inr ps \<Rightarrow> Inr \<lparr>Route = Some (route (es ! i0)), Params = ps, Query = []\<rparr>)"
      using Cons.prems Suc by (intro Cons.IH) auto
    ultimately show ?thesis using Suc by (simp cong: sum.case_cong)
  qed
qed

lemma Match_routes_none:
  "\<forall>j<length es. FindStringSubmatch re (pattern (es ! j)) path = None \<Longrightarrow>
   Match_routes re es path = None"
proof (induction es)
  case Nil
  then show ?case by simp
next
  case (Cons e es)
  from Cons.prems have "FindStringSubmatch re (pattern e) path = None" by auto
  moreover from Cons.prems have "\<forall>j<length es. FindStringSubmatch re (pattern (es ! j)) path = None"
    by auto
  ultimately show ?case using Cons.IH by simp
qed

lemma first_match_exists:
  assumes "\<exists>j<length es. FindStringSubmatch re (pattern (es ! j)) path \<noteq> None"
  shows "\<exists>k<length es. FindStringSubmatch re (pattern (es ! k)) path \<noteq> None
      \<and> (\<forall>j<k. FindStringSubmatch re (pattern (es ! j)) path = None)"
proof -
  define P where "P j \<longleftrightarrow> j < length es \<and> FindStringSubmatch re (pattern (es ! j)) path \<noteq> None" for j
  from assms have "\<exists>j. P j" unfolding P_def by blast
  then have "\<exists>k. P k \<and> (\<forall>j<k. \<not> P j)" by (subst (asm) exists_least_iff)
  then obtain k where k: "P k" and least: "\<And>j. j < k \<Longrightarrow> \<not> P j" by blast
  have "FindStringSubmatch re (pattern (es ! j)) path = None" if "j < k" for j
  proof -
    from that k have "j < length es" unfolding P_def by simp
    with least [OF that] show ?thesis unfolding P_def by simp
  qed
  with k show ?thesis unfolding P_def by blast
qed

text \<open>
  After a successful Load, the entry of the i-th declared route holds the expression
  compiled from \<open>^\<close>, the pattern with every \<open>:identifier\<close> replaced by \<open>([^/]+)\<close>,
  and \<open>$\<close>, together with the parameter names in the order they appear in the pattern.
  If that expression matches the path, no expression of an earlier route does, and the
  match has a group for every parameter name, Match returns this route, and its parameter
  map has exactly the parameter names as keys, each bound to the capture group at its
  position (for a name that occurs again later, the position of its last occurrence).
  Conversely, whatever Match returns is the first declared route whose expression
  matches, or, when none matches, the fallback with no parameters.
\<close>

lemma Match_first_with_groups:
  assumes "Load re m r0 = (None, r)" and "i < length (Routes m)"
  shows "\<exists>rx.
      Compile re (''^'' @ replaceParams (Route.Pattern (Routes m ! i)) @ ''$'') = Inr rx
    \<and> routes r ! i = \<lparr>route = Routes m ! i, pattern = rx,
                       params = paramNames (Route.Pattern (Routes m ! i))\<rparr>
    \<and> (\<forall>g. FindStringSubmatch re rx path = Some g
            \<and> (\<forall>j<i. FindStringSubmatch re (pattern (routes r ! j)) path = None)
            \<and> length (paramNames (Route.Pattern (Routes m ! i))) < length g \<longrightarrow>
          (\<exists>ps. Match re r path = Inr \<lparr>Route = Some (Routes m ! i), Params = ps, Query = []\<rparr>
             \<and> fst ` set ps = set (paramNames (Route.Pattern (Routes m ! i)))
             \<and> (\<forall>k<length (paramNames (Route.Pattern (Routes m ! i))).
                  (\<forall>k'. k < k' \<and> k' < length (paramNames (Route.Pattern (Routes m ! i))) \<longrightarrow>
                     paramNames (Route.Pattern (Routes m ! i)) ! k'
                       \<noteq> paramNames (Route.Pattern (Routes m ! i)) ! k) \<longrightarrow>
                  map_of ps (paramNames (Route.Pattern (Routes m ! i)) ! k) = Some (g ! (k + 1)))))
    \<and> (\<forall>rm. Match re r path = Inr rm \<longrightarrow>
          (\<exists>k<length (Routes m).
              FindStringSubmatch re (pattern (routes r ! k)) path \<noteq> None
            \<and> (\<forall>j<k. FindStringSubmatch re (pattern (routes r ! j)) path = None)
            \<and> RouteMatch.Route rm = Some (Routes m ! k))
          \<or> ((\<forall>j<length (Routes m). FindStringSubmatch re (pattern (routes r ! j)) path = None)
             \<and> Fallback m \<noteq> None
             \<and> rm = \<lparr>Route = Fallback m, Params = [], Query = []\<rparr>))"
proof -
  note L = Load_entries [OF assms(1)]
  from L(3) have len: "length (routes r) = length (Routes m)"
    by (simp add: list_all2_lengthD)
  have ent: "compileRoute re (Routes m ! k) = Inr (routes r ! k)" if "k < length (Routes m)" for k
    using L(3) that by (simp add: list_all2_conv_all_nth)
  have rt: "route (routes r ! k) = Routes m ! k" if "k < length (Routes m)" for k
    using compileRoute_entry [OF ent [OF that]] by (elim conjE)
  let ?names = "paramNames (Route.Pattern (Routes m ! i))"
  let ?rx = "pattern (routes r ! i)"
  note ce = compileRoute_entry [OF ent [OF assms(2)]]
  from ce have c: "Compile re (''^'' @ replaceParams (Route.Pattern (Routes m ! i)) @ ''$'') = Inr ?rx"
    by (elim conjE)
  from ce have pe: "params (routes r ! i) = ?names"
    by (elim conjE)
  have e: "routes r ! i = \<lparr>route = Routes m ! i, pattern = ?rx, params = ?names\<rparr>"
    by (rule routeEntry.equality) (simp_all add: pe rt [OF assms(2)])
  have fwd: "\<exists>ps. Match re r path = Inr \<lparr>Route = Some (Routes m ! i), Params = ps, Query = []\<rparr>
             \<and> fst ` set ps = set ?names
             \<and> (\<forall>k<length ?names.
                  (\<forall>k'. k < k' \<and> k' < length ?names \<longrightarrow> ?names ! k' \<noteq> ?names ! k) \<longrightarrow>
                  map_of ps (?names ! k) = Some (g ! (k + 1)))"
    if g: "FindStringSubmatch re ?rx path = Some g"
      and first: "\<forall>j<i. FindStringSubmatch re (pattern (routes r ! j)) path = None"
      and lg: "length ?names < length g"
    for g
  proof -
    from lg have "0 + length ?names < length g" by simp
    from bindParams_spec [OF this, of "[]"] obtain ps where
      b: "bindParams ?names 0 g [] = Inr ps" and d: "fst ` set ps = set ?names"
      and l: "\<forall>k<length ?names.
                  (\<forall>k'. k < k' \<and> k' < length ?names \<longrightarrow> ?names ! k' \<noteq> ?names ! k) \<longrightarrow>
                  map_of ps (?names ! k) = Some (g ! (k + 1))"
      by auto
    from assms(2) len have "i < length (routes r)" by simp
    from Match_routes_first [OF this g first]
    have "Match_routes re (routes r) path
            = Some (Inr \<lparr>Route = Some (Routes m ! i), Params = ps, Query = []\<rparr>)"
      by (simp add: pe b rt [OF assms(2)])
    then have "Match re r path = Inr \<lparr>Route = Some (Routes m ! i), Params = ps, Query = []\<rparr>"
      by (simp add: Match_def L(1))
    with d l show ?thesis by blast
  qed
  have bwd: "(\<exists>k<length (Routes m).
              FindStringSubmatch re (pattern (routes r ! k)) path \<noteq> None
            \<and> (\<forall>j<k. FindStringSubmatch re (pattern (routes r ! j)) path = None)
            \<and> RouteMatch.Route rm = Some (Routes m ! k))
          \<or> ((\<forall>j<length (Routes m). FindStringSubmatch re (pattern (routes r ! j)) path = None)
             \<and> Fallback m \<noteq> None
             \<and> rm = \<lparr>Route = Fallback m, Params = [], Query = []\<rparr>)"
    if rm: "Match re r path = Inr rm" for rm
  proof (cases "\<exists>j<length (routes r). FindStringSubmatch re (pattern (routes r ! j)) path \<noteq> None")
    case True
    from first_match_exists [OF True] obtain k g where k: "k < length (routes r)"
      and g: "FindStringSubmatch re (pattern (routes r ! k)) path = Some g"
      and first: "\<forall>j<k. FindStringSubmatch re (pattern (routes r ! j)) path = None"
      by auto
    from Match_routes_first [OF k g first] rm
    have "RouteMatch.Route rm = Some (route (routes r ! k))"
      by (auto simp: Match_def L(1) split: sum.splits)
    with k g first len rt [of k] show ?thesis
      by (intro disjI1 exI [of _ k]) simp
  next
    case False
    then have none: "\<forall>j<length (routes r). FindStringSubmatch re (pattern (routes r ! j)) path = None"
      by blast
    from Match_routes_none [OF none] rm
    have "Fallback m \<noteq> None \<and> rm = \<lparr>Route = Fallback m, Params = [], Query = []\<rparr>"
      by (auto simp: Match_def L(1) L(2) split: option.splits)
    with none len show ?thesis by simp
  qed
  show ?thesis
  proof (intro exI [of _ ?rx] conjI allI impI)
    show "Compile re (''^'' @ replaceParams (Route.Pattern (Routes m ! i)) @ ''$'') = Inr ?rx"
      by (rule c)
    show "routes r ! i = \<lparr>route = Routes m ! i, pattern = ?rx, params = ?names\<rparr>"
      by (rule e)
  next
    fix g
    assume "FindStringSubmatch re ?rx path = Some g
            \<and> (\<forall>j<i. FindStringSubmatch re (pattern (routes r ! j)) path = None)
            \<and> length ?names < length g"
    then show "\<exists>ps. Match re r path = Inr \<lparr>Route = Some (Routes m ! i), Params = ps, Query = []\<rparr>
             \<and> fst ` set ps = set ?names
             \<and> (\<forall>k<length ?names.
                  (\<forall>k'. k < k' \<and> k' < length ?names \<longrightarrow> ?names ! k' \<noteq> ?names ! k) \<longrightarrow>
                  map_of ps (?names ! k) = Some (g ! (k + 1)))"
      using fwd [of g] by (elim conjE) simp
  next
    fix rm
    assume "Match re r path = Inr rm"
    then show "(\<exists>k<length (Routes m).
              FindStringSubmatch re (pattern (routes r ! k)) path \<noteq> None
            \<and> (\<forall>j<k. FindStringSubmatch re (pattern (routes r ! j)) path = None)
            \<and> RouteMatch.Route rm = Some (Routes m ! k))
          \<or> ((\<forall>j<length (Routes m). FindStringSubmatch re (pattern (routes r ! j)) path = None)
             \<and> Fallback m \<noteq> None
             \<and> rm = \<lparr>Route = Fallback m, Params = [], Query = []\<rparr>)"
      by (rule bwd)
  qed
qed

text \<open>
  Claim C3, at the route \<open>quoted\<close> with the pattern \<open>/q/\Q:id\E\<close> and the path
  \<open>/q/([^/]+)\<close>. The manifest passes validation and loads. compileRoute finds the
  parameter \<open>id\<close> and builds the expression \<open>^/q/\Q([^/]+)\E$\<close>, in which the replacement
  stands between \<open>\Q\<close> and \<open>\E\<close> and is literal text: the expression has no group. It
  matches the path, and the route is the first (and only) declared route that matches.
  Match then reads group 1 of a match that holds the whole text only: the index is out of
  range, and Match does not return the route.
\<close>

theorem Match_quoted_parameter_out_of_range:
  "ValidateManifest example_quoted_manifest = None
   \<and> fst (Load fragment_regexp example_quoted_manifest NewRegistry) = None
   \<and> route (routes example_quoted_registry ! 0) = example_route ''quoted'' example_quoted_pattern
   \<and> params (routes example_quoted_registry ! 0) = [''id'']
   \<and> FindStringSubmatch fragment_regexp (pattern (routes example_quoted_registry ! 0))
         ''/q/([^/]+)'' = Some [''/q/([^/]+)'']
   \<and> Match fragment_regexp example_quoted_registry ''/q/([^/]+)'' = Inl IndexOutOfRange"
  unfolding example_quoted_registry_def by code_simp




section \<open>Agent: bounded calls and the tool-choice schedule\<close>

lemma executeToolCalls_effect:
  "executeToolCalls a tcs w = (r, w') \<Longrightarrow>
   chats w' = chats w \<and> length (invocations w') \<le> length (invocations w) + length tcs"
proof (induction a tcs w rule: executeToolCalls.induct)
  case (1 a w)
  then show ?case by simp
next
  case (2 a tc rest w)
  show ?case
  proof (cases "tools a")
    case None
    with "2.prems" show ?thesis by simp
  next
    case (Some t)
    let ?w1 = "w\<lparr>invocations := invocations w @ [tc]\<rparr>"
    show ?thesis
    proof (cases "Call t (length (invocations w)) tc")
      case (Inl err)
      with Some "2.prems" show ?thesis by (auto simp: Let_def)
    next
      case (Inr toolResponse)
      obtain e w2 where m: "memoryAdd a toolResponse ?w1 = (e, w2)" by (cases "memoryAdd a toolResponse ?w1")
      then have w2: "chats w2 = chats w" "invocations w2 = invocations w @ [tc]"
        by (auto simp: memoryAdd_def split: prod.splits)
      show ?thesis
      proof (cases e)
        case None
        with Some Inr m "2.prems" have "executeToolCalls a rest w2 = (r, w')" by (simp add: Let_def)
        from "2.IH" [OF Some refl Inr _ _ this] m None w2 show ?thesis by simp
      next
        case (Some err)
        with \<open>tools a = Some t\<close> Inr m "2.prems" w2 show ?thesis by (auto simp: Let_def)
      qed
    qed
  qed
qed

lemma chat_effect:
  "chat a msgs opts w = (r, w') \<Longrightarrow>
   chats w' = chats w @ [(msgs, opts)] \<and> invocations w' = invocations w
   \<and> r = Chat (client a) (length (chats w)) msgs opts"
  by (auto simp: chat_def)

lemma memoryAdd_effect:
  "memoryAdd a msg w = (r, w') \<Longrightarrow> chats w' = chats w \<and> invocations w' = invocations w"
  by (auto simp: memoryAdd_def split: prod.splits)

lemma handleToolCallsWithLimit_bounds:
  assumes k: "\<forall>n msgs opts r. Chat (client a) n msgs opts = Inr r \<longrightarrow>
                length (Message.ToolCalls (ChatResponse.Message r)) \<le> k"
  shows "handleToolCallsWithLimit a tcs i w = (res, w') \<Longrightarrow> length tcs \<le> k \<Longrightarrow>
     length (chats w') \<le> length (chats w) + nat (maxTotalIterations a - i)
     \<and> length (invocations w') \<le> length (invocations w) + nat (maxTotalIterations a - i) * k"
  using k
proof (induction a tcs i w arbitrary: res w' rule: handleToolCallsWithLimit.induct)
  case (1 a toolCalls iteration w)
  note step = handleToolCallsWithLimit.simps [of a toolCalls iteration w]
  note k = "1.prems"(3)
  show ?case
  proof (cases "maxTotalIterations a \<le> iteration")
    case True
    with "1.prems"(1) step show ?thesis by simp
  next
    case False
    then have n: "nat (maxTotalIterations a - iteration)
                    = Suc (nat (maxTotalIterations a - (iteration + 1)))"
      by simp
    obtain e w1 where ex: "(e, w1) = executeToolCalls a toolCalls w"
      by (cases "executeToolCalls a toolCalls w") simp
    from executeToolCalls_effect [OF ex [symmetric]] "1.prems"(2)
    have c1: "chats w1 = chats w"
      and i1: "length (invocations w1) \<le> length (invocations w) + k"
      by simp_all
    have stop1: ?thesis if "w' = w1"
      using that c1 i1 n by simp
    show ?thesis
    proof (cases e)
      case (Some err)
      with "1.prems"(1) step False ex [symmetric] have "w' = w1" by simp
      then show ?thesis by (rule stop1)
    next
      case None
      note eNone = None
      show ?thesis
      proof (cases "Messages (memory a) (store w1)")
        case (Inl err)
        with "1.prems"(1) step False ex [symmetric] eNone have "w' = w1" by simp
        then show ?thesis by (rule stop1)
      next
        case (Inr msgs)
        note mInr = Inr
        obtain cr w2 where ch: "(cr, w2) = chat a msgs (followUpOptions a iteration) w1"
          by (cases "chat a msgs (followUpOptions a iteration) w1") simp
        from chat_effect [OF ch [symmetric]]
        have c2: "chats w2 = chats w1 @ [(msgs, followUpOptions a iteration)]"
          and i2: "invocations w2 = invocations w1"
          and crv: "cr = Chat (client a) (length (chats w1)) msgs (followUpOptions a iteration)"
          by simp_all
        have stop2: ?thesis if "chats w' = chats w2" "invocations w' = invocations w2"
          using that c1 c2 i1 i2 n by simp
        show ?thesis
        proof (cases cr)
          case (Inl err)
          with "1.prems"(1) step False ex [symmetric] eNone mInr ch [symmetric]
          have "w' = w2" by simp
          then show ?thesis by (intro stop2) simp_all
        next
          case (Inr response)
          note cInr = Inr
          from k crv cInr have lk: "length (Message.ToolCalls (ChatResponse.Message response)) \<le> k"
            by metis
          obtain e3 w3 where ad: "(e3, w3) = memoryAdd a (ChatResponse.Message response) w2"
            by (cases "memoryAdd a (ChatResponse.Message response) w2") simp
          from memoryAdd_effect [OF ad [symmetric]]
          have c3: "chats w3 = chats w2" and i3: "invocations w3 = invocations w2"
            by simp_all
          show ?thesis
          proof (cases e3)
            case (Some err)
            with "1.prems"(1) step False ex [symmetric] eNone mInr ch [symmetric] cInr ad [symmetric]
            have "w' = w3" by simp
            with c3 i3 show ?thesis by (intro stop2) simp_all
          next
            case None
            note aNone = None
            show ?thesis
            proof (cases "0 < length (Message.ToolCalls (ChatResponse.Message response))")
              case False
              with "1.prems"(1) step \<open>\<not> maxTotalIterations a \<le> iteration\<close>
                ex [symmetric] eNone mInr ch [symmetric] cInr ad [symmetric] aNone
              have "w' = w3" by simp
              with c3 i3 show ?thesis by (intro stop2) simp_all
            next
              case True
              with "1.prems"(1) step \<open>\<not> maxTotalIterations a \<le> iteration\<close>
                ex [symmetric] eNone mInr ch [symmetric] cInr ad [symmetric] aNone
              have rec: "handleToolCallsWithLimit a
                           (Message.ToolCalls (ChatResponse.Message response)) (iteration + 1) w3
                         = (res, w')" by simp
              from "1.IH" [OF \<open>\<not> maxTotalIterations a \<le> iteration\<close> ex eNone mInr ch cInr ad aNone
                              True rec lk k]
              have "length (chats w') \<le> length (chats w3) + nat (maxTotalIterations a - (iteration + 1))"
                and "length (invocations w')
                       \<le> length (invocations w3) + nat (maxTotalIterations a - (iteration + 1)) * k"
                by simp_all
              with c1 c2 c3 i1 i2 i3 n show ?thesis by simp
            qed
          qed
        qed
      qed
    qed
  qed
qed

lemma handleToolCallsWithLimit_trace:
  "handleToolCallsWithLimit a tcs i w = (res, w') \<Longrightarrow>
     \<exists>new. chats w' = chats w @ new
       \<and> (\<forall>j<length new. snd (new ! j) = followUpOptions a (i + int j))"
proof (induction a tcs i w arbitrary: res w' rule: handleToolCallsWithLimit.induct)
  case (1 a toolCalls iteration w)
  note step = handleToolCallsWithLimit.simps [of a toolCalls iteration w]
  have stop0: ?case if "chats w' = chats w"
    using that by simp
  show ?case
  proof (cases "maxTotalIterations a \<le> iteration")
    case True
    with "1.prems"(1) step have "w' = w" by simp
    then show ?thesis by (intro stop0) simp
  next
    case False
    obtain e w1 where ex: "(e, w1) = executeToolCalls a toolCalls w"
      by (cases "executeToolCalls a toolCalls w") simp
    from executeToolCalls_effect [OF ex [symmetric]]
    have c1: "chats w1 = chats w" by simp
    show ?thesis
    proof (cases e)
      case (Some err)
      with "1.prems"(1) step False ex [symmetric] have "w' = w1" by simp
      with c1 show ?thesis by (intro stop0) simp
    next
      case None
      note eNone = None
      show ?thesis
      proof (cases "Messages (memory a) (store w1)")
        case (Inl err)
        with "1.prems"(1) step False ex [symmetric] eNone have "w' = w1" by simp
        with c1 show ?thesis by (intro stop0) simp
      next
        case (Inr msgs)
        note mInr = Inr
        obtain cr w2 where ch: "(cr, w2) = chat a msgs (followUpOptions a iteration) w1"
          by (cases "chat a msgs (followUpOptions a iteration) w1") simp
        from chat_effect [OF ch [symmetric]] c1
        have c2: "chats w2 = chats w @ [(msgs, followUpOptions a iteration)]"
          by simp
        have stop2: ?thesis if "chats w' = chats w2"
        proof -
          from that c2 have "chats w' = chats w @ [(msgs, followUpOptions a iteration)]" by simp
          moreover have "\<forall>j<length [(msgs, followUpOptions a iteration)].
              snd ([(msgs, followUpOptions a iteration)] ! j) = followUpOptions a (iteration + int j)"
            by simp
          ultimately show ?thesis by blast
        qed
        show ?thesis
        proof (cases cr)
          case (Inl err)
          with "1.prems"(1) step False ex [symmetric] eNone mInr ch [symmetric]
          have "w' = w2" by simp
          then show ?thesis by (intro stop2) simp
        next
          case (Inr response)
          note cInr = Inr
          obtain e3 w3 where ad: "(e3, w3) = memoryAdd a (ChatResponse.Message response) w2"
            by (cases "memoryAdd a (ChatResponse.Message response) w2") simp
          from memoryAdd_effect [OF ad [symmetric]]
          have c3: "chats w3 = chats w2" by simp
          show ?thesis
          proof (cases e3)
            case (Some err)
            with "1.prems"(1) step False ex [symmetric] eNone mInr ch [symmetric] cInr ad [symmetric]
            have "w' = w3" by simp
            with c3 show ?thesis by (intro stop2) simp
          next
            case None
            note aNone = None
            show ?thesis
            proof (cases "0 < length (Message.ToolCalls (ChatResponse.Message response))")
              case False
              with "1.prems"(1) step \<open>\<not> maxTotalIterations a \<le> iteration\<close>
                ex [symmetric] eNone mInr ch [symmetric] cInr ad [symmetric] aNone
              have "w' = w3" by simp
              with c3 show ?thesis by (intro stop2) simp
            next
              case True
              with "1.prems"(1) step \<open>\<not> maxTotalIterations a \<le> iteration\<close>
                ex [symmetric] eNone mInr ch [symmetric] cInr ad [symmetric] aNone
              have rec: "handleToolCallsWithLimit a
                           (Message.ToolCalls (ChatResponse.Message response)) (iteration + 1) w3
                         = (res, w')" by simp
              from "1.IH" [OF \<open>\<not> maxTotalIterations a \<le> iteration\<close> ex eNone mInr ch cInr ad aNone
                              True rec]
              obtain new where n1: "chats w' = chats w3 @ new"
                and n2: "\<And>j. j < length new \<Longrightarrow> snd (new ! j) = followUpOptions a (iteration + 1 + int j)"
                by blast
              let ?new = "(msgs, followUpOptions a iteration) # new"
              from n1 c3 c2 have "chats w' = chats w @ ?new" by simp
              moreover have "snd (?new ! j) = followUpOptions a (iteration + int j)"
                if "j < length ?new" for j
              proof (cases j)
                case 0
                then show ?thesis by simp
              next
                case (Suc j0)
                with that n2 [of j0] show ?thesis by (simp add: add.assoc)
              qed
              ultimately show ?thesis by blast
            qed
          qed
        qed
      qed
    qed
  qed
qed

text \<open>The run of the scenario, one iteration at a time.\<close>

lemma example_agent_fields:
  "client example_agent = example_client" "tools example_agent = Some example_tools"
  "memory example_agent = BufferMemory_interface" "options example_agent = []"
  "maxAutoIterations example_agent = 2" "maxTotalIterations example_agent = 5"
  by (simp_all add: example_agent_def New_def Agent_WithTools_def
          WithMaxAutoIterations_def WithMaxTotalIterations_def)

lemma example_memoryAdd:
  "memoryAdd example_agent msg w = (None, w\<lparr>store := snd (BufferMemory_Add msg (store w))\<rparr>)"
  by (simp add: memoryAdd_def example_agent_fields BufferMemory_interface_def BufferMemory_Add_def Let_def)

lemma example_execute:
  "executeToolCalls example_agent [example_call] w
     = (None, w\<lparr>invocations := invocations w @ [example_call],
                store := snd (BufferMemory_Add
                   \<lparr>Message.Role = ''tool'', Message.Content = ''ok'',
                    Message.ToolCalls = [], Message.ToolCallID = ''call-1''\<rparr> (store w))\<rparr>)"
  by (simp add: example_agent_fields(2) example_memoryAdd example_tools_def example_call_def)

lemma example_followUp:
  "followUpOptions example_agent i
     = [WithTools (GetTools example_tools), WithToolChoice (if i < 2 then ''auto'' else ''none'')]"
  by (simp add: followUpOptions_def example_agent_fields example_tools_def Let_def)

lemma example_chat:
  "chat example_agent msgs [WithTools ts, WithToolChoice c] w
     = (Inr (if c = ''none''
             then \<lparr>ChatResponse.Message =
                     \<lparr>Message.Role = ''assistant'', Message.Content = ''done'',
                      Message.ToolCalls = [], Message.ToolCallID = ''''\<rparr>,
                   Usage = ANil\<rparr>
             else \<lparr>ChatResponse.Message =
                     \<lparr>Message.Role = ''assistant'', Message.Content = '''',
                      Message.ToolCalls = [example_call], Message.ToolCallID = ''''\<rparr>,
                   Usage = ANil\<rparr>),
        w\<lparr>chats := chats w @ [(msgs, [WithTools ts, WithToolChoice c])]\<rparr>)"
  by (simp add: chat_def example_agent_fields example_client_def)

lemma example_Messages:
  "Messages (memory example_agent) s = Inr (projr (BufferMemory_Messages s))"
  by (simp add: example_agent_fields BufferMemory_interface_def BufferMemory_Messages_def)

lemma example_iteration_auto:
  assumes "i < 2"
  shows "\<exists>w3. handleToolCallsWithLimit example_agent [example_call] i w
               = handleToolCallsWithLimit example_agent [example_call] (i + 1) w3
           \<and> length (chats w3) = length (chats w) + 1
           \<and> length (invocations w3) = length (invocations w) + 1"
  apply (subst handleToolCallsWithLimit.simps)
  using assms
  apply (simp add: example_execute example_followUp example_chat example_memoryAdd
        example_Messages example_agent_fields(6)
        del: executeToolCalls.simps)
  apply (rule exI)
  apply (rule conjI)
   apply (rule refl)
  apply simp
  done

lemma example_iteration_none:
  "\<exists>w3. handleToolCallsWithLimit example_agent [example_call] 2 w = (Inr ''done'', w3)
           \<and> length (chats w3) = length (chats w) + 1
           \<and> length (invocations w3) = length (invocations w) + 1"
  apply (subst handleToolCallsWithLimit.simps)
  apply (simp add: example_execute example_followUp example_chat example_memoryAdd
        example_Messages example_agent_fields(6)
        del: executeToolCalls.simps)
  done

lemma example_loop:
  "\<exists>w3. handleToolCallsWithLimit example_agent [example_call] 0 w = (Inr ''done'', w3)
           \<and> length (chats w3) = length (chats w) + 3
           \<and> length (invocations w3) = length (invocations w) + 3"
proof -
  from example_iteration_auto [of 0 w] obtain w1 where
    s1: "handleToolCallsWithLimit example_agent [example_call] 0 w
           = handleToolCallsWithLimit example_agent [example_call] 1 w1"
    and l1: "length (chats w1) = length (chats w) + 1"
            "length (invocations w1) = length (invocations w) + 1" by auto
  from example_iteration_auto [of 1 w1] obtain w2 where
    s2: "handleToolCallsWithLimit example_agent [example_call] 1 w1
           = handleToolCallsWithLimit example_agent [example_call] 2 w2"
    and l2: "length (chats w2) = length (chats w1) + 1"
            "length (invocations w2) = length (invocations w1) + 1" by auto
  from example_iteration_none [of w2] obtain w3 where
    s3: "handleToolCallsWithLimit example_agent [example_call] 2 w2 = (Inr ''done'', w3)"
    and l3: "length (chats w3) = length (chats w2) + 1"
            "length (invocations w3) = length (invocations w2) + 1" by auto
  from s1 s2 s3 l1 l2 l3 show ?thesis by simp
qed

lemma example_run:
  "\<exists>w1. Run example_agent ''hi'' example_world
           = handleToolCallsWithLimit example_agent [example_call] 0 w1
      \<and> length (chats w1) = 1 \<and> invocations w1 = []"
  apply (simp add: Run_def handleToolCalls_def example_agent_fields(2,4) example_memoryAdd
      example_Messages example_tools_def)
  apply (simp add: chat_def example_client_def example_agent_fields(1))
  apply (simp add: example_memoryAdd handleToolCalls_def example_agent_fields(2))
  apply (rule exI)
  apply (rule conjI)
   apply (rule refl)
  apply (simp add: example_world_def)
  done

text \<open>
  Claim C2. Whatever the user input and whatever the language model answers, a Run makes at
  most maxTotalIterations + 1 calls to the language model and, when no response carries
  more than toolsPerCall tool calls, at most (maxTotalIterations + 1) * toolsPerCall tool
  invocations, and then returns a text or an error. (A negative maxTotalIterations counts
  as zero: the first call is made before the limit is looked at.) The recursion of
  handleToolCallsWithLimit is well-founded on maxTotalIterations - iteration, which is how
  the function is defined here: every Run has a result.
\<close>

theorem Run_call_bounds:
  assumes "\<forall>n msgs opts r. Chat (client a) n msgs opts = Inr r \<longrightarrow>
                length (Message.ToolCalls (ChatResponse.Message r)) \<le> toolsPerCall"
    and "Run a userInput w = (res, w')"
  shows "length (chats w') \<le> length (chats w) + (nat (maxTotalIterations a) + 1)
     \<and> length (invocations w') \<le> length (invocations w) + (nat (maxTotalIterations a) + 1) * toolsPerCall"
proof -
  note run = assms(2) [unfolded Run_def]
  obtain e1 w1 where a1: "memoryAdd a (NewUserMessage userInput) w = (e1, w1)"
    by (cases "memoryAdd a (NewUserMessage userInput) w") simp
  from memoryAdd_effect [OF a1] have c1: "chats w1 = chats w" and i1: "invocations w1 = invocations w"
    by simp_all
  have stop1: ?thesis if "w' = w1" using that c1 i1 by simp
  show ?thesis
  proof (cases e1)
    case (Some err)
    with run a1 have "w' = w1" by simp
    then show ?thesis by (rule stop1)
  next
    case None
    note e1None = None
    show ?thesis
    proof (cases "Messages (memory a) (store w1)")
      case (Inl err)
      with run a1 e1None have "w' = w1" by simp
      then show ?thesis by (rule stop1)
    next
      case (Inr msgs)
      note mInr = Inr
      define opts where "opts = (case tools a of
                              None \<Rightarrow> options a
                            | Some t \<Rightarrow>
                                if length (GetTools t) > 0
                                then options a @ [WithTools (GetTools t)]
                                else options a)"
      obtain cr w2 where ch: "chat a msgs opts w1 = (cr, w2)"
        by (cases "chat a msgs opts w1") simp
      from chat_effect [OF ch] c1 i1
      have c2: "length (chats w2) = length (chats w) + 1" and i2: "invocations w2 = invocations w"
        and crv: "cr = Chat (client a) (length (chats w1)) msgs opts"
        by simp_all
      have stop2: ?thesis if "chats w' = chats w2" "invocations w' = invocations w2"
        using that c2 i2 by simp
      show ?thesis
      proof (cases cr)
        case (Inl err)
        with run a1 e1None mInr ch [unfolded opts_def] have "w' = w2" by (simp add: Let_def)
        then show ?thesis by (intro stop2) simp_all
      next
        case (Inr response)
        note cInr = Inr
        from assms(1) crv cInr have lk: "length (Message.ToolCalls (ChatResponse.Message response)) \<le> toolsPerCall"
          by metis
        obtain e3 w3 where ad: "memoryAdd a (ChatResponse.Message response) w2 = (e3, w3)"
          by (cases "memoryAdd a (ChatResponse.Message response) w2") simp
        from memoryAdd_effect [OF ad]
        have c3: "chats w3 = chats w2" and i3: "invocations w3 = invocations w2"
          by simp_all
        show ?thesis
        proof (cases e3)
          case (Some err)
          with run a1 e1None mInr ch [unfolded opts_def] cInr ad have "w' = w3" by (simp add: Let_def)
          with c3 i3 show ?thesis by (intro stop2) simp_all
        next
          case None
          note e3None = None
          show ?thesis
          proof (cases "length (Message.ToolCalls (ChatResponse.Message response)) > 0 \<and> tools a \<noteq> None")
            case False
            with run a1 e1None mInr ch [unfolded opts_def] cInr ad e3None
            have "w' = w3" by (auto simp: Let_def)
            with c3 i3 show ?thesis by (intro stop2) simp_all
          next
            case True
            with run a1 e1None mInr ch [unfolded opts_def] cInr ad e3None
            have "handleToolCallsWithLimit a (Message.ToolCalls (ChatResponse.Message response)) 0 w3
                    = (res, w')"
              by (auto simp: Let_def handleToolCalls_def)
            from handleToolCallsWithLimit_bounds [OF assms(1) this lk]
            have "length (chats w') \<le> length (chats w3) + nat (maxTotalIterations a)"
              and "length (invocations w')
                     \<le> length (invocations w3) + nat (maxTotalIterations a) * toolsPerCall"
              by simp_all
            with c2 c3 i2 i3 show ?thesis by simp
          qed
        qed
      qed
    qed
  qed
qed

theorem Run_call_bounds_witness:
  "length (chats (snd (Run example_agent ''hi'' example_world))) \<le> 6
   \<and> length (invocations (snd (Run example_agent ''hi'' example_world))) \<le> 6
   \<and> fst (Run example_agent ''hi'' example_world) = Inr ''done''"
proof -
  have h1: "\<forall>n msgs opts r. Chat (client example_agent) n msgs opts = Inr r \<longrightarrow>
                length (Message.ToolCalls (ChatResponse.Message r)) \<le> 1"
    by (auto simp: example_agent_def example_client_def New_def Agent_WithTools_def
          WithMaxAutoIterations_def WithMaxTotalIterations_def)
  have h2: "Run example_agent ''hi'' example_world
              = (fst (Run example_agent ''hi'' example_world), snd (Run example_agent ''hi'' example_world))"
    by simp
  note m = example_agent_fields(6)
  have w: "chats example_world = []" "invocations example_world = []"
    by (simp_all add: example_world_def)
  have r: "fst (Run example_agent ''hi'' example_world) = Inr ''done''"
  proof -
    from example_run obtain w1 where
      "Run example_agent ''hi'' example_world
         = handleToolCallsWithLimit example_agent [example_call] 0 w1" by blast
    moreover from example_loop [of w1] obtain w3 where
      "handleToolCallsWithLimit example_agent [example_call] 0 w1 = (Inr ''done'', w3)" by blast
    ultimately show ?thesis by simp
  qed
  from Run_call_bounds [OF h1 h2] r show ?thesis by (simp add: m w)
qed

text \<open>
  Claim C4. With tools configured and a non-empty tool list, the follow-up calls made from
  iteration i on are, in order, those of iterations i, i + 1, ...; the call of an iteration
  below maxAutoIterations carries tool choice auto, the call of any later iteration tool
  choice none (after the agent's own options and the tool list).
\<close>

theorem follow_up_tool_choice:
  assumes "tools a = Some t" and "GetTools t \<noteq> []"
    and "handleToolCallsWithLimit a toolCalls i w = (res, w')"
  shows "\<exists>new. chats w' = chats w @ new
     \<and> (\<forall>j<length new.
            snd (new ! j)
              = options a @ [WithTools (GetTools t),
                             WithToolChoice (if i + int j < maxAutoIterations a
                                             then ''auto'' else ''none'')])"
proof -
  from handleToolCallsWithLimit_trace [OF assms(3)] obtain new where
    n1: "chats w' = chats w @ new"
    and n2: "\<And>j. j < length new \<Longrightarrow> snd (new ! j) = followUpOptions a (i + int j)"
    by blast
  have "followUpOptions a x
          = options a @ [WithTools (GetTools t),
                         WithToolChoice (if x < maxAutoIterations a then ''auto'' else ''none'')]"
    for x
    using assms(1,2) by (simp add: followUpOptions_def Let_def)
  with n1 n2 show ?thesis by auto
qed

theorem follow_up_tool_choice_witness:
  "map snd (chats (snd (handleToolCallsWithLimit example_agent [example_call] 0 example_world)))
     = [[WithTools (GetTools example_tools), WithToolChoice ''auto''],
        [WithTools (GetTools example_tools), WithToolChoice ''auto''],
        [WithTools (GetTools example_tools), WithToolChoice ''none'']]"
proof -
  let ?w' = "snd (handleToolCallsWithLimit example_agent [example_call] 0 example_world)"
  have h1: "tools example_agent = Some example_tools"
    by (simp add: example_agent_def New_def Agent_WithTools_def
          WithMaxAutoIterations_def WithMaxTotalIterations_def)
  have h2: "GetTools example_tools \<noteq> []"
    by (simp add: example_tools_def)
  have h3: "handleToolCallsWithLimit example_agent [example_call] 0 example_world
              = (fst (handleToolCallsWithLimit example_agent [example_call] 0 example_world), ?w')"
    by simp
  have o: "options example_agent = []" and m: "maxAutoIterations example_agent = 2"
    by (simp_all add: example_agent_def New_def Agent_WithTools_def
          WithMaxAutoIterations_def WithMaxTotalIterations_def)
  have len: "length (chats ?w') = 3"
  proof -
    from example_loop [of example_world] obtain w3 where
      "handleToolCallsWithLimit example_agent [example_call] 0 example_world = (Inr ''done'', w3)"
      and "length (chats w3) = length (chats example_world) + 3" by blast
    then show ?thesis by (simp add: example_world_def)
  qed
  from follow_up_tool_choice [OF h1 h2 h3] obtain new where
    n1: "chats ?w' = chats example_world @ new"
    and n2: "\<forall>j<length new.
            snd (new ! j)
              = options example_agent @ [WithTools (GetTools example_tools),
                             WithToolChoice (if 0 + int j < maxAutoIterations example_agent
                                             then ''auto'' else ''none'')]"
    by blast
  from n1 have new: "chats ?w' = new" by (simp add: example_world_def)
  with len have l3: "length new = 3" by simp
  from l3 obtain x y z where xyz: "new = [x, y, z]"
    by (auto simp: length_Suc_conv numeral_3_eq_3)
  from n2 [rule_format, of 0] n2 [rule_format, of 1] n2 [rule_format, of 2] l3
  have "snd (new ! 0) = [WithTools (GetTools example_tools), WithToolChoice ''auto'']"
    and "snd (new ! 1) = [WithTools (GetTools example_tools), WithToolChoice ''auto'']"
    and "snd (new ! 2) = [WithTools (GetTools example_tools), WithToolChoice ''none'']"
    by (simp_all add: o m)
  then have "map snd new = [[WithTools (GetTools example_tools), WithToolChoice ''auto''],
        [WithTools (GetTools example_tools), WithToolChoice ''auto''],
        [WithTools (GetTools example_tools), WithToolChoice ''none'']]"
    by (simp add: xyz)
  with new show ?thesis by simp
qed


section \<open>Context builder: a failing required provider\<close>

lemma executeProviders_run_total:
  assumes "\<forall>cfg \<in> set cfgs.
             (Condition cfg = [] \<or> evaluateCondition (Condition cfg) base) \<longrightarrow>
             ProviderClient_Get c (Provider.Name cfg) (providerParams cfg base) \<noteq> None"
  shows "\<exists>res failed errs.
           executeProviders_run c cfgs base r f e = Some (res, failed, errs)
           \<and> set f \<subseteq> set failed \<and> set e \<subseteq> set errs
           \<and> (\<forall>cfg \<in> set cfgs. \<forall>er.
                 (Condition cfg = [] \<or> evaluateCondition (Condition cfg) base)
                 \<and> \<not> Optional cfg
                 \<and> ProviderClient_Get c (Provider.Name cfg) (providerParams cfg base)
                     = Some (Inl er) \<longrightarrow>
                 Provider.Name cfg \<in> set failed \<and> er \<in> set errs)"
  using assms
proof (induction cfgs arbitrary: r f e)
  case Nil
  then show ?case by simp
next
  case (Cons cfg cfgs)
  let ?met = "Condition cfg = [] \<or> evaluateCondition (Condition cfg) base"
  let ?get = "ProviderClient_Get c (Provider.Name cfg) (providerParams cfg base)"
  from Cons.prems have rest: "\<forall>cfg \<in> set cfgs.
             (Condition cfg = [] \<or> evaluateCondition (Condition cfg) base) \<longrightarrow>
             ProviderClient_Get c (Provider.Name cfg) (providerParams cfg base) \<noteq> None"
    by simp
  note IH = Cons.IH [OF rest]
  show ?case
  proof (cases ?met)
    case False
    with IH [of r f e] show ?thesis by auto
  next
    case True
    with Cons.prems obtain out where out: "?get = Some out" by auto
    show ?thesis
    proof (cases out)
      case (Inr data)
      with True out IH [of "AList.update (Provider.Name cfg) data r" f e] show ?thesis by auto
    next
      case (Inl err)
      show ?thesis
      proof (cases "Optional cfg")
        case True
        with \<open>?met\<close> out Inl IH [of r f e] show ?thesis by auto
      next
        case False
        with \<open>?met\<close> out Inl IH [of r "f @ [Provider.Name cfg]" "e @ [err]"] show ?thesis
          by auto
      qed
    qed
  qed
qed


lemma executeProviders_run_results:
  assumes "executeProviders_run c cfgs base r f e = Some (res, failed, errs)"
    and "distinct (map Provider.Name cfgs)"
  shows "(\<forall>cfg \<in> set cfgs. \<forall>d.
            (Condition cfg = [] \<or> evaluateCondition (Condition cfg) base)
            \<and> ProviderClient_Get c (Provider.Name cfg) (providerParams cfg base) = Some (Inr d) \<longrightarrow>
            map_of res (Provider.Name cfg) = Some d)
       \<and> (\<forall>n. (\<forall>cfg \<in> set cfgs. Provider.Name cfg = n \<longrightarrow>
                  \<not> ((Condition cfg = [] \<or> evaluateCondition (Condition cfg) base)
                     \<and> (\<exists>d. ProviderClient_Get c (Provider.Name cfg) (providerParams cfg base)
                               = Some (Inr d)))) \<longrightarrow>
               map_of res n = map_of r n)"
  using assms
proof (induction cfgs arbitrary: r f e)
  case Nil
  then show ?case by simp
next
  case (Cons cfg cfgs)
  let ?met = "\<lambda>cfg. Condition cfg = [] \<or> evaluateCondition (Condition cfg) base"
  let ?get = "\<lambda>cfg. ProviderClient_Get c (Provider.Name cfg) (providerParams cfg base)"
  from Cons.prems(2) have dist: "distinct (map Provider.Name cfgs)"
    and fresh: "\<forall>x \<in> set cfgs. Provider.Name x \<noteq> Provider.Name cfg"
    by (auto simp: image_iff)
  from Cons.prems(1) obtain r1 f1 e1 where
    rest: "executeProviders_run c cfgs base r1 f1 e1 = Some (res, failed, errs)"
    and r1: "r1 = (if ?met cfg then (case ?get cfg of Some (Inr d) \<Rightarrow> AList.update (Provider.Name cfg) d r | _ \<Rightarrow> r)
                   else r)"
    by (auto split: if_splits option.splits sum.splits)
  note IH = Cons.IH [OF rest dist]
  from IH have hit: "\<And>x d. x \<in> set cfgs \<Longrightarrow> ?met x \<Longrightarrow> ?get x = Some (Inr d) \<Longrightarrow>
                        map_of res (Provider.Name x) = Some d"
    by blast
  from IH have frame: "\<And>n. (\<forall>x \<in> set cfgs. Provider.Name x = n \<longrightarrow>
                  \<not> (?met x \<and> (\<exists>d. ?get x = Some (Inr d)))) \<Longrightarrow> map_of res n = map_of r1 n"
    by blast
  have own: "map_of res (Provider.Name cfg) = map_of r1 (Provider.Name cfg)"
    using fresh by (intro frame) auto
  show ?case
  proof (intro conjI ballI allI impI)
    fix x d
    assume x: "x \<in> set (cfg # cfgs)"
      and ok: "?met x \<and> ?get x = Some (Inr d)"
    show "map_of res (Provider.Name x) = Some d"
    proof (cases "x = cfg")
      case True
      with ok r1 own show ?thesis by (auto simp: update_conv)
    next
      case False
      with x ok hit show ?thesis by auto
    qed
  next
    fix n
    assume none: "\<forall>x \<in> set (cfg # cfgs). Provider.Name x = n \<longrightarrow>
                  \<not> (?met x \<and> (\<exists>d. ?get x = Some (Inr d)))"
    then have "map_of res n = map_of r1 n" by (intro frame) auto
    moreover have "map_of r1 n = map_of r n"
    proof (cases "Provider.Name cfg = n")
      case True
      with none have "\<not> (?met cfg \<and> (\<exists>d. ?get cfg = Some (Inr d)))" by simp
      with r1 show ?thesis by (auto split: option.splits sum.splits)
    next
      case False
      with r1 show ?thesis by (auto simp: update_conv split: option.splits sum.splits)
    qed
    ultimately show "map_of res n = map_of r n" by simp
  qed
qed

lemma executeProviders_run_failed:
  assumes "executeProviders_run c cfgs base r f e = Some (res, failed, errs)"
  shows "set failed = set f \<union> Provider.Name `
            {cfg \<in> set cfgs. (Condition cfg = [] \<or> evaluateCondition (Condition cfg) base)
               \<and> \<not> Optional cfg
               \<and> (\<exists>er. ProviderClient_Get c (Provider.Name cfg) (providerParams cfg base)
                         = Some (Inl er))}"
  using assms
proof (induction cfgs arbitrary: r f e)
  case Nil
  then show ?case by simp
next
  case (Cons cfg cfgs)
  from Cons.prems Cons.IH show ?case
    by (auto split: if_splits option.splits sum.splits)
qed


lemma example_base_params:
  "buildProviderParams example_route_match None
     = [(''id'', AString ''42''), (''user_authenticated'', ABool False)]"
  by (simp add: buildProviderParams_def example_route_match_def)

lemma example_providerParams:
  "providerParams (example_provider_config n u) ps = ps"
  by (simp add: providerParams_def example_provider_config_def)

lemma example_product_url:
  "HTTPProvider_resolveTemplate example_getenv ''/p/{id}''
     [(''id'', AString ''42''), (''user_authenticated'', ABool False)] = Some ''/p/42''"
  by (simp add: HTTPProvider_resolveTemplate_def resolveEnvVars.simps Contains_def HasPrefix_def)

lemma example_reviews_url:
  "HTTPProvider_resolveTemplate example_getenv ''/r/{id}''
     [(''id'', AString ''42''), (''user_authenticated'', ABool False)] = Some ''/r/42''"
  by (simp add: HTTPProvider_resolveTemplate_def resolveEnvVars.simps Contains_def HasPrefix_def)

lemma example_status: "Itoa 500 = ''500''"
  by code_simp

lemma example_http_provider_fields:
  "name (example_http_provider n u) = n"
  "HTTPConfig.URL (config (example_http_provider n u)) = u"
  "HTTPConfig.Method (config (example_http_provider n u)) = ''GET''"
  "HTTPConfig.Headers (config (example_http_provider n u)) = []"
  "HTTPConfig.Body (config (example_http_provider n u)) = ANil"
  by (simp_all add: example_http_provider_def NewHTTPProvider_def Second_def)

lemma example_product_call:
  "HTTPProvider_GetContext example_externals (example_http_provider ''product'' ''/p/{id}'')
     [(''id'', AString ''42''), (''user_authenticated'', ABool False)]
   = Some (Inl example_product_failure)"
  by (simp add: HTTPProvider_GetContext_def HTTPProvider_request_def HTTPProvider_execute_def
        example_http_provider_fields example_product_url example_status
        example_externals_def example_product_failure_def)

lemma example_reviews_call:
  "HTTPProvider_GetContext example_externals (example_http_provider ''reviews'' ''/r/{id}'')
     [(''id'', AString ''42''), (''user_authenticated'', ABool False)]
   = Some (Inr (AString ''ok''))"
  by (simp add: HTTPProvider_GetContext_def HTTPProvider_request_def HTTPProvider_execute_def
        example_http_provider_fields example_reviews_url example_externals_def)

lemma example_createProvider:
  "u \<noteq> [] \<Longrightarrow> createProvider example_externals (example_provider_config n u)
     = Inr (HTTPProvider_interface example_externals (example_http_provider n u))"
  by (simp add: createProvider_def createHTTPProvider_def example_provider_config_def
        example_http_provider_def)

lemma example_providers_of_route:
  "Providers (Route.Context example_product_route)
     = [example_provider_config ''product'' ''/p/{id}'',
        example_provider_config ''reviews'' ''/r/{id}'']"
  by (simp add: example_product_route_def)

lemma example_load:
  "LoadFromRouteConfig example_externals (Some example_product_route)
     = Inr example_provider_client"
  by (simp add: LoadFromRouteConfig_def example_providers_of_route example_createProvider
        example_provider_client_def)

lemma example_provider_config_fields:
  "Provider.Name (example_provider_config n u) = n"
  "Condition (example_provider_config n u) = []"
  "Optional (example_provider_config n u) = False"
  by (simp_all add: example_provider_config_def)

lemma example_get_product:
  "ProviderClient_Get example_provider_client ''product''
     [(''id'', AString ''42''), (''user_authenticated'', ABool False)]
   = Some (Inl example_product_failure)"
  by (simp add: ProviderClient_Get_def example_provider_client_def NewProviderClient_def
        HTTPProvider_interface_def example_http_provider_fields example_product_call)

lemma example_get_reviews:
  "ProviderClient_Get example_provider_client ''reviews''
     [(''id'', AString ''42''), (''user_authenticated'', ABool False)]
   = Some (Inr (AString ''ok''))"
  by (simp add: ProviderClient_Get_def example_provider_client_def NewProviderClient_def
        HTTPProvider_interface_def example_http_provider_fields example_reviews_call)

lemma example_executeProviders:
  "executeProviders example_provider_client (Providers (Route.Context example_product_route))
     (buildProviderParams example_route_match None)
   = Some ([(''reviews'', AString ''ok'')],
           Some (MultipleProvidersFailed [''product''] [example_product_failure]))"
  by (simp add: executeProviders_def example_providers_of_route example_base_params
        example_provider_config_fields example_providerParams example_get_product
        example_get_reviews)

text \<open>
  Claim C1, as stated, at the route \<open>product\<close>: both its providers are required, the
  call of the first returns an error (status 500), executeProviders returns the map of
  the other provider together with the multi-provider-failed error, and Build returns
  the full context with that map as backend, and no error.
\<close>

theorem Build_required_provider_fails_counterexample:
  "LoadFromRouteConfig example_externals (Some example_product_route)
     = Inr example_provider_client
   \<and> Optional (example_provider_config ''product'' ''/p/{id}'') = False
   \<and> ProviderClient_Get example_provider_client ''product''
       (providerParams (example_provider_config ''product'' ''/p/{id}'')
          (buildProviderParams example_route_match None))
     = Some (Inl example_product_failure)
   \<and> executeProviders example_provider_client (Providers (Route.Context example_product_route))
       (buildProviderParams example_route_match None)
     = Some ([(''reviews'', AString ''ok'')],
             Some (MultipleProvidersFailed [''product''] [example_product_failure]))
   \<and> Build example_externals (Some example_route_match) None None
     = Some (Inr example_full_context)"
proof -
  have "Build example_externals (Some example_route_match) None None
     = Some (Inr example_full_context)"
    using example_load example_executeProviders
    by (simp add: Build_def example_route_match_def [symmetric])
       (simp add: example_route_match_def example_product_route_def example_full_context_def
          extractToolNames_def)
  moreover have "ProviderClient_Get example_provider_client ''product''
       (providerParams (example_provider_config ''product'' ''/p/{id}'')
          (buildProviderParams example_route_match None))
     = Some (Inl example_product_failure)"
    by (simp add: example_providerParams example_base_params example_get_product)
  ultimately show ?thesis
    using example_load example_executeProviders
    by (simp add: example_provider_config_fields)
qed

text \<open>
  Claim C1, amended. Let the route of the match load its providers, let every provider
  whose condition holds return from its call, and let one of them, not optional, return
  an error. Then executeProviders returns the aggregated backend map together with a
  multi-provider-failed error: the error names exactly the providers that were run, are
  not optional and returned an error (this one among them, with its error), and, the
  providers of the route having distinct names, the map holds under a name exactly what
  a provider of that name that was run returned without error. Build logs the error and
  returns the full context with that map as backend, and no error: the build succeeds
  with the partial context.
\<close>

theorem Build_keeps_partial_context:
  assumes route: "RouteMatch.Route rm = Some r"
    and load: "LoadFromRouteConfig x (Some r) = Inr c"
    and returns: "\<forall>cfg \<in> set (Providers (Route.Context r)).
             (Condition cfg = [] \<or> evaluateCondition (Condition cfg) (buildProviderParams rm user)) \<longrightarrow>
             ProviderClient_Get c (Provider.Name cfg)
               (providerParams cfg (buildProviderParams rm user)) \<noteq> None"
    and cfg: "cfg \<in> set (Providers (Route.Context r))"
    and met: "Condition cfg = [] \<or> evaluateCondition (Condition cfg) (buildProviderParams rm user)"
    and required: "\<not> Optional cfg"
    and fails: "ProviderClient_Get c (Provider.Name cfg)
                  (providerParams cfg (buildProviderParams rm user)) = Some (Inl err)"
  shows "\<exists>backend failed errs.
           executeProviders c (Providers (Route.Context r)) (buildProviderParams rm user)
             = Some (backend, Some (MultipleProvidersFailed failed errs))
           \<and> Provider.Name cfg \<in> set failed \<and> err \<in> set errs
           \<and> (\<forall>n. n \<in> set failed \<longleftrightarrow>
                  (\<exists>p \<in> set (Providers (Route.Context r)).
                     Provider.Name p = n
                     \<and> (Condition p = []
                          \<or> evaluateCondition (Condition p) (buildProviderParams rm user))
                     \<and> \<not> Optional p
                     \<and> (\<exists>er. ProviderClient_Get c (Provider.Name p)
                                 (providerParams p (buildProviderParams rm user))
                               = Some (Inl er))))
           \<and> (distinct (map Provider.Name (Providers (Route.Context r))) \<longrightarrow>
                (\<forall>n d. map_of backend n = Some d \<longleftrightarrow>
                   (\<exists>p \<in> set (Providers (Route.Context r)).
                      Provider.Name p = n
                      \<and> (Condition p = []
                           \<or> evaluateCondition (Condition p) (buildProviderParams rm user))
                      \<and> ProviderClient_Get c (Provider.Name p)
                           (providerParams p (buildProviderParams rm user))
                         = Some (Inr d))))
           \<and> Build x (Some rm) frontend user
             = Some (Inr \<lparr>FullContext.Route =
                            \<lparr>Path = Route.Pattern r, Name = Route.Name r,
                             Params = RouteMatch.Params rm, Query = RouteMatch.Query rm\<rparr>,
                          User = user, Frontend = frontend, Backend = backend,
                          Instructions = AgentInstructions r,
                          AvailableTools = extractToolNames (Tools r)\<rparr>)"
proof -
  let ?base = "buildProviderParams rm user"
  let ?ps = "Providers (Route.Context r)"
  let ?met = "\<lambda>p. Condition p = [] \<or> evaluateCondition (Condition p) ?base"
  let ?get = "\<lambda>p. ProviderClient_Get c (Provider.Name p) (providerParams p ?base)"
  from executeProviders_run_total [OF returns, of "[]" "[]" "[]"]
  obtain res failed errs where
    run: "executeProviders_run c ?ps ?base [] [] [] = Some (res, failed, errs)"
    and all: "\<forall>cfg \<in> set ?ps. \<forall>er.
                 ?met cfg \<and> \<not> Optional cfg \<and> ?get cfg = Some (Inl er) \<longrightarrow>
                 Provider.Name cfg \<in> set failed \<and> er \<in> set errs"
    by blast
  from all cfg met required fails have mem: "Provider.Name cfg \<in> set failed" "err \<in> set errs"
    by blast+
  then have "errs \<noteq> []" by auto
  with run have ex: "executeProviders c ?ps ?base
      = Some (res, Some (MultipleProvidersFailed failed errs))"
    by (simp add: executeProviders_def)
  with route load have build: "Build x (Some rm) frontend user
             = Some (Inr \<lparr>FullContext.Route =
                            \<lparr>Path = Route.Pattern r, Name = Route.Name r,
                             Params = RouteMatch.Params rm, Query = RouteMatch.Query rm\<rparr>,
                          User = user, Frontend = frontend, Backend = res,
                          Instructions = AgentInstructions r,
                          AvailableTools = extractToolNames (Tools r)\<rparr>)"
    by (simp add: Build_def Let_def)
  have names: "n \<in> set failed \<longleftrightarrow>
      (\<exists>p \<in> set ?ps. Provider.Name p = n \<and> ?met p \<and> \<not> Optional p
          \<and> (\<exists>er. ?get p = Some (Inl er)))" for n
    using executeProviders_run_failed [OF run] by (simp add: image_iff) blast
  have backend: "map_of res n = Some d \<longleftrightarrow>
      (\<exists>p \<in> set ?ps. Provider.Name p = n \<and> ?met p \<and> ?get p = Some (Inr d))"
    if dist: "distinct (map Provider.Name ?ps)" for n d
  proof
    assume "\<exists>p \<in> set ?ps. Provider.Name p = n \<and> ?met p \<and> ?get p = Some (Inr d)"
    with executeProviders_run_results [OF run dist] show "map_of res n = Some d" by blast
  next
    assume some: "map_of res n = Some d"
    have "\<exists>p \<in> set ?ps. Provider.Name p = n \<and> ?met p \<and> (\<exists>d'. ?get p = Some (Inr d'))"
    proof (rule ccontr)
      assume "\<not> ?thesis"
      then have "\<forall>p \<in> set ?ps. Provider.Name p = n \<longrightarrow> \<not> (?met p \<and> (\<exists>d'. ?get p = Some (Inr d')))"
        by blast
      with executeProviders_run_results [OF run dist] have "map_of res n = map_of [] n" by blast
      with some show False by simp
    qed
    then obtain p d' where p: "p \<in> set ?ps" "Provider.Name p = n" "?met p" "?get p = Some (Inr d')"
      by blast
    with executeProviders_run_results [OF run dist] have "map_of res n = Some d'" by blast
    with some have "d' = d" by simp
    with p show "\<exists>p \<in> set ?ps. Provider.Name p = n \<and> ?met p \<and> ?get p = Some (Inr d)" by blast
  qed
  show ?thesis
    apply (intro exI [of _ res] exI [of _ failed] exI [of _ errs] conjI)
         apply (rule ex)
        apply (rule mem(1))
       apply (rule mem(2))
      apply (intro allI, rule names)
     apply (intro impI allI, erule backend)
    apply (rule build)
    done
qed

theorem Build_keeps_partial_context_witness:
  "\<exists>backend failed errs.
     executeProviders example_provider_client (Providers (Route.Context example_product_route))
       (buildProviderParams example_route_match None)
       = Some (backend, Some (MultipleProvidersFailed failed errs))
     \<and> ''product'' \<in> set failed \<and> ''reviews'' \<notin> set failed
     \<and> example_product_failure \<in> set errs
     \<and> map_of backend ''reviews'' = Some (AString ''ok'')
     \<and> map_of backend ''product'' = None
     \<and> Build example_externals (Some example_route_match) None None
       = Some (Inr (example_full_context\<lparr>Backend := backend\<rparr>))"
proof -
  let ?base = "buildProviderParams example_route_match None"
  let ?product = "example_provider_config ''product'' ''/p/{id}''"
  let ?reviews = "example_provider_config ''reviews'' ''/r/{id}''"
  have gp: "ProviderClient_Get example_provider_client (Provider.Name ?product)
      (providerParams ?product ?base) = Some (Inl example_product_failure)"
    by (simp add: example_provider_config_fields example_providerParams example_base_params
          example_get_product)
  have gr: "ProviderClient_Get example_provider_client (Provider.Name ?reviews)
      (providerParams ?reviews ?base) = Some (Inr (AString ''ok''))"
    by (simp add: example_provider_config_fields example_providerParams example_base_params
          example_get_reviews)
  have ps: "Providers (Route.Context example_product_route) = [?product, ?reviews]"
    by (rule example_providers_of_route)
  have returns: "\<forall>cfg \<in> set (Providers (Route.Context example_product_route)).
          (Condition cfg = [] \<or> evaluateCondition (Condition cfg) ?base) \<longrightarrow>
          ProviderClient_Get example_provider_client (Provider.Name cfg)
            (providerParams cfg ?base) \<noteq> None"
    using gp gr by (simp add: ps)
  have route: "RouteMatch.Route example_route_match = Some example_product_route"
    by (simp add: example_route_match_def)
  have mem: "?product \<in> set (Providers (Route.Context example_product_route))"
    by (simp add: ps)
  have met: "Condition ?product = [] \<or> evaluateCondition (Condition ?product) ?base"
    by (simp add: example_provider_config_fields)
  have req: "\<not> Optional ?product"
    by (simp add: example_provider_config_fields)
  have dist: "distinct (map Provider.Name (Providers (Route.Context example_product_route)))"
    by (simp add: ps example_provider_config_fields)
  from Build_keeps_partial_context [OF route example_load returns mem met req gp, of None]
  obtain backend failed errs where
    ex: "executeProviders example_provider_client (Providers (Route.Context example_product_route))
           ?base = Some (backend, Some (MultipleProvidersFailed failed errs))"
    and f: "Provider.Name ?product \<in> set failed" "example_product_failure \<in> set errs"
    and names: "\<forall>n. n \<in> set failed \<longleftrightarrow>
                  (\<exists>p \<in> set (Providers (Route.Context example_product_route)).
                     Provider.Name p = n
                     \<and> (Condition p = [] \<or> evaluateCondition (Condition p) ?base)
                     \<and> \<not> Optional p
                     \<and> (\<exists>er. ProviderClient_Get example_provider_client (Provider.Name p)
                                 (providerParams p ?base) = Some (Inl er)))"
    and bmap: "distinct (map Provider.Name (Providers (Route.Context example_product_route))) \<longrightarrow>
                (\<forall>n d. map_of backend n = Some d \<longleftrightarrow>
                   (\<exists>p \<in> set (Providers (Route.Context example_product_route)).
                      Provider.Name p = n
                      \<and> (Condition p = [] \<or> evaluateCondition (Condition p) ?base)
                      \<and> ProviderClient_Get example_provider_client (Provider.Name p)
                           (providerParams p ?base) = Some (Inr d)))"
    and build: "Build example_externals (Some example_route_match) None None
             = Some (Inr \<lparr>FullContext.Route =
                            \<lparr>Path = Route.Pattern example_product_route,
                             Name = Route.Name example_product_route,
                             Params = RouteMatch.Params example_route_match,
                             Query = RouteMatch.Query example_route_match\<rparr>,
                          User = None, Frontend = None, Backend = backend,
                          Instructions = AgentInstructions example_product_route,
                          AvailableTools = extractToolNames (Tools example_product_route)\<rparr>)"
    by blast
  from bmap dist have b: "\<And>n d. map_of backend n = Some d \<longleftrightarrow>
                   (\<exists>p \<in> set [?product, ?reviews].
                      Provider.Name p = n
                      \<and> (Condition p = [] \<or> evaluateCondition (Condition p) ?base)
                      \<and> ProviderClient_Get example_provider_client (Provider.Name p)
                           (providerParams p ?base) = Some (Inr d))"
    by (simp only: ps)
  have r: "map_of backend ''reviews'' = Some (AString ''ok'')"
    using b [of "''reviews''" "AString ''ok''"] gr gp
    by (simp add: example_provider_config_fields)
  have "\<And>d. map_of backend ''product'' \<noteq> Some d"
    using b [of "''product''"] gr gp by (simp add: example_provider_config_fields)
  then have p: "map_of backend ''product'' = None" by (cases "map_of backend ''product''") auto
  from names have "''reviews'' \<in> set failed \<longleftrightarrow>
                  (\<exists>p \<in> set [?product, ?reviews].
                     Provider.Name p = ''reviews''
                     \<and> (Condition p = [] \<or> evaluateCondition (Condition p) ?base)
                     \<and> \<not> Optional p
                     \<and> (\<exists>er. ProviderClient_Get example_provider_client (Provider.Name p)
                                 (providerParams p ?base) = Some (Inl er)))"
    by (simp only: ps)
  with gr gp have nf: "''reviews'' \<notin> set failed"
    by (simp add: example_provider_config_fields)
  from build have build': "Build example_externals (Some example_route_match) None None
       = Some (Inr (example_full_context\<lparr>Backend := backend\<rparr>))"
    by (simp add: example_full_context_def example_route_match_def example_product_route_def
          extractToolNames_def)
  from f have "''product'' \<in> set failed" by (simp add: example_provider_config_fields)
  with ex f(2) r p nf build' show ?thesis by blast
qed


section \<open>Templates: single and double braces\<close>

lemma ReplaceAll_no_brace:
  "CHR ''{'' \<notin> set s \<Longrightarrow> ReplaceAll s (CHR ''{'' # r) new = s"
  by (induction s) (auto simp: HasPrefix_def)

lemma Index_no_brace:
  "CHR ''{'' \<notin> set s \<Longrightarrow> Index s (CHR ''{'' # r) = None"
  by (induction s) (auto simp: HasPrefix_def)

lemma ReplaceAll_skip:
  "CHR ''{'' \<notin> set pre \<Longrightarrow>
   ReplaceAll (pre @ x) (CHR ''{'' # r) new = pre @ ReplaceAll x (CHR ''{'' # r) new"
  by (induction pre) (auto simp: HasPrefix_def)

lemma Contains_skip:
  "CHR ''{'' \<notin> set pre \<Longrightarrow>
   Contains (pre @ x) (CHR ''{'' # r) = Contains x (CHR ''{'' # r)"
  by (induction pre) (auto simp: HasPrefix_def Contains_def)

lemma HasPrefix_before:
  "c \<notin> set p \<Longrightarrow> HasPrefix (a @ c # b) p \<Longrightarrow> HasPrefix a p"
proof (induction a arbitrary: p)
  case Nil
  then show ?case by (cases p) (auto simp: HasPrefix_def)
next
  case (Cons x a)
  then show ?case by (cases p) (auto simp: HasPrefix_def)
qed

lemma HasPrefix_append [simp]: "HasPrefix (p @ rest) p"
  by (simp add: HasPrefix_def)

lemma ReplaceAll_here:
  "ReplaceAll (CHR ''{'' # r @ rest) (CHR ''{'' # r) new = new @ ReplaceAll rest (CHR ''{'' # r) new"
  by (simp add: HasPrefix_def)

lemma ReplaceAll_not_here:
  "\<not> HasPrefix (c # cs) old \<Longrightarrow> ReplaceAll (c # cs) old new = c # ReplaceAll cs old new"
  by simp

lemma HasPrefix_name:
  "CHR ''}'' \<notin> set k \<Longrightarrow> CHR ''}'' \<notin> set k2 \<Longrightarrow>
   HasPrefix (k2 @ CHR ''}'' # rest) (k @ ''}'') \<longleftrightarrow> k = k2"
proof (induction k arbitrary: k2)
  case Nil
  then show ?case by (cases k2) (auto simp: HasPrefix_def)
next
  case (Cons a k)
  show ?case
  proof (cases k2)
    case Nil
    with Cons.prems show ?thesis by (auto simp: HasPrefix_def)
  next
    case (Cons b k2')
    with Cons.prems Cons.IH [of k2'] show ?thesis by (auto simp: HasPrefix_def)
  qed
qed

lemma HTTPProvider_replaceParams_untouched:
  "(\<And>k v. (k, v) \<in> set ps \<Longrightarrow> ReplaceAll s (''{'' @ k @ ''}'') (Sprint v) = s) \<Longrightarrow>
   HTTPProvider_replaceParams s ps = s"
  by (induction ps) (auto simp: Let_def)

lemma HTTPProvider_replaceParams_one:
  assumes "distinct (map fst ps)" and "(key, value) \<in> set ps"
    and "\<And>k v. (k, v) \<in> set ps \<Longrightarrow> k \<noteq> key \<Longrightarrow> ReplaceAll s0 (''{'' @ k @ ''}'') (Sprint v) = s0"
    and "\<And>k v. (k, v) \<in> set ps \<Longrightarrow> k \<noteq> key \<Longrightarrow> ReplaceAll s1 (''{'' @ k @ ''}'') (Sprint v) = s1"
    and "Contains s0 (''{'' @ key @ ''}'')"
    and "ReplaceAll s0 (''{'' @ key @ ''}'') (Sprint value) = s1"
  shows "HTTPProvider_replaceParams s0 ps = s1"
  using assms(1-4)
proof (induction ps)
  case Nil
  then show ?case by simp
next
  case (Cons kv ps)
  obtain k v where kv: "kv = (k, v)" by (cases kv)
  show ?case
  proof (cases "k = key")
    case True
    with Cons.prems(1,2) kv have v: "v = value"
      by (auto simp: image_iff)
    from True Cons.prems(1) kv have "\<And>k' v'. (k', v') \<in> set ps \<Longrightarrow> k' \<noteq> key"
      by (auto simp: image_iff)
    with Cons.prems(4) have "HTTPProvider_replaceParams s1 ps = s1"
      by (intro HTTPProvider_replaceParams_untouched) auto
    with True v kv assms(5,6) show ?thesis by (simp add: Let_def)
  next
    case False
    with Cons.prems(3) [of k v] kv have same: "ReplaceAll s0 (''{'' @ k @ ''}'') (Sprint v) = s0"
      by simp
    from False Cons.prems(2) kv have "(key, value) \<in> set ps" by auto
    with Cons.IH Cons.prems have "HTTPProvider_replaceParams s0 ps = s1" by auto
    with same kv show ?thesis by (simp add: Let_def)
  qed
qed


lemma resolveStringTemplate_keys_untouched:
  "(\<And>k v. (k, v) \<in> set ps \<Longrightarrow> ReplaceAll s (''{'' @ k @ ''}'') (Sprint v) = s) \<Longrightarrow>
   resolveStringTemplate_keys s ps = s"
  by (induction ps) auto

lemma resolveStringTemplate_keys_one:
  assumes "distinct (map fst ps)" and "(key, value) \<in> set ps"
    and "\<And>k v. (k, v) \<in> set ps \<Longrightarrow> k \<noteq> key \<Longrightarrow> ReplaceAll s0 (''{'' @ k @ ''}'') (Sprint v) = s0"
    and "\<And>k v. (k, v) \<in> set ps \<Longrightarrow> k \<noteq> key \<Longrightarrow> ReplaceAll s1 (''{'' @ k @ ''}'') (Sprint v) = s1"
    and "ReplaceAll s0 (''{'' @ key @ ''}'') (Sprint value) = s1"
  shows "resolveStringTemplate_keys s0 ps = s1"
  using assms(1-4)
proof (induction ps)
  case Nil
  then show ?case by simp
next
  case (Cons kv ps)
  obtain k v where kv: "kv = (k, v)" by (cases kv)
  show ?case
  proof (cases "k = key")
    case True
    with Cons.prems(1,2) kv have v: "v = value"
      by (auto simp: image_iff)
    from True Cons.prems(1) kv have "\<And>k' v'. (k', v') \<in> set ps \<Longrightarrow> k' \<noteq> key"
      by (auto simp: image_iff)
    with Cons.prems(4) have "resolveStringTemplate_keys s1 ps = s1"
      by (intro resolveStringTemplate_keys_untouched) auto
    with True v kv assms(5) show ?thesis by simp
  next
    case False
    with Cons.prems(3) [of k v] kv have same: "ReplaceAll s0 (''{'' @ k @ ''}'') (Sprint v) = s0"
      by simp
    from False Cons.prems(2) kv have "(key, value) \<in> set ps" by auto
    with Cons.IH Cons.prems have "resolveStringTemplate_keys s0 ps = s1" by auto
    with same kv show ?thesis by simp
  qed
qed

lemma resolveStringTemplate_routeParams_untouched:
  "(\<And>k v. (k, v) \<in> set ps \<Longrightarrow>
      ReplaceAll s (''{route.params.'' @ k @ ''}'') (Sprint v) = s) \<Longrightarrow>
   resolveStringTemplate_routeParams s ps = s"
  by (induction ps) auto


lemma single_brace_resolved:
  assumes keys: "\<forall>k \<in> fst ` set ps. CHR ''{'' \<notin> set k \<and> CHR ''}'' \<notin> set k"
    and dist: "distinct (map fst ps)"
    and key: "(key, value) \<in> set ps"
    and pre: "CHR ''{'' \<notin> set pre"
    and post: "CHR ''{'' \<notin> set post"
    and val: "CHR ''{'' \<notin> set (Sprint value)" "CHR ''}'' \<notin> set (Sprint value)"
  shows "HTTPProvider_resolveTemplate getenv (pre @ ''{'' @ key @ ''}'' @ post) ps
           = Some (pre @ Sprint value @ post)
       \<and> resolveStringTemplate (pre @ ''{'' @ key @ ''}'' @ post) ps
           = pre @ Sprint value @ post"
proof -
  let ?vs = "Sprint value"
  from keys key have kb: "CHR ''{'' \<notin> set key" "CHR ''}'' \<notin> set key"
    by (auto simp: image_iff)
  have others: "CHR ''{'' \<notin> set k \<and> CHR ''}'' \<notin> set k" if "(k, v) \<in> set ps" for k v
    using keys that by (auto simp: image_iff)
  \<comment> \<open>the single-brace placeholder\<close>
  let ?s0 = "pre @ ''{'' @ key @ ''}'' @ post"
  let ?s1 = "pre @ ?vs @ post"
  have a0: "ReplaceAll ?s0 (''{'' @ k @ ''}'') (Sprint v) = ?s0"
    if "(k, v) \<in> set ps" "k \<noteq> key" for k v
  proof -
    from others [OF that(1)] have kk: "CHR ''{'' \<notin> set k" "CHR ''}'' \<notin> set k" by simp_all
    from kk(2) kb(2) that(2) have "\<not> HasPrefix (key @ CHR ''}'' # post) (k @ ''}'')"
      by (simp add: HasPrefix_name)
    then have "\<not> HasPrefix (CHR ''{'' # key @ CHR ''}'' # post) (CHR ''{'' # k @ ''}'')"
      by (simp add: HasPrefix_def)
    then have "ReplaceAll (CHR ''{'' # key @ CHR ''}'' # post) (CHR ''{'' # k @ ''}'') (Sprint v)
                 = CHR ''{'' # ReplaceAll (key @ CHR ''}'' # post) (CHR ''{'' # k @ ''}'') (Sprint v)"
      by (rule ReplaceAll_not_here)
    also have "\<dots> = CHR ''{'' # key @ CHR ''}'' # post"
      using kb(1) post by (simp add: ReplaceAll_no_brace)
    finally show ?thesis using pre by (simp add: ReplaceAll_skip)
  qed
  have a1: "ReplaceAll ?s1 (''{'' @ k @ ''}'') (Sprint v) = ?s1" for k v
    using pre post val(1) by (simp add: ReplaceAll_no_brace)
  have c0: "Contains ?s0 (''{'' @ key @ ''}'')"
    using pre by (simp add: Contains_skip) (simp add: Contains_def HasPrefix_def)
  have r0: "ReplaceAll ?s0 (''{'' @ key @ ''}'') ?vs = ?s1"
  proof -
    have "ReplaceAll (CHR ''{'' # (key @ ''}'') @ post) (CHR ''{'' # key @ ''}'') ?vs
            = ?vs @ ReplaceAll post (CHR ''{'' # key @ ''}'') ?vs"
      by (rule ReplaceAll_here)
    then show ?thesis using pre post by (simp add: ReplaceAll_skip ReplaceAll_no_brace)
  qed
  have "HTTPProvider_replaceParams ?s0 ps = ?s1"
    by (rule HTTPProvider_replaceParams_one [OF dist key a0 a1 c0 r0])
  moreover have "resolveEnvVars getenv ?s1 = Some ?s1"
    using pre post val(1) by (subst resolveEnvVars.simps) (simp add: Index_no_brace)
  ultimately have provider: "HTTPProvider_resolveTemplate getenv ?s0 ps = Some ?s1"
    by (simp add: HTTPProvider_resolveTemplate_def)
  have "resolveStringTemplate_keys ?s0 ps = ?s1"
    by (rule resolveStringTemplate_keys_one [OF dist key a0 a1 r0])
  moreover have "resolveStringTemplate_routeParams ?s1 ps = ?s1"
    using pre post val(1)
    by (intro resolveStringTemplate_routeParams_untouched) (simp add: ReplaceAll_no_brace)
  ultimately have "resolveStringTemplate ?s0 ps = ?s1"
    by (simp add: resolveStringTemplate_def)
  with provider show ?thesis by simp
qed

lemma double_brace_resolved:
  assumes keys: "\<forall>k \<in> fst ` set ps. CHR ''{'' \<notin> set k \<and> CHR ''}'' \<notin> set k"
    and dist: "distinct (map fst ps)"
    and key: "(key, value) \<in> set ps"
    and pre: "CHR ''{'' \<notin> set pre"
    and post: "CHR ''{'' \<notin> set post"
    and val: "CHR ''{'' \<notin> set (Sprint value)" "CHR ''}'' \<notin> set (Sprint value)"
    and notkey: "Sprint value \<notin> fst ` set ps"
    and notenv: "\<not> HasPrefix (Sprint value) ''env.''"
    and notroute: "\<not> HasPrefix (Sprint value) ''route.params.''"
  shows "HTTPProvider_resolveTemplate getenv (pre @ ''{{'' @ key @ ''}}'' @ post) ps
           = Some (pre @ ''{'' @ Sprint value @ ''}'' @ post)
       \<and> resolveStringTemplate (pre @ ''{{'' @ key @ ''}}'' @ post) ps
           = pre @ ''{'' @ Sprint value @ ''}'' @ post"
proof -
  let ?vs = "Sprint value"
  from keys key have kb: "CHR ''{'' \<notin> set key" "CHR ''}'' \<notin> set key"
    by (auto simp: image_iff)
  have others: "CHR ''{'' \<notin> set k \<and> CHR ''}'' \<notin> set k" if "(k, v) \<in> set ps" for k v
    using keys that by (auto simp: image_iff)
  \<comment> \<open>the double-brace form\<close>
  let ?s0 = "pre @ ''{{'' @ key @ ''}}'' @ post"
  let ?s1 = "pre @ ''{'' @ ?vs @ ''}'' @ post"
  have tail: "ReplaceAll (CHR ''{'' # key @ CHR ''}'' # CHR ''}'' # post) (''{'' @ k @ ''}'') (Sprint v)
                = CHR ''{'' # key @ CHR ''}'' # CHR ''}'' # post"
    if "(k, v) \<in> set ps" "k \<noteq> key" for k v
  proof -
    from others [OF that(1)] have kk: "CHR ''{'' \<notin> set k" "CHR ''}'' \<notin> set k" by simp_all
    from kk(2) kb(2) that(2) have "\<not> HasPrefix (key @ CHR ''}'' # CHR ''}'' # post) (k @ ''}'')"
      by (simp add: HasPrefix_name)
    then have "\<not> HasPrefix (CHR ''{'' # key @ CHR ''}'' # CHR ''}'' # post) (CHR ''{'' # k @ ''}'')"
      by (simp add: HasPrefix_def)
    then have "ReplaceAll (CHR ''{'' # key @ CHR ''}'' # CHR ''}'' # post) (CHR ''{'' # k @ ''}'') (Sprint v)
                 = CHR ''{'' # ReplaceAll (key @ CHR ''}'' # CHR ''}'' # post) (CHR ''{'' # k @ ''}'') (Sprint v)"
      by (rule ReplaceAll_not_here)
    also have "\<dots> = CHR ''{'' # key @ CHR ''}'' # CHR ''}'' # post"
      using kb(1) post by (simp add: ReplaceAll_no_brace)
    finally show ?thesis by simp
  qed
  have a0: "ReplaceAll ?s0 (''{'' @ k @ ''}'') (Sprint v) = ?s0"
    if "(k, v) \<in> set ps" "k \<noteq> key" for k v
  proof -
    from others [OF that(1)] have kk: "CHR ''{'' \<notin> set k" by simp
    have "\<not> HasPrefix (CHR ''{'' # CHR ''{'' # key @ CHR ''}'' # CHR ''}'' # post) (CHR ''{'' # k @ ''}'')"
      using kk by (cases k) (auto simp: HasPrefix_def)
    then have "ReplaceAll (CHR ''{'' # CHR ''{'' # key @ CHR ''}'' # CHR ''}'' # post)
                 (CHR ''{'' # k @ ''}'') (Sprint v)
               = CHR ''{'' # ReplaceAll (CHR ''{'' # key @ CHR ''}'' # CHR ''}'' # post)
                   (CHR ''{'' # k @ ''}'') (Sprint v)"
      by (rule ReplaceAll_not_here)
    with tail [OF that] show ?thesis using pre by (simp add: ReplaceAll_skip)
  qed
  have a1g: "ReplaceAll ?s1 (''{'' @ k @ ''}'') new = ?s1"
    if "CHR ''}'' \<notin> set k" "k \<noteq> ?vs" for k new
  proof -
    from that val(2) have "\<not> HasPrefix (?vs @ CHR ''}'' # post) (k @ ''}'')"
      by (simp add: HasPrefix_name)
    then have "\<not> HasPrefix (CHR ''{'' # ?vs @ CHR ''}'' # post) (CHR ''{'' # k @ ''}'')"
      by (simp add: HasPrefix_def)
    then have "ReplaceAll (CHR ''{'' # ?vs @ CHR ''}'' # post) (CHR ''{'' # k @ ''}'') new
                 = CHR ''{'' # ReplaceAll (?vs @ CHR ''}'' # post) (CHR ''{'' # k @ ''}'') new"
      by (rule ReplaceAll_not_here)
    also have "\<dots> = CHR ''{'' # ?vs @ CHR ''}'' # post"
      using val(1) post by (simp add: ReplaceAll_no_brace)
    finally show ?thesis using pre by (simp add: ReplaceAll_skip)
  qed
  have a1: "ReplaceAll ?s1 (''{'' @ k @ ''}'') (Sprint v) = ?s1"
    if "(k, v) \<in> set ps" "k \<noteq> key" for k v
  proof -
    from others [OF that(1)] have "CHR ''}'' \<notin> set k" by simp
    moreover from that(1) notkey have "k \<noteq> ?vs" by (auto simp: image_iff)
    ultimately show ?thesis by (rule a1g)
  qed
  have a2: "ReplaceAll ?s1 (''{route.params.'' @ k @ ''}'') (Sprint v) = ?s1"
    if "(k, v) \<in> set ps" for k v
  proof -
    from others [OF that] have "CHR ''}'' \<notin> set (''route.params.'' @ k)" by simp
    moreover have "''route.params.'' @ k \<noteq> ?vs"
    proof
      assume "''route.params.'' @ k = ?vs"
      then have "HasPrefix ?vs ''route.params.''"
        by (metis HasPrefix_append)
      with notroute show False by simp
    qed
    ultimately have "ReplaceAll ?s1 (''{'' @ (''route.params.'' @ k) @ ''}'') (Sprint v) = ?s1"
      by (rule a1g)
    then show ?thesis by simp
  qed
  have nh: "\<not> HasPrefix (CHR ''{'' # CHR ''{'' # key @ CHR ''}'' # CHR ''}'' # post) (CHR ''{'' # key @ ''}'')"
    using kb(1) by (cases key) (auto simp: HasPrefix_def)
  have c0: "Contains ?s0 (''{'' @ key @ ''}'')"
    using pre nh by (simp add: Contains_skip) (simp add: Contains_def HasPrefix_def)
  have r0: "ReplaceAll ?s0 (''{'' @ key @ ''}'') ?vs = ?s1"
  proof -
    have "ReplaceAll (CHR ''{'' # (key @ ''}'') @ CHR ''}'' # post) (CHR ''{'' # key @ ''}'') ?vs
            = ?vs @ ReplaceAll (CHR ''}'' # post) (CHR ''{'' # key @ ''}'') ?vs"
      by (rule ReplaceAll_here)
    moreover have "ReplaceAll (CHR ''}'' # post) (CHR ''{'' # key @ ''}'') ?vs = CHR ''}'' # post"
      using post by (intro ReplaceAll_no_brace) simp
    moreover from nh have "ReplaceAll (CHR ''{'' # CHR ''{'' # key @ CHR ''}'' # CHR ''}'' # post)
                 (CHR ''{'' # key @ ''}'') ?vs
               = CHR ''{'' # ReplaceAll (CHR ''{'' # key @ CHR ''}'' # CHR ''}'' # post)
                   (CHR ''{'' # key @ ''}'') ?vs"
      by (rule ReplaceAll_not_here)
    ultimately show ?thesis using pre by (simp add: ReplaceAll_skip)
  qed
  have "HTTPProvider_replaceParams ?s0 ps = ?s1"
    by (rule HTTPProvider_replaceParams_one [OF dist key a0 a1 c0 r0])
  moreover have "resolveEnvVars getenv ?s1 = Some ?s1"
  proof -
    have "\<not> HasPrefix (CHR ''{'' # ?vs @ CHR ''}'' # post) ''{env.''"
    proof
      assume "HasPrefix (CHR ''{'' # ?vs @ CHR ''}'' # post) ''{env.''"
      then have "HasPrefix (?vs @ CHR ''}'' # post) ''env.''" by (simp add: HasPrefix_def)
      then have "HasPrefix ?vs ''env.''" by (rule HasPrefix_before [rotated]) simp
      with notenv show False by simp
    qed
    then have "Index (CHR ''{'' # ?vs @ CHR ''}'' # post) ''{env.'' = None"
      using val(1) post by (simp add: Index_no_brace)
    then have "Index ?s1 ''{env.'' = None"
      using pre Contains_skip [of pre "CHR ''{'' # ?vs @ CHR ''}'' # post" "''env.''"]
      by (simp add: Contains_def)
    then show ?thesis by (subst resolveEnvVars.simps) simp
  qed
  ultimately have provider: "HTTPProvider_resolveTemplate getenv ?s0 ps = Some ?s1"
    by (simp add: HTTPProvider_resolveTemplate_def)
  have "resolveStringTemplate_keys ?s0 ps = ?s1"
    by (rule resolveStringTemplate_keys_one [OF dist key a0 a1 r0])
  moreover have "resolveStringTemplate_routeParams ?s1 ps = ?s1"
    by (rule resolveStringTemplate_routeParams_untouched) (rule a2)
  ultimately have "resolveStringTemplate ?s0 ps = ?s1"
    by (simp add: resolveStringTemplate_def)
  with provider show ?thesis by simp
qed

text \<open>
  Claim C5, as stated, at \<open>{{id}}\<close> with \<open>id\<close> bound to the string 42. The provider
  resolves \<open>{id}\<close> to 42 and \<open>{{id}}\<close> to \<open>{42}\<close>: the inner \<open>{id}\<close> is the only
  placeholder it knows, and the outer braces stay. The tool and the context builder
  give \<open>{42}\<close> for \<open>{{id}}\<close> as well, so in none of the three is \<open>{{key}}\<close> read like
  \<open>{key}\<close>.
\<close>

theorem double_brace_not_alias_counterexample:
  "HTTPProvider_resolveTemplate example_getenv ''{id}'' example_params = Some ''42''
   \<and> HTTPProvider_resolveTemplate example_getenv ''{{id}}'' example_params = Some ''{42}''
   \<and> HTTPTool_resolveTemplate example_getenv ''tok'' ''{id}'' example_params = ''42''
   \<and> HTTPTool_resolveTemplate example_getenv ''tok'' ''{{id}}'' example_params = ''{42}''
   \<and> resolveStringTemplate ''{id}'' example_params = ''42''
   \<and> resolveStringTemplate ''{{id}}'' example_params = ''{42}''"
  by (simp add: HTTPProvider_resolveTemplate_def HTTPTool_resolveTemplate_def
        resolveStringTemplate_def example_params_def resolveEnvVars.simps
        Contains_def HasPrefix_def)

text \<open>
  Claim C5, amended, for the provider and the context builder. Let the parameter map have
  distinct keys without braces, and bind \<open>key\<close> to \<open>value\<close>, whose string form has no
  brace, is not itself a key and starts neither with \<open>env.\<close> nor with \<open>route.params.\<close>;
  let \<open>pre\<close> and \<open>post\<close> hold no opening brace. Then both resolvers return, for the
  template \<open>pre{key}post\<close>, the string \<open>pre\<close>, the string form of the value, \<open>post\<close>;
  and for the template \<open>pre{{key}}post\<close> the same with the string form of the value
  between one pair of braces: the inner \<open>{key}\<close> is replaced and the outer braces are
  kept.
\<close>

theorem resolveTemplate_single_and_double_braces:
  assumes keys: "\<forall>k \<in> fst ` set ps. CHR ''{'' \<notin> set k \<and> CHR ''}'' \<notin> set k"
    and dist: "distinct (map fst ps)"
    and key: "(key, value) \<in> set ps"
    and pre: "CHR ''{'' \<notin> set pre"
    and post: "CHR ''{'' \<notin> set post"
    and val: "CHR ''{'' \<notin> set (Sprint value)" "CHR ''}'' \<notin> set (Sprint value)"
    and notkey: "Sprint value \<notin> fst ` set ps"
    and notenv: "\<not> HasPrefix (Sprint value) ''env.''"
    and notroute: "\<not> HasPrefix (Sprint value) ''route.params.''"
  shows "HTTPProvider_resolveTemplate getenv (pre @ ''{'' @ key @ ''}'' @ post) ps
           = Some (pre @ Sprint value @ post)
       \<and> resolveStringTemplate (pre @ ''{'' @ key @ ''}'' @ post) ps
           = pre @ Sprint value @ post
       \<and> HTTPProvider_resolveTemplate getenv (pre @ ''{{'' @ key @ ''}}'' @ post) ps
           = Some (pre @ ''{'' @ Sprint value @ ''}'' @ post)
       \<and> resolveStringTemplate (pre @ ''{{'' @ key @ ''}}'' @ post) ps
           = pre @ ''{'' @ Sprint value @ ''}'' @ post"
  using single_brace_resolved [OF keys dist key pre post val, of getenv]
    double_brace_resolved [OF keys dist key pre post val notkey notenv notroute, of getenv]
  by (intro conjI) (elim conjE, assumption)+

theorem resolveTemplate_single_and_double_braces_witness:
  "HTTPProvider_resolveTemplate example_getenv ''/items/{id}/view'' example_params
     = Some ''/items/42/view''
   \<and> resolveStringTemplate ''/items/{id}/view'' example_params = ''/items/42/view''
   \<and> HTTPProvider_resolveTemplate example_getenv ''/items/{{id}}/view'' example_params
     = Some ''/items/{42}/view''
   \<and> resolveStringTemplate ''/items/{{id}}/view'' example_params = ''/items/{42}/view''"
  using resolveTemplate_single_and_double_braces
          [of example_params "''id''" "AString ''42''" "''/items/''" "''/view''" example_getenv]
  by (simp add: example_params_def HasPrefix_def)


section \<open>HTTP tool: missing agent parameters and failing context paths\<close>

lemma resolveParameters_loop_append:
  "resolveParameters_loop t a (xs @ ys) r =
     (case resolveParameters_loop t a xs r of
        Inl e \<Rightarrow> Inl e
      | Inr r' \<Rightarrow> resolveParameters_loop t a ys r')"
  by (induction xs arbitrary: r) (auto split: option.splits sum.splits)

lemma resolveParameters_loop_other:
  "resolveParameters_loop t a xs r = Inr r' \<Longrightarrow> n \<notin> ToolParameter.Name ` set xs \<Longrightarrow>
   map_of r' n = map_of r n"
proof (induction xs arbitrary: r)
  case Nil
  then show ?case by simp
next
  case (Cons p xs)
  from Cons.prems(2) have n: "n \<noteq> ToolParameter.Name p" "n \<notin> ToolParameter.Name ` set xs"
    by auto
  from Cons.prems(1) obtain r1 where
    r1: "resolveParameters_loop t a xs r1 = Inr r'" and "map_of r1 n = map_of r n"
    using n(1) by (auto simp: update_conv split: if_splits option.splits sum.splits)
  with Cons.IH [OF r1 n(2)] show ?case by simp
qed

text \<open>
  Claim C7. Let \<open>p\<close> be a declared parameter of the tool (the declared parameters are
  \<open>pre\<close>, \<open>p\<close>, \<open>post\<close>, with distinct names) and let the parameters before it resolve.
  If \<open>p\<close> has source agent and its name is not in the parsed arguments, then
  resolveParameters returns the missing-parameter error for the tool and \<open>p\<close> when \<open>p\<close>
  is required; otherwise, when a default is set, the default is entered under the name
  of \<open>p\<close>, the loop goes on with the later parameters, and every map that
  resolveParameters returns has the default under that name.
  If \<open>p\<close> has source context with a context path and extractFromContext (which strips
  the surrounding braces, splits on the dot and walks the workflow context) fails with
  \<open>err\<close>, then resolveParameters returns the parameter-resolution error for the tool,
  \<open>p\<close> and \<open>err\<close> when \<open>p\<close> is required; otherwise \<open>p\<close> is skipped, the loop goes on with
  the later parameters, and no map that resolveParameters returns has the name of \<open>p\<close>.
\<close>

theorem resolveParameters_missing_and_unresolved:
  assumes decl: "Tool.Parameters (tool_definition t) = pre @ p # post"
    and dist: "distinct (map ToolParameter.Name (Tool.Parameters (tool_definition t)))"
    and before: "resolveParameters_loop t a pre [] = Inr acc"
  shows "(Source p = ''agent'' \<and> map_of a (ToolParameter.Name p) = None \<longrightarrow>
            (Required p \<longrightarrow>
               resolveParameters t a
                 = Inl (MissingParameter (Tool.Name (tool_definition t)) (ToolParameter.Name p)))
          \<and> (\<not> Required p \<and> Default p \<noteq> ANil \<longrightarrow>
               resolveParameters t a
                 = resolveParameters_loop t a post
                     (AList.update (ToolParameter.Name p) (Default p) acc)
               \<and> (\<forall>r. resolveParameters t a = Inr r \<longrightarrow>
                      map_of r (ToolParameter.Name p) = Some (Default p))))
       \<and> (Source p = ''context'' \<and> ContextPath p \<noteq> []
            \<and> extractFromContext (ContextPath p) (workflowContext t) = Inl err \<longrightarrow>
            (Required p \<longrightarrow>
               resolveParameters t a
                 = Inl (ParameterResolution (Tool.Name (tool_definition t))
                          (ToolParameter.Name p) err))
          \<and> (\<not> Required p \<longrightarrow>
               resolveParameters t a = resolveParameters_loop t a post acc
               \<and> (\<forall>r. resolveParameters t a = Inr r \<longrightarrow>
                      map_of r (ToolParameter.Name p) = None)))"
proof -
  let ?n = "ToolParameter.Name p"
  from decl dist have npre: "?n \<notin> ToolParameter.Name ` set pre"
    and npost: "?n \<notin> ToolParameter.Name ` set post"
    by auto
  have run: "resolveParameters t a = resolveParameters_loop t a (p # post) acc"
    using decl before by (simp add: resolveParameters_def resolveParameters_loop_append)
  from resolveParameters_loop_other [OF before npre] have acc: "map_of acc ?n = None"
    by simp
  have kept: "map_of r ?n = map_of r0 ?n" if "resolveParameters_loop t a post r0 = Inr r" for r r0
    using resolveParameters_loop_other [OF that npost] .
  have agent_required: "resolveParameters t a
      = Inl (MissingParameter (Tool.Name (tool_definition t)) ?n)"
    if "Source p = ''agent''" "map_of a ?n = None" "Required p"
    using that run by simp
  have agent_default: "resolveParameters t a
      = resolveParameters_loop t a post (AList.update ?n (Default p) acc)"
    if "Source p = ''agent''" "map_of a ?n = None" "\<not> Required p" "Default p \<noteq> ANil"
    using that run by simp
  have context_required: "resolveParameters t a
      = Inl (ParameterResolution (Tool.Name (tool_definition t)) ?n err)"
    if "Source p = ''context''" "ContextPath p \<noteq> []"
      "extractFromContext (ContextPath p) (workflowContext t) = Inl err" "Required p"
    using that run by simp
  have context_skipped: "resolveParameters t a = resolveParameters_loop t a post acc"
    if "Source p = ''context''" "ContextPath p \<noteq> []"
      "extractFromContext (ContextPath p) (workflowContext t) = Inl err" "\<not> Required p"
    using that run by simp
  show ?thesis
  proof (intro conjI impI allI; (elim conjE)?)
    fix r
    assume "Source p = ''agent''" "map_of a ?n = None" "\<not> Required p" "Default p \<noteq> ANil"
      and res: "resolveParameters t a = Inr r"
    with agent_default have "resolveParameters_loop t a post (AList.update ?n (Default p) acc) = Inr r"
      by simp
    from kept [OF this] show "map_of r ?n = Some (Default p)" by (simp add: update_conv)
  next
    fix r
    assume "Source p = ''context''" "ContextPath p \<noteq> []"
      "extractFromContext (ContextPath p) (workflowContext t) = Inl err" "\<not> Required p"
      and res: "resolveParameters t a = Inr r"
    with context_skipped have "resolveParameters_loop t a post acc = Inr r" by simp
    from kept [OF this] acc show "map_of r ?n = None" by simp
  qed (use agent_required agent_default context_required context_skipped in simp_all)
qed

theorem resolveParameters_missing_and_unresolved_witness:
  "resolveParameters (example_http_tool example_context_known) []
     = Inl (MissingParameter ''search'' ''q'')
   \<and> resolveParameters (example_http_tool example_context_anonymous) [(''q'', AString ''tea'')]
     = Inl (ParameterResolution ''search'' ''uid'' (PathSegmentNotFound ''id'' 1))
   \<and> (\<exists>r. resolveParameters (example_http_tool example_context_known) [(''q'', AString ''tea'')]
            = Inr r
          \<and> map_of r ''limit'' = Some (AInt 10) \<and> map_of r ''org'' = None)"
proof -
  let ?limit = "example_parameter ''limit'' ''agent'' False [] (AInt 10)"
  let ?org = "example_parameter ''org'' ''context'' False ''{{ user.org.name }}'' ANil"
  let ?q = "example_parameter ''q'' ''agent'' True [] ANil"
  let ?uid = "example_parameter ''uid'' ''context'' True ''{{user.id}}'' ANil"
  let ?known = "example_http_tool example_context_known"
  let ?anonymous = "example_http_tool example_context_anonymous"
  let ?tea = "[(''q'', AString ''tea'')]"
  note defs = example_http_tool_def NewHTTPTool_def example_tool_parameters_def
    example_parameter_def
  have dist: "distinct (map ToolParameter.Name (Tool.Parameters (tool_definition (example_http_tool ctx))))"
    for ctx by (simp add: defs)
  have q: "resolveParameters ?known [] = Inl (MissingParameter ''search'' ''q'')"
  proof -
    have "Tool.Parameters (tool_definition ?known) = [?limit, ?org] @ ?q # [?uid]"
      by (simp add: defs)
    moreover have "resolveParameters_loop ?known [] [?limit, ?org] [] = Inr [(''limit'', AInt 10)]"
      by code_simp
    ultimately show ?thesis
      using resolveParameters_missing_and_unresolved [of ?known "[?limit, ?org]" ?q "[?uid]" "[]"]
        dist [of example_context_known]
      by (simp add: defs)
  qed
  have uid: "resolveParameters ?anonymous ?tea
      = Inl (ParameterResolution ''search'' ''uid'' (PathSegmentNotFound ''id'' 1))"
  proof -
    have "Tool.Parameters (tool_definition ?anonymous) = [?limit, ?org, ?q] @ ?uid # []"
      by (simp add: defs)
    moreover have "resolveParameters_loop ?anonymous ?tea [?limit, ?org, ?q] []
        = Inr [(''limit'', AInt 10), (''q'', AString ''tea'')]"
      by code_simp
    moreover have "extractFromContext (ContextPath ?uid) (workflowContext ?anonymous)
        = Inl (PathSegmentNotFound ''id'' 1)"
      by code_simp
    ultimately show ?thesis
      using resolveParameters_missing_and_unresolved
              [of ?anonymous "[?limit, ?org, ?q]" ?uid "[]" ?tea _ "PathSegmentNotFound ''id'' 1"]
        dist [of example_context_anonymous]
      by (simp add: defs)
  qed
  have res: "resolveParameters ?known ?tea
      = Inr [(''limit'', AInt 10), (''q'', AString ''tea''), (''uid'', AString ''u1'')]"
    by code_simp
  have limit: "map_of r ''limit'' = Some (AInt 10)" if "resolveParameters ?known ?tea = Inr r" for r
  proof -
    have "Tool.Parameters (tool_definition ?known) = [] @ ?limit # [?org, ?q, ?uid]"
      by (simp add: defs)
    moreover have "resolveParameters_loop ?known ?tea [] [] = Inr []"
      by simp
    ultimately show ?thesis
      using resolveParameters_missing_and_unresolved
              [of ?known "[]" ?limit "[?org, ?q, ?uid]" ?tea "[]"]
        dist [of example_context_known] that
      by (simp add: example_parameter_def)
  qed
  have org: "map_of r ''org'' = None" if "resolveParameters ?known ?tea = Inr r" for r
  proof -
    have "Tool.Parameters (tool_definition ?known) = [?limit] @ ?org # [?q, ?uid]"
      by (simp add: defs)
    moreover have "resolveParameters_loop ?known ?tea [?limit] [] = Inr [(''limit'', AInt 10)]"
      by code_simp
    moreover have "extractFromContext (ContextPath ?org) (workflowContext ?known)
        = Inl (PathSegmentNotFound ''org'' 1)"
      by code_simp
    ultimately show ?thesis
      using resolveParameters_missing_and_unresolved
              [of ?known "[?limit]" ?org "[?q, ?uid]" ?tea _ "PathSegmentNotFound ''org'' 1"]
        dist [of example_context_known] that
      by (simp add: example_parameter_def)
  qed
  from res limit org q uid show ?thesis by blast
qed

section \<open>Memory: what Clear leaves\<close>

lemma convertMessages_filter:
  "convertMessages u (filter (\<lambda>m. SessionMessage.Role m = ''system'') sms)
   = filter (\<lambda>m. Message.Role m = ''system'') (convertMessages u sms)"
  by (induction sms) (auto simp: ToLLMMessage_def Let_def split: sum.splits)

lemma ClearMessages_rows:
  "ClearMessages drv sid db = (None, db') \<Longrightarrow>
   filter (\<lambda>m. SessionMessage.SessionID m = sid) (session_messages db')
   = filter (\<lambda>m. SessionMessage.Role m = ''system'')
       (filter (\<lambda>m. SessionMessage.SessionID m = sid) (session_messages db))"
proof -
  assume a: "ClearMessages drv sid db = (None, db')"
  have rows: "session_messages db' =
      filter (\<lambda>m. \<not> (SessionMessage.SessionID m = sid \<and> SessionMessage.Role m \<noteq> ''system''))
        (session_messages db)"
    using a by (cases drv) (auto simp: ClearMessages_def)
  show ?thesis unfolding rows filter_filter by (rule filter_cong) auto
qed

text \<open>
  Claim C8, as stated, fails for SessionMemory. In the store of the scenario the session
  holds two system messages (the seed and the updated context the orchestrator injected)
  and a user message; Clear succeeds and Messages then returns both system messages, not
  the single seeded one.
\<close>

theorem Clear_single_system_message_counterexample:
  "fst (SessionMemory_Clear None example_memory example_store) = None
   \<and> SessionMemory_Messages (\<lambda>s. Inr []) None example_memory
        (snd (SessionMemory_Clear None example_memory example_store))
      = Inr [NewSystemMessage ''seed'', NewSystemMessage ''updated context'']
   \<and> SessionMemory_Messages (\<lambda>s. Inr []) None example_memory
        (snd (SessionMemory_Clear None example_memory example_store))
      \<noteq> Inr [NewSystemMessage ''seed'']"
  by code_simp

text \<open>
  Claim C8, amended. BufferMemory: after Clear, Messages returns exactly the configured
  system message, or the empty list when its content is empty. SessionMemory: after a
  Clear that succeeds, Messages returns exactly the messages of role system that it
  returned before, in the same order and unchanged (the seed and every system message
  added since); every message of another role is gone.
\<close>

theorem Clear_then_Messages:
  "BufferMemory_Messages (snd (BufferMemory_Clear bm))
     = Inr (if Message.Content (systemMessage bm) \<noteq> '''' then [systemMessage bm] else [])
   \<and> (SessionMemory_Clear drv sm db = (None, db') \<longrightarrow>
        SessionMemory_Messages unmarshal None sm db = Inr before \<longrightarrow>
        SessionMemory_Messages unmarshal None sm db'
          = Inr (filter (\<lambda>m. Message.Role m = ''system'') before))"
proof (intro conjI impI)
  show "BufferMemory_Messages (snd (BufferMemory_Clear bm))
     = Inr (if Message.Content (systemMessage bm) \<noteq> '''' then [systemMessage bm] else [])"
    by (simp add: BufferMemory_Clear_def BufferMemory_Messages_def)
next
  assume c: "SessionMemory_Clear drv sm db = (None, db')"
    and b: "SessionMemory_Messages unmarshal None sm db = Inr before"
  from c have rows: "filter (\<lambda>m. SessionMessage.SessionID m = sessionID sm) (session_messages db')
   = filter (\<lambda>m. SessionMessage.Role m = ''system'')
       (filter (\<lambda>m. SessionMessage.SessionID m = sessionID sm) (session_messages db))"
    unfolding SessionMemory_Clear_def by (rule ClearMessages_rows)
  from b have before: "before = convertMessages unmarshal
       (sort_key SessionMessage.CreatedAt
         (filter (\<lambda>m. SessionMessage.SessionID m = sessionID sm) (session_messages db)))"
    by (simp add: SessionMemory_Messages_def GetMessages_def)
  show "SessionMemory_Messages unmarshal None sm db'
          = Inr (filter (\<lambda>m. Message.Role m = ''system'') before)"
    by (simp add: SessionMemory_Messages_def GetMessages_def rows before
        convertMessages_filter [symmetric] filter_sort)
qed

theorem Clear_then_Messages_witness:
  "SessionMemory_Clear None example_memory example_store
     = (None, snd (SessionMemory_Clear None example_memory example_store))
   \<and> SessionMemory_Messages (\<lambda>s. Inr []) None example_memory example_store
     = Inr [NewSystemMessage ''seed'', NewSystemMessage ''updated context'', NewUserMessage ''hi'']
   \<and> SessionMemory_Messages (\<lambda>s. Inr []) None example_memory
       (snd (SessionMemory_Clear None example_memory example_store))
     = Inr [NewSystemMessage ''seed'', NewSystemMessage ''updated context'']"
proof -
  have h1: "SessionMemory_Clear None example_memory example_store
     = (None, snd (SessionMemory_Clear None example_memory example_store))"
    by (simp add: SessionMemory_Clear_def ClearMessages_def)
  have h2: "SessionMemory_Messages (\<lambda>s. Inr []) None example_memory example_store
     = Inr [NewSystemMessage ''seed'', NewSystemMessage ''updated context'', NewUserMessage ''hi'']"
    by code_simp
  have "SessionMemory_Messages (\<lambda>s. Inr []) None example_memory
       (snd (SessionMemory_Clear None example_memory example_store))
     = Inr (filter (\<lambda>m. Message.Role m = ''system'')
         [NewSystemMessage ''seed'', NewSystemMessage ''updated context'', NewUserMessage ''hi''])"
    using Clear_then_Messages [THEN conjunct2, rule_format, OF h1 h2] .
  then show ?thesis using h1 h2 by (simp add: NewSystemMessage_def NewUserMessage_def)
qed

end
